(* ===== verification/Fex_Prelude.thy ===== *)
theory Fex_Prelude
  imports Main "HOL-Library.Word" "HOL-Library.Monad_Syntax"
begin

text \<open>
  Shared vocabulary of the development: the machine integers of the source, little-endian
  byte encoding, checked memory accesses, and the locale \<open>wire_struct\<close> that every wire
  structure of the FUSE ABI is an instance of.

  Memory is a list of bytes. A read or a write outside the list is the value \<^term>\<open>None\<close>
  (undefined behaviour of the C++ program), so a theorem that an operation returns
  \<^term>\<open>Some r\<close> is a memory-safety theorem. \<open>std::size_t\<close> is modelled by \<^typ>\<open>nat\<close>; the one
  subtraction of the source that can wrap is written with \<open>size_sub\<close>.
\<close>

unbundle bit_operations_syntax

named_theorems wire_defs "definitions of the encoders and decoders of wire structures"
named_theorems consumes_intros "how many bytes a decoder consumes"

type_synonym byte = "8 word"
type_synonym u8 = "8 word"
type_synonym u16 = "16 word"
type_synonym u32 = "32 word"
type_synonym u64 = "64 word"
type_synonym i32 = "32 word" \<comment> \<open>two's complement; read with \<^const>\<open>sint\<close>\<close>
type_synonym i64 = "64 word" \<comment> \<open>two's complement; read with \<^const>\<open>sint\<close>\<close>

text \<open>\<open>a - b\<close> on \<open>std::size_t\<close>: wraps around below zero.\<close>

definition size_sub :: "nat \<Rightarrow> nat \<Rightarrow> nat" where
  "size_sub a b = (if b \<le> a then a - b else 2 ^ 64 + a - b)"

lemma size_sub_le [simp]: "b \<le> a \<Longrightarrow> size_sub a b = a - b"
  by (simp add: size_sub_def)

subsection \<open>Little-endian integers\<close>

primrec le_enc :: "nat \<Rightarrow> 'a::len word \<Rightarrow> byte list" where
  "le_enc 0 w = []"
| "le_enc (Suc n) w = ucast w # le_enc n (drop_bit 8 w)"

primrec le_dec :: "byte list \<Rightarrow> 'a::len word" where
  "le_dec [] = 0"
| "le_dec (b # bs) = ucast b OR push_bit 8 (le_dec bs)"

lemma length_le_enc [simp]: "length (le_enc n w) = n"
  by (induction n arbitrary: w) simp_all

lemma le_dec_le_enc: "le_dec (le_enc n w) = take_bit (8 * n) w"
proof (induction n arbitrary: w)
  case 0
  then show ?case by simp
next
  case (Suc n)
  have "ucast (ucast w :: byte) OR push_bit 8 (take_bit (8 * n) (drop_bit 8 w)) =
        take_bit (8 * Suc n) w"
    by (rule bit_eqI) (auto simp: bit_simps)
  with Suc show ?case by simp
qed

lemma le_dec_le_enc_full:
  fixes w :: "'a::len word"
  assumes "LENGTH('a) \<le> 8 * n"
  shows "le_dec (le_enc n w) = w"
  using assms by (simp add: le_dec_le_enc take_bit_word_eq_self)

subsection \<open>Decoders\<close>

text \<open>
  A decoder reads a value from the front of the bytes at a pointer and returns the rest;
  \<^term>\<open>None\<close> when the bytes end before the value does. The structures of the ABI are
  packed (every hole is an explicit padding member), so a structure is the sequence of
  its members.
\<close>

type_synonym 'a getter = "byte list \<Rightarrow> ('a \<times> byte list) option"

definition get_word :: "nat \<Rightarrow> 'a::len word getter" where
  "get_word n bs = (if n \<le> length bs then Some (le_dec (take n bs), drop n bs) else None)"

definition skip :: "nat \<Rightarrow> byte list \<Rightarrow> byte list option" where
  "skip n bs = (if n \<le> length bs then Some (drop n bs) else None)"

definition zeros :: "nat \<Rightarrow> byte list" where
  "zeros n = replicate n 0"

definition get8 :: "u8 getter" where "get8 = get_word 1"
definition get16 :: "u16 getter" where "get16 = get_word 2"
definition get32 :: "u32 getter" where "get32 = get_word 4"
definition get64 :: "u64 getter" where "get64 = get_word 8"

definition put8 :: "u8 \<Rightarrow> byte list" where "put8 = le_enc 1"
definition put16 :: "u16 \<Rightarrow> byte list" where "put16 = le_enc 2"
definition put32 :: "u32 \<Rightarrow> byte list" where "put32 = le_enc 4"
definition put64 :: "u64 \<Rightarrow> byte list" where "put64 = le_enc 8"

lemma length_zeros [simp]: "length (zeros n) = n"
  by (simp add: zeros_def)

lemma length_put [simp]:
  "length (put8 a) = 1" "length (put16 b) = 2" "length (put32 c) = 4" "length (put64 d) = 8"
  by (simp_all add: put8_def put16_def put32_def put64_def)

lemma get_word_le_enc:
  fixes w :: "'a::len word"
  assumes "LENGTH('a) \<le> 8 * n"
  shows "get_word n (le_enc n w @ rest) = Some (w, rest)"
  using assms by (simp add: get_word_def le_dec_le_enc_full)

lemma get_put_word [simp]:
  "get8 (put8 a @ rest) = Some (a, rest)"
  "get16 (put16 b @ rest) = Some (b, rest)"
  "get32 (put32 c @ rest) = Some (c, rest)"
  "get64 (put64 d @ rest) = Some (d, rest)"
  unfolding get8_def put8_def get16_def put16_def get32_def put32_def get64_def put64_def
  by (rule get_word_le_enc; simp)+

lemma skip_zeros [simp]: "skip n (zeros n @ rest) = Some rest"
  by (simp add: skip_def)

lemma get_put_word_nil [simp]:
  "get8 (put8 a) = Some (a, [])" "get16 (put16 b) = Some (b, [])"
  "get32 (put32 c) = Some (c, [])" "get64 (put64 d) = Some (d, [])"
  using get_put_word [where rest = "[]"] by simp_all

lemma skip_zeros_nil [simp]: "skip n (zeros n) = Some []"
  by (simp add: skip_def)

text \<open>
  \<open>consumes n g\<close>: the decoder \<open>g\<close> succeeds exactly on inputs of at least \<open>n\<close> bytes and
  leaves all but the first \<open>n\<close>. It composes along the binds of a structure's decoder.
\<close>

definition consumes :: "nat \<Rightarrow> 'a getter \<Rightarrow> bool" where
  "consumes n g \<longleftrightarrow>
     (\<forall>bs. (length bs < n \<longrightarrow> g bs = None) \<and> (n \<le> length bs \<longrightarrow> (\<exists>x. g bs = Some (x, drop n bs))))"

lemma consumes_get_word: "consumes n (get_word n)"
  by (simp add: consumes_def get_word_def)

lemma consumes_get [consumes_intros]:
  "consumes 1 get8" "consumes 2 get16" "consumes 4 get32" "consumes 8 get64"
  by (simp_all add: get8_def get16_def get32_def get64_def consumes_get_word)

lemma consumes_return [consumes_intros]: "consumes 0 (\<lambda>bs. Some (x, bs))"
  by (simp add: consumes_def)

lemma consumes_bind [consumes_intros]:
  assumes "consumes n g" "\<And>x. consumes m (f x)"
  shows "consumes (n + m) (\<lambda>bs. g bs \<bind> (\<lambda>(x, bs'). f x bs'))"
  unfolding consumes_def
proof (intro allI conjI impI)
  fix bs :: "byte list"
  assume short: "length bs < n + m"
  show "g bs \<bind> (\<lambda>(x, bs'). f x bs') = None"
  proof (cases "length bs < n")
    case True
    with assms(1) show ?thesis by (simp add: consumes_def)
  next
    case False
    with assms(1) obtain x where "g bs = Some (x, drop n bs)"
      unfolding consumes_def by (meson not_less)
    moreover from short False have "length (drop n bs) < m" by simp
    ultimately show ?thesis using assms(2) [of x] by (simp add: consumes_def)
  qed
next
  fix bs :: "byte list"
  assume long: "n + m \<le> length bs"
  then have "n \<le> length bs" by simp
  with assms(1) obtain x where x: "g bs = Some (x, drop n bs)"
    unfolding consumes_def by meson
  from long have "m \<le> length (drop n bs)" by simp
  with assms(2) [of x] obtain y where "f x (drop n bs) = Some (y, drop m (drop n bs))"
    unfolding consumes_def by blast
  with x show "\<exists>y. g bs \<bind> (\<lambda>(x, bs'). f x bs') = Some (y, drop (n + m) bs)"
    by (simp add: add.commute)
qed

lemma consumes_skip [consumes_intros]:
  assumes "consumes m f"
  shows "consumes (n + m) (\<lambda>bs. skip n bs \<bind> f)"
proof -
  have "consumes n (\<lambda>bs. skip n bs \<bind> (\<lambda>bs'. Some ((), bs')))"
    by (simp add: consumes_def skip_def)
  then have "consumes (n + m) (\<lambda>bs. (skip n bs \<bind> (\<lambda>bs'. Some ((), bs'))) \<bind> (\<lambda>(x, bs'). f bs'))"
    using assms by (rule consumes_bind)
  then show ?thesis by simp
qed

subsection \<open>Checked memory accesses\<close>

text \<open>
  \<open>load g mem off\<close> reads the structure decoded by \<open>g\<close> through a pointer \<open>mem + off\<close>;
  \<open>slice mem off n\<close> is the byte range a \<open>std::span\<close> or \<open>std::string_view\<close> of length \<open>n\<close>
  at \<open>mem + off\<close> denotes; \<open>store mem off bs\<close> is \<open>memcpy(mem + off, bs)\<close>.
\<close>

definition load :: "'a getter \<Rightarrow> byte list \<Rightarrow> nat \<Rightarrow> 'a option" where
  "load g mem off = (if off \<le> length mem then map_option fst (g (drop off mem)) else None)"

definition slice :: "byte list \<Rightarrow> nat \<Rightarrow> nat \<Rightarrow> byte list option" where
  "slice mem off n = (if off + n \<le> length mem then Some (take n (drop off mem)) else None)"

definition store :: "byte list \<Rightarrow> nat \<Rightarrow> byte list \<Rightarrow> byte list option" where
  "store mem off bs =
     (if off + length bs \<le> length mem
      then Some (take off mem @ bs @ drop (off + length bs) mem) else None)"

text \<open>
  \<open>strnlen(mem + off, maxlen)\<close>: scans for a NUL and reads every byte it passes, so it is
  undefined when it leaves the memory before it has found a NUL or \<open>maxlen\<close> bytes.
\<close>

definition strnlen :: "byte list \<Rightarrow> nat \<Rightarrow> nat \<Rightarrow> nat option" where
  "strnlen mem off maxlen =
     (let n = length (takeWhile (\<lambda>b. b \<noteq> 0) (take maxlen (drop off mem)))
      in if n < maxlen \<and> length mem \<le> off + n then None else Some n)"

lemma load_cong_drop: "off \<le> length mem \<Longrightarrow> load g mem off = load g (drop off mem) 0"
  by (simp add: load_def)

lemma consumes_load:
  assumes "consumes n g"
  shows "off + n \<le> length mem \<Longrightarrow> \<exists>x. load g mem off = Some x"
    and "length mem < off + n \<Longrightarrow> load g mem off = None"
proof -
  assume "off + n \<le> length mem"
  then have "off \<le> length mem" and "n \<le> length (drop off mem)" by simp_all
  with assms show "\<exists>x. load g mem off = Some x"
    unfolding consumes_def load_def by (metis map_option_eq_Some)
next
  assume "length mem < off + n"
  then have "length (drop off mem) < n \<or> length mem < off" by auto
  with assms show "load g mem off = None" by (auto simp: consumes_def load_def)
qed

lemma slice_Some [simp]: "off + n \<le> length mem \<Longrightarrow> slice mem off n = Some (take n (drop off mem))"
  by (simp add: slice_def)

lemma slice_length: "slice mem off n = Some bs \<Longrightarrow> length bs = n"
  by (auto simp: slice_def split: if_splits)

lemma store_Some:
  "off + length bs \<le> length mem \<Longrightarrow>
   store mem off bs = Some (take off mem @ bs @ drop (off + length bs) mem)"
  by (simp add: store_def)

lemma store_length: "store mem off bs = Some mem' \<Longrightarrow> length mem' = length mem"
  by (auto simp: store_def split: if_splits)

lemma store_0 [simp]: "length bs \<le> length mem \<Longrightarrow> store mem 0 bs = Some (bs @ drop (length bs) mem)"
  by (simp add: store_def)

lemma store_append:
  "store mem off (a @ b) = store mem off a \<bind> (\<lambda>m. store m (off + length a) b)"
proof (cases "off + length a + length b \<le> length mem")
  case True
  then have "length (take off mem @ a) = off + length a" by simp
  moreover have "drop (length b) (drop (off + length a) mem) = drop (off + (length a + length b)) mem"
    by (simp add: ac_simps)
  ultimately show ?thesis using True by (simp add: store_Some ac_simps)
next
  case False
  then show ?thesis by (auto simp: store_def)
qed

lemma strnlen_in_bounds:
  assumes "off + maxlen \<le> length mem"
  shows "\<exists>n. strnlen mem off maxlen = Some n \<and> n \<le> maxlen"
proof -
  let ?t = "takeWhile (\<lambda>b. b \<noteq> 0) (take maxlen (drop off mem))"
  have "length ?t \<le> length (take maxlen (drop off mem))" by (rule length_takeWhile_le)
  with assms have "length ?t \<le> maxlen" by simp
  moreover have "\<not> (length ?t < maxlen \<and> length mem \<le> off + length ?t)" using assms by simp
  ultimately show ?thesis by (auto simp: strnlen_def Let_def)
qed

lemma strnlen_le: "strnlen mem off maxlen = Some n \<Longrightarrow> n \<le> maxlen"
proof -
  assume "strnlen mem off maxlen = Some n"
  then have "n = length (takeWhile (\<lambda>b. b \<noteq> 0) (take maxlen (drop off mem)))"
    by (auto simp: strnlen_def Let_def split: if_splits)
  also have "\<dots> \<le> length (take maxlen (drop off mem))" by (rule length_takeWhile_le)
  finally show ?thesis by simp
qed

lemma strnlen_bounded_mem: "strnlen mem off maxlen = Some n \<Longrightarrow> 0 < n \<Longrightarrow> off + n \<le> length mem"
proof -
  assume "strnlen mem off maxlen = Some n" "0 < n"
  then have n: "n = length (takeWhile (\<lambda>b. b \<noteq> 0) (take maxlen (drop off mem)))"
    by (auto simp: strnlen_def Let_def split: if_splits)
  also have "\<dots> \<le> length (take maxlen (drop off mem))" by (rule length_takeWhile_le)
  finally have "n \<le> length mem - off" by simp
  with \<open>0 < n\<close> show ?thesis by arith
qed

text \<open>On a NUL-terminated name the scan stops at the terminator.\<close>

lemma strnlen_name:
  assumes "0 \<notin> set name" "off = length pre" "length name < maxlen"
  shows "strnlen (pre @ name @ 0 # post) off maxlen = Some (length name)"
proof -
  from assms(1) have "\<forall>b \<in> set name. b \<noteq> 0" by metis
  then have "takeWhile (\<lambda>b. b \<noteq> 0) (take maxlen (name @ 0 # post)) = name"
    using assms(3) by (simp add: take_Cons' takeWhile_tail)
  then show ?thesis using assms(2,3) by (simp add: strnlen_def Let_def)
qed

text \<open>Without a terminator in the window the scan returns the whole window.\<close>

lemma strnlen_unterminated:
  assumes "off + maxlen \<le> length mem" "0 \<notin> set (take maxlen (drop off mem))"
  shows "strnlen mem off maxlen = Some maxlen"
proof -
  have all: "takeWhile (\<lambda>b. b \<noteq> 0) (take maxlen (drop off mem)) = take maxlen (drop off mem)"
    using assms(2) by (intro takeWhile_eq_all_conv [THEN iffD2]) metis
  show ?thesis using assms(1) unfolding strnlen_def Let_def all by simp
qed

subsection \<open>Wire structures\<close>

text \<open>
  The contract between an encoder and a decoder of one structure of the ABI. Every
  structure the handlers or the ring worker read or write is an interpretation of this
  locale (theory \<open>Fuse_Abi\<close>).
\<close>

locale wire_struct =
  fixes size_of :: nat
    and put :: "'a \<Rightarrow> byte list"
    and get :: "'a getter"
  assumes length_put_eq: "length (put x) = size_of"
    and get_put_app: "get (put x @ rest) = Some (x, rest)"
    and get_consumes: "consumes size_of get"
begin

lemma get_put: "get (put x) = Some (x, [])"
  using get_put_app [of x "[]"] by simp

lemma get_None_iff: "get bs = None \<longleftrightarrow> length bs < size_of"
proof (cases "length bs < size_of")
  case True
  with get_consumes show ?thesis by (simp add: consumes_def)
next
  case False
  with get_consumes have "\<exists>x. get bs = Some (x, drop size_of bs)"
    unfolding consumes_def by (meson not_less)
  with False show ?thesis by auto
qed

lemma load_in_bounds: "off + size_of \<le> length mem \<Longrightarrow> \<exists>x. load get mem off = Some x"
  by (rule consumes_load [OF get_consumes])

lemma load_out_of_bounds: "length mem < off + size_of \<Longrightarrow> load get mem off = None"
  by (rule consumes_load [OF get_consumes])

lemma load_put: "off = length pre \<Longrightarrow> load get (pre @ put x @ post) off = Some x"
  by (simp add: load_def get_put_app)

lemma load_put_0: "load get (put x @ post) 0 = Some x"
  by (simp add: load_def get_put_app)

lemma store_load:
  assumes "store mem off (put x) = Some mem'"
  shows "load get mem' off = Some x"
proof -
  from assms have le: "off + length (put x) \<le> length mem"
    and mem': "mem' = take off mem @ put x @ drop (off + length (put x)) mem"
    by (auto simp: store_def split: if_splits)
  show ?thesis unfolding mem' using le by (intro load_put) simp
qed

lemma put_inj: "put x = put y \<longleftrightarrow> x = y"
  by (metis get_put option.inject prod.inject)

end

lemma wire_structI:
  assumes "\<And>x. length (put x) = n" "\<And>x rest. get (put x @ rest) = Some (x, rest)"
    and "consumes m get" "m = n"
  shows "wire_struct n put get"
  using assms by unfold_locales simp_all

end
