(* ===== verification/Fuse_Abi.thy ===== *)
theory Fuse_Abi
  imports Fex_Prelude
begin

text \<open>
  The part of the vendored kernel header \<open>include/fex/fuse_uapi.h\<close> that libfex uses: error
  numbers, protocol constants, the opcode enumeration, and the wire structures with their
  encoders and decoders. Padding, spare and reserved members carry no value in the model:
  an encoder writes zeros for them (the library value-initialises every structure it
  sends) and a decoder skips them. Each structure is an interpretation of \<open>wire_struct\<close>,
  which fixes its size in bytes, that decoding inverts encoding, and that decoding reads
  exactly that many bytes.
\<close>

subsection \<open>Error numbers (Linux)\<close>

definition EPERM :: i32 where "EPERM = 1"
definition ENOENT :: i32 where "ENOENT = 2"
definition EINTR :: i32 where "EINTR = 4"
definition EIO :: i32 where "EIO = 5"
definition EBADF :: i32 where "EBADF = 9"
definition EAGAIN :: i32 where "EAGAIN = 11"
definition ENODEV :: i32 where "ENODEV = 19"
definition EINVAL :: i32 where "EINVAL = 22"
definition ENOSYS :: i32 where "ENOSYS = 38"
definition EOPNOTSUPP :: i32 where "EOPNOTSUPP = 95"
definition ENOTCONN :: i32 where "ENOTCONN = 107"
definition ESTALE :: i32 where "ESTALE = 116"

lemmas errno_defs = EPERM_def ENOENT_def EINTR_def EIO_def EBADF_def EAGAIN_def ENODEV_def
  EINVAL_def ENOSYS_def EOPNOTSUPP_def ENOTCONN_def ESTALE_def

subsection \<open>Protocol constants\<close>

definition FUSE_KERNEL_VERSION :: u32 where "FUSE_KERNEL_VERSION = 7"
definition FUSE_KERNEL_MINOR_VERSION :: u32 where "FUSE_KERNEL_MINOR_VERSION = 46"

definition FUSE_WRITEBACK_CACHE :: u64 where "FUSE_WRITEBACK_CACHE = push_bit 16 1"
definition FUSE_PARALLEL_DIROPS :: u64 where "FUSE_PARALLEL_DIROPS = push_bit 18 1"
definition FUSE_MAX_PAGES :: u64 where "FUSE_MAX_PAGES = push_bit 22 1"
definition FUSE_INIT_EXT :: u64 where "FUSE_INIT_EXT = push_bit 30 1"
definition FUSE_OVER_IO_URING :: u64 where "FUSE_OVER_IO_URING = push_bit 41 1"

definition FUSE_ENTRYX_NEGATIVE :: u32 where "FUSE_ENTRYX_NEGATIVE = 1"
definition FOPEN_CACHE_DIR :: u32 where "FOPEN_CACHE_DIR = push_bit 3 1"
definition FUSE_COMPOUND_NO_DEP :: u8 where "FUSE_COMPOUND_NO_DEP = 255"

definition FUSE_URING_IN_OUT_HEADER_SZ :: nat where "FUSE_URING_IN_OUT_HEADER_SZ = 128"
definition FUSE_URING_OP_IN_OUT_SZ :: nat where "FUSE_URING_OP_IN_OUT_SZ = 128"

definition FUSE_IO_URING_CMD_REGISTER :: u32 where "FUSE_IO_URING_CMD_REGISTER = 1"
definition FUSE_IO_URING_CMD_COMMIT_AND_FETCH :: u32 where "FUSE_IO_URING_CMD_COMMIT_AND_FETCH = 2"

lemmas abi_const_defs = FUSE_KERNEL_VERSION_def FUSE_KERNEL_MINOR_VERSION_def
  FUSE_WRITEBACK_CACHE_def FUSE_PARALLEL_DIROPS_def FUSE_MAX_PAGES_def FUSE_INIT_EXT_def
  FUSE_OVER_IO_URING_def FUSE_ENTRYX_NEGATIVE_def FOPEN_CACHE_DIR_def FUSE_COMPOUND_NO_DEP_def
  FUSE_URING_IN_OUT_HEADER_SZ_def FUSE_URING_OP_IN_OUT_SZ_def
  FUSE_IO_URING_CMD_REGISTER_def FUSE_IO_URING_CMD_COMMIT_AND_FETCH_def

subsection \<open>Opcodes\<close>

datatype fuse_opcode =
    FUSE_LOOKUP | FUSE_FORGET | FUSE_GETATTR | FUSE_SETATTR | FUSE_READLINK | FUSE_SYMLINK
  | FUSE_MKNOD | FUSE_MKDIR | FUSE_UNLINK | FUSE_RMDIR | FUSE_RENAME | FUSE_LINK | FUSE_OPEN
  | FUSE_READ | FUSE_WRITE | FUSE_STATFS | FUSE_RELEASE | FUSE_FSYNC | FUSE_SETXATTR
  | FUSE_GETXATTR | FUSE_LISTXATTR | FUSE_REMOVEXATTR | FUSE_FLUSH | FUSE_INIT | FUSE_OPENDIR
  | FUSE_READDIR | FUSE_RELEASEDIR | FUSE_FSYNCDIR | FUSE_GETLK | FUSE_SETLK | FUSE_SETLKW
  | FUSE_ACCESS | FUSE_CREATE | FUSE_INTERRUPT | FUSE_BMAP | FUSE_DESTROY | FUSE_IOCTL
  | FUSE_POLL | FUSE_NOTIFY_REPLY | FUSE_BATCH_FORGET | FUSE_FALLOCATE | FUSE_READDIRPLUS
  | FUSE_RENAME2 | FUSE_LSEEK | FUSE_COPY_FILE_RANGE | FUSE_SETUPMAPPING | FUSE_REMOVEMAPPING
  | FUSE_SYNCFS | FUSE_TMPFILE | FUSE_STATX | FUSE_COPY_FILE_RANGE_64 | FUSE_LOOKUP_ROOT
  | FUSE_LOOKUPX | FUSE_MKOBJX | FUSE_SETSTATX | FUSE_COMPOUND | CUSE_INIT
  | CUSE_INIT_BSWAP_RESERVED | FUSE_INIT_BSWAP_RESERVED

fun opcode_val :: "fuse_opcode \<Rightarrow> u32" where
  "opcode_val FUSE_LOOKUP = 1"
| "opcode_val FUSE_FORGET = 2"
| "opcode_val FUSE_GETATTR = 3"
| "opcode_val FUSE_SETATTR = 4"
| "opcode_val FUSE_READLINK = 5"
| "opcode_val FUSE_SYMLINK = 6"
| "opcode_val FUSE_MKNOD = 8"
| "opcode_val FUSE_MKDIR = 9"
| "opcode_val FUSE_UNLINK = 10"
| "opcode_val FUSE_RMDIR = 11"
| "opcode_val FUSE_RENAME = 12"
| "opcode_val FUSE_LINK = 13"
| "opcode_val FUSE_OPEN = 14"
| "opcode_val FUSE_READ = 15"
| "opcode_val FUSE_WRITE = 16"
| "opcode_val FUSE_STATFS = 17"
| "opcode_val FUSE_RELEASE = 18"
| "opcode_val FUSE_FSYNC = 20"
| "opcode_val FUSE_SETXATTR = 21"
| "opcode_val FUSE_GETXATTR = 22"
| "opcode_val FUSE_LISTXATTR = 23"
| "opcode_val FUSE_REMOVEXATTR = 24"
| "opcode_val FUSE_FLUSH = 25"
| "opcode_val FUSE_INIT = 26"
| "opcode_val FUSE_OPENDIR = 27"
| "opcode_val FUSE_READDIR = 28"
| "opcode_val FUSE_RELEASEDIR = 29"
| "opcode_val FUSE_FSYNCDIR = 30"
| "opcode_val FUSE_GETLK = 31"
| "opcode_val FUSE_SETLK = 32"
| "opcode_val FUSE_SETLKW = 33"
| "opcode_val FUSE_ACCESS = 34"
| "opcode_val FUSE_CREATE = 35"
| "opcode_val FUSE_INTERRUPT = 36"
| "opcode_val FUSE_BMAP = 37"
| "opcode_val FUSE_DESTROY = 38"
| "opcode_val FUSE_IOCTL = 39"
| "opcode_val FUSE_POLL = 40"
| "opcode_val FUSE_NOTIFY_REPLY = 41"
| "opcode_val FUSE_BATCH_FORGET = 42"
| "opcode_val FUSE_FALLOCATE = 43"
| "opcode_val FUSE_READDIRPLUS = 44"
| "opcode_val FUSE_RENAME2 = 45"
| "opcode_val FUSE_LSEEK = 46"
| "opcode_val FUSE_COPY_FILE_RANGE = 47"
| "opcode_val FUSE_SETUPMAPPING = 48"
| "opcode_val FUSE_REMOVEMAPPING = 49"
| "opcode_val FUSE_SYNCFS = 50"
| "opcode_val FUSE_TMPFILE = 51"
| "opcode_val FUSE_STATX = 52"
| "opcode_val FUSE_COPY_FILE_RANGE_64 = 53"
| "opcode_val FUSE_LOOKUP_ROOT = 54"
| "opcode_val FUSE_LOOKUPX = 55"
| "opcode_val FUSE_MKOBJX = 56"
| "opcode_val FUSE_SETSTATX = 58"
| "opcode_val FUSE_COMPOUND = 60"
| "opcode_val CUSE_INIT = 4096"
| "opcode_val CUSE_INIT_BSWAP_RESERVED = 1048576"
| "opcode_val FUSE_INIT_BSWAP_RESERVED = 436207616"

definition fuse_opcodes :: "fuse_opcode list" where
  "fuse_opcodes =
    [FUSE_LOOKUP, FUSE_FORGET, FUSE_GETATTR, FUSE_SETATTR, FUSE_READLINK, FUSE_SYMLINK,
     FUSE_MKNOD, FUSE_MKDIR, FUSE_UNLINK, FUSE_RMDIR, FUSE_RENAME, FUSE_LINK, FUSE_OPEN,
     FUSE_READ, FUSE_WRITE, FUSE_STATFS, FUSE_RELEASE, FUSE_FSYNC, FUSE_SETXATTR,
     FUSE_GETXATTR, FUSE_LISTXATTR, FUSE_REMOVEXATTR, FUSE_FLUSH, FUSE_INIT, FUSE_OPENDIR,
     FUSE_READDIR, FUSE_RELEASEDIR, FUSE_FSYNCDIR, FUSE_GETLK, FUSE_SETLK, FUSE_SETLKW,
     FUSE_ACCESS, FUSE_CREATE, FUSE_INTERRUPT, FUSE_BMAP, FUSE_DESTROY, FUSE_IOCTL,
     FUSE_POLL, FUSE_NOTIFY_REPLY, FUSE_BATCH_FORGET, FUSE_FALLOCATE, FUSE_READDIRPLUS,
     FUSE_RENAME2, FUSE_LSEEK, FUSE_COPY_FILE_RANGE, FUSE_SETUPMAPPING, FUSE_REMOVEMAPPING,
     FUSE_SYNCFS, FUSE_TMPFILE, FUSE_STATX, FUSE_COPY_FILE_RANGE_64, FUSE_LOOKUP_ROOT,
     FUSE_LOOKUPX, FUSE_MKOBJX, FUSE_SETSTATX, FUSE_COMPOUND, CUSE_INIT,
     CUSE_INIT_BSWAP_RESERVED, FUSE_INIT_BSWAP_RESERVED]"

text \<open>The member of the enumeration a 32-bit opcode of a request header names, if any.\<close>

definition opcode_of :: "u32 \<Rightarrow> fuse_opcode option" where
  "opcode_of w = List.find (\<lambda>op. opcode_val op = w) fuse_opcodes"

lemma opcode_of_val [simp]: "opcode_of (opcode_val op) = Some op"
  by (cases op) (simp_all add: opcode_of_def fuse_opcodes_def)

lemma opcode_of_Some: "opcode_of w = Some op \<longleftrightarrow> w = opcode_val op"
proof
  assume "opcode_of w = Some op"
  then show "w = opcode_val op" by (auto simp: opcode_of_def find_Some_iff)
qed simp

lemma opcode_val_inj [simp]: "opcode_val a = opcode_val b \<longleftrightarrow> a = b"
  by (metis opcode_of_val option.inject)

subsection \<open>Structures\<close>

record fuse_sx_time =
  sxt_tv_sec :: i64
  sxt_tv_nsec :: u32

definition put_fuse_sx_time :: "fuse_sx_time \<Rightarrow> byte list" where
  [wire_defs]: "put_fuse_sx_time x =
     put64 (sxt_tv_sec x) @ put32 (sxt_tv_nsec x) @ zeros 4"

definition get_fuse_sx_time :: "fuse_sx_time getter" where
  [wire_defs]: "get_fuse_sx_time bs = do {
     (tv_sec, bs) \<leftarrow> get64 bs; (tv_nsec, bs) \<leftarrow> get32 bs; bs \<leftarrow> skip 4 bs;
     Some (\<lparr>sxt_tv_sec = tv_sec, sxt_tv_nsec = tv_nsec\<rparr>, bs)}"

interpretation sx_time: wire_struct 16 put_fuse_sx_time get_fuse_sx_time
  by (rule wire_structI, simp add: put_fuse_sx_time_def, simp add: put_fuse_sx_time_def get_fuse_sx_time_def,
      unfold get_fuse_sx_time_def [abs_def], (rule consumes_intros)+, simp)

declare sx_time.length_put_eq [simp] sx_time.get_put_app [simp]
declare sx_time.get_consumes [consumes_intros]

record fuse_statx =
  sx_mask :: u32
  sx_blksize :: u32
  sx_attributes :: u64
  sx_nlink :: u32
  sx_uid :: u32
  sx_gid :: u32
  sx_mode :: u16
  sx_ino :: u64
  sx_size :: u64
  sx_blocks :: u64
  sx_attributes_mask :: u64
  sx_atime :: fuse_sx_time
  sx_btime :: fuse_sx_time
  sx_ctime :: fuse_sx_time
  sx_mtime :: fuse_sx_time
  sx_rdev_major :: u32
  sx_rdev_minor :: u32
  sx_dev_major :: u32
  sx_dev_minor :: u32

definition put_fuse_statx :: "fuse_statx \<Rightarrow> byte list" where
  [wire_defs]: "put_fuse_statx x =
     put32 (sx_mask x) @ put32 (sx_blksize x) @ put64 (sx_attributes x) @ put32 (sx_nlink x) @
     put32 (sx_uid x) @ put32 (sx_gid x) @ put16 (sx_mode x) @ zeros 2 @ put64 (sx_ino x) @
     put64 (sx_size x) @ put64 (sx_blocks x) @ put64 (sx_attributes_mask x) @
     put_fuse_sx_time (sx_atime x) @ put_fuse_sx_time (sx_btime x) @
     put_fuse_sx_time (sx_ctime x) @ put_fuse_sx_time (sx_mtime x) @ put32 (sx_rdev_major x) @
     put32 (sx_rdev_minor x) @ put32 (sx_dev_major x) @ put32 (sx_dev_minor x) @ zeros 112"

definition get_fuse_statx :: "fuse_statx getter" where
  [wire_defs]: "get_fuse_statx bs = do {
     (mask, bs) \<leftarrow> get32 bs; (blksize, bs) \<leftarrow> get32 bs;
     (attributes, bs) \<leftarrow> get64 bs; (nlink, bs) \<leftarrow> get32 bs;
     (uid, bs) \<leftarrow> get32 bs; (gid, bs) \<leftarrow> get32 bs; (mode, bs) \<leftarrow> get16 bs;
     bs \<leftarrow> skip 2 bs; (ino, bs) \<leftarrow> get64 bs; (size, bs) \<leftarrow> get64 bs;
     (blocks, bs) \<leftarrow> get64 bs; (attributes_mask, bs) \<leftarrow> get64 bs;
     (atime, bs) \<leftarrow> get_fuse_sx_time bs; (btime, bs) \<leftarrow> get_fuse_sx_time bs;
     (ctime, bs) \<leftarrow> get_fuse_sx_time bs; (mtime, bs) \<leftarrow> get_fuse_sx_time bs;
     (rdev_major, bs) \<leftarrow> get32 bs; (rdev_minor, bs) \<leftarrow> get32 bs;
     (dev_major, bs) \<leftarrow> get32 bs; (dev_minor, bs) \<leftarrow> get32 bs;
     bs \<leftarrow> skip 112 bs;
     Some (\<lparr>sx_mask = mask, sx_blksize = blksize, sx_attributes = attributes, sx_nlink = nlink,
        sx_uid = uid, sx_gid = gid, sx_mode = mode, sx_ino = ino, sx_size = size,
        sx_blocks = blocks, sx_attributes_mask = attributes_mask, sx_atime = atime,
        sx_btime = btime, sx_ctime = ctime, sx_mtime = mtime, sx_rdev_major = rdev_major,
        sx_rdev_minor = rdev_minor, sx_dev_major = dev_major, sx_dev_minor = dev_minor\<rparr>, bs)}"

interpretation statx: wire_struct 256 put_fuse_statx get_fuse_statx
  by (rule wire_structI, simp add: put_fuse_statx_def, simp add: put_fuse_statx_def get_fuse_statx_def,
      unfold get_fuse_statx_def [abs_def], (rule consumes_intros)+, simp)

declare statx.length_put_eq [simp] statx.get_put_app [simp]
declare statx.get_consumes [consumes_intros]

record fuse_kstatfs =
  ksf_blocks :: u64
  ksf_bfree :: u64
  ksf_bavail :: u64
  ksf_files :: u64
  ksf_ffree :: u64
  ksf_bsize :: u32
  ksf_namelen :: u32
  ksf_frsize :: u32

definition put_fuse_kstatfs :: "fuse_kstatfs \<Rightarrow> byte list" where
  [wire_defs]: "put_fuse_kstatfs x =
     put64 (ksf_blocks x) @ put64 (ksf_bfree x) @ put64 (ksf_bavail x) @ put64 (ksf_files x) @
     put64 (ksf_ffree x) @ put32 (ksf_bsize x) @ put32 (ksf_namelen x) @ put32 (ksf_frsize x) @
     zeros 28"

definition get_fuse_kstatfs :: "fuse_kstatfs getter" where
  [wire_defs]: "get_fuse_kstatfs bs = do {
     (blocks, bs) \<leftarrow> get64 bs; (bfree, bs) \<leftarrow> get64 bs;
     (bavail, bs) \<leftarrow> get64 bs; (files, bs) \<leftarrow> get64 bs;
     (ffree, bs) \<leftarrow> get64 bs; (bsize, bs) \<leftarrow> get32 bs;
     (namelen, bs) \<leftarrow> get32 bs; (frsize, bs) \<leftarrow> get32 bs; bs \<leftarrow> skip 28 bs;
     Some (\<lparr>ksf_blocks = blocks, ksf_bfree = bfree, ksf_bavail = bavail, ksf_files = files,
        ksf_ffree = ffree, ksf_bsize = bsize, ksf_namelen = namelen, ksf_frsize = frsize\<rparr>, bs)}"

interpretation kstatfs: wire_struct 80 put_fuse_kstatfs get_fuse_kstatfs
  by (rule wire_structI, simp add: put_fuse_kstatfs_def, simp add: put_fuse_kstatfs_def get_fuse_kstatfs_def,
      unfold get_fuse_kstatfs_def [abs_def], (rule consumes_intros)+, simp)

declare kstatfs.length_put_eq [simp] kstatfs.get_put_app [simp]
declare kstatfs.get_consumes [consumes_intros]

record fuse_entryx_out =
  ex_nodeid :: u64
  ex_entry_valid :: u64
  ex_entry_valid_nsec :: u32
  ex_flags :: u32

definition put_fuse_entryx_out :: "fuse_entryx_out \<Rightarrow> byte list" where
  [wire_defs]: "put_fuse_entryx_out x =
     put64 (ex_nodeid x) @ put64 (ex_entry_valid x) @ put32 (ex_entry_valid_nsec x) @
     put32 (ex_flags x) @ zeros 8"

definition get_fuse_entryx_out :: "fuse_entryx_out getter" where
  [wire_defs]: "get_fuse_entryx_out bs = do {
     (nodeid, bs) \<leftarrow> get64 bs; (entry_valid, bs) \<leftarrow> get64 bs;
     (entry_valid_nsec, bs) \<leftarrow> get32 bs; (flags, bs) \<leftarrow> get32 bs;
     bs \<leftarrow> skip 8 bs;
     Some (\<lparr>ex_nodeid = nodeid, ex_entry_valid = entry_valid,
        ex_entry_valid_nsec = entry_valid_nsec, ex_flags = flags\<rparr>, bs)}"

interpretation entryx_out: wire_struct 32 put_fuse_entryx_out get_fuse_entryx_out
  by (rule wire_structI, simp add: put_fuse_entryx_out_def, simp add: put_fuse_entryx_out_def get_fuse_entryx_out_def,
      unfold get_fuse_entryx_out_def [abs_def], (rule consumes_intros)+, simp)

declare entryx_out.length_put_eq [simp] entryx_out.get_put_app [simp]
declare entryx_out.get_consumes [consumes_intros]

record fuse_forget_in =
  fgi_nlookup :: u64

definition put_fuse_forget_in :: "fuse_forget_in \<Rightarrow> byte list" where
  [wire_defs]: "put_fuse_forget_in x =
     put64 (fgi_nlookup x)"

definition get_fuse_forget_in :: "fuse_forget_in getter" where
  [wire_defs]: "get_fuse_forget_in bs = do {
     (nlookup, bs) \<leftarrow> get64 bs;
     Some (\<lparr>fgi_nlookup = nlookup\<rparr>, bs)}"

interpretation forget_in: wire_struct 8 put_fuse_forget_in get_fuse_forget_in
  by (rule wire_structI, simp add: put_fuse_forget_in_def, simp add: put_fuse_forget_in_def get_fuse_forget_in_def,
      unfold get_fuse_forget_in_def [abs_def], (rule consumes_intros)+, simp)

declare forget_in.length_put_eq [simp] forget_in.get_put_app [simp]
declare forget_in.get_consumes [consumes_intros]

record fuse_forget_one =
  fgo_nodeid :: u64
  fgo_nlookup :: u64

definition put_fuse_forget_one :: "fuse_forget_one \<Rightarrow> byte list" where
  [wire_defs]: "put_fuse_forget_one x =
     put64 (fgo_nodeid x) @ put64 (fgo_nlookup x)"

definition get_fuse_forget_one :: "fuse_forget_one getter" where
  [wire_defs]: "get_fuse_forget_one bs = do {
     (nodeid, bs) \<leftarrow> get64 bs; (nlookup, bs) \<leftarrow> get64 bs;
     Some (\<lparr>fgo_nodeid = nodeid, fgo_nlookup = nlookup\<rparr>, bs)}"

interpretation forget_one: wire_struct 16 put_fuse_forget_one get_fuse_forget_one
  by (rule wire_structI, simp add: put_fuse_forget_one_def, simp add: put_fuse_forget_one_def get_fuse_forget_one_def,
      unfold get_fuse_forget_one_def [abs_def], (rule consumes_intros)+, simp)

declare forget_one.length_put_eq [simp] forget_one.get_put_app [simp]
declare forget_one.get_consumes [consumes_intros]

record fuse_batch_forget_in =
  bfi_count :: u32

definition put_fuse_batch_forget_in :: "fuse_batch_forget_in \<Rightarrow> byte list" where
  [wire_defs]: "put_fuse_batch_forget_in x =
     put32 (bfi_count x) @ zeros 4"

definition get_fuse_batch_forget_in :: "fuse_batch_forget_in getter" where
  [wire_defs]: "get_fuse_batch_forget_in bs = do {
     (count, bs) \<leftarrow> get32 bs; bs \<leftarrow> skip 4 bs;
     Some (\<lparr>bfi_count = count\<rparr>, bs)}"

interpretation batch_forget_in: wire_struct 8 put_fuse_batch_forget_in get_fuse_batch_forget_in
  by (rule wire_structI, simp add: put_fuse_batch_forget_in_def, simp add: put_fuse_batch_forget_in_def get_fuse_batch_forget_in_def,
      unfold get_fuse_batch_forget_in_def [abs_def], (rule consumes_intros)+, simp)

declare batch_forget_in.length_put_eq [simp] batch_forget_in.get_put_app [simp]
declare batch_forget_in.get_consumes [consumes_intros]

record fuse_statx_in =
  sxi_getattr_flags :: u32
  sxi_fh :: u64
  sxi_sx_flags :: u32
  sxi_sx_mask :: u32

definition put_fuse_statx_in :: "fuse_statx_in \<Rightarrow> byte list" where
  [wire_defs]: "put_fuse_statx_in x =
     put32 (sxi_getattr_flags x) @ zeros 4 @ put64 (sxi_fh x) @ put32 (sxi_sx_flags x) @
     put32 (sxi_sx_mask x)"

definition get_fuse_statx_in :: "fuse_statx_in getter" where
  [wire_defs]: "get_fuse_statx_in bs = do {
     (getattr_flags, bs) \<leftarrow> get32 bs; bs \<leftarrow> skip 4 bs; (fh, bs) \<leftarrow> get64 bs;
     (sx_flags, bs) \<leftarrow> get32 bs; (sx_mask, bs) \<leftarrow> get32 bs;
     Some (\<lparr>sxi_getattr_flags = getattr_flags, sxi_fh = fh, sxi_sx_flags = sx_flags,
        sxi_sx_mask = sx_mask\<rparr>, bs)}"

interpretation statx_in: wire_struct 24 put_fuse_statx_in get_fuse_statx_in
  by (rule wire_structI, simp add: put_fuse_statx_in_def, simp add: put_fuse_statx_in_def get_fuse_statx_in_def,
      unfold get_fuse_statx_in_def [abs_def], (rule consumes_intros)+, simp)

declare statx_in.length_put_eq [simp] statx_in.get_put_app [simp]
declare statx_in.get_consumes [consumes_intros]

record fuse_statx_out =
  sxo_attr_valid :: u64
  sxo_attr_valid_nsec :: u32
  sxo_flags :: u32
  sxo_stat :: fuse_statx

definition put_fuse_statx_out :: "fuse_statx_out \<Rightarrow> byte list" where
  [wire_defs]: "put_fuse_statx_out x =
     put64 (sxo_attr_valid x) @ put32 (sxo_attr_valid_nsec x) @ put32 (sxo_flags x) @
     zeros 16 @ put_fuse_statx (sxo_stat x)"

definition get_fuse_statx_out :: "fuse_statx_out getter" where
  [wire_defs]: "get_fuse_statx_out bs = do {
     (attr_valid, bs) \<leftarrow> get64 bs; (attr_valid_nsec, bs) \<leftarrow> get32 bs;
     (flags, bs) \<leftarrow> get32 bs; bs \<leftarrow> skip 16 bs;
     (stat, bs) \<leftarrow> get_fuse_statx bs;
     Some (\<lparr>sxo_attr_valid = attr_valid, sxo_attr_valid_nsec = attr_valid_nsec, sxo_flags = flags,
        sxo_stat = stat\<rparr>, bs)}"

interpretation statx_out: wire_struct 288 put_fuse_statx_out get_fuse_statx_out
  by (rule wire_structI, simp add: put_fuse_statx_out_def, simp add: put_fuse_statx_out_def get_fuse_statx_out_def,
      unfold get_fuse_statx_out_def [abs_def], (rule consumes_intros)+, simp)

declare statx_out.length_put_eq [simp] statx_out.get_put_app [simp]
declare statx_out.get_consumes [consumes_intros]

record fuse_mkobjx_in =
  mki_namesize :: u32
  mki_flags :: u32
  mki_stat :: fuse_statx

definition put_fuse_mkobjx_in :: "fuse_mkobjx_in \<Rightarrow> byte list" where
  [wire_defs]: "put_fuse_mkobjx_in x =
     put32 (mki_namesize x) @ put32 (mki_flags x) @ zeros 56 @ put_fuse_statx (mki_stat x)"

definition get_fuse_mkobjx_in :: "fuse_mkobjx_in getter" where
  [wire_defs]: "get_fuse_mkobjx_in bs = do {
     (namesize, bs) \<leftarrow> get32 bs; (flags, bs) \<leftarrow> get32 bs; bs \<leftarrow> skip 56 bs;
     (stat, bs) \<leftarrow> get_fuse_statx bs;
     Some (\<lparr>mki_namesize = namesize, mki_flags = flags, mki_stat = stat\<rparr>, bs)}"

interpretation mkobjx_in: wire_struct 320 put_fuse_mkobjx_in get_fuse_mkobjx_in
  by (rule wire_structI, simp add: put_fuse_mkobjx_in_def, simp add: put_fuse_mkobjx_in_def get_fuse_mkobjx_in_def,
      unfold get_fuse_mkobjx_in_def [abs_def], (rule consumes_intros)+, simp)

declare mkobjx_in.length_put_eq [simp] mkobjx_in.get_put_app [simp]
declare mkobjx_in.get_consumes [consumes_intros]

record fuse_rename2_in =
  rni_newdir :: u64
  rni_flags :: u32

definition put_fuse_rename2_in :: "fuse_rename2_in \<Rightarrow> byte list" where
  [wire_defs]: "put_fuse_rename2_in x =
     put64 (rni_newdir x) @ put32 (rni_flags x) @ zeros 4"

definition get_fuse_rename2_in :: "fuse_rename2_in getter" where
  [wire_defs]: "get_fuse_rename2_in bs = do {
     (newdir, bs) \<leftarrow> get64 bs; (flags, bs) \<leftarrow> get32 bs; bs \<leftarrow> skip 4 bs;
     Some (\<lparr>rni_newdir = newdir, rni_flags = flags\<rparr>, bs)}"

interpretation rename2_in: wire_struct 16 put_fuse_rename2_in get_fuse_rename2_in
  by (rule wire_structI, simp add: put_fuse_rename2_in_def, simp add: put_fuse_rename2_in_def get_fuse_rename2_in_def,
      unfold get_fuse_rename2_in_def [abs_def], (rule consumes_intros)+, simp)

declare rename2_in.length_put_eq [simp] rename2_in.get_put_app [simp]
declare rename2_in.get_consumes [consumes_intros]

record fuse_link_in =
  lni_oldnodeid :: u64

definition put_fuse_link_in :: "fuse_link_in \<Rightarrow> byte list" where
  [wire_defs]: "put_fuse_link_in x =
     put64 (lni_oldnodeid x)"

definition get_fuse_link_in :: "fuse_link_in getter" where
  [wire_defs]: "get_fuse_link_in bs = do {
     (oldnodeid, bs) \<leftarrow> get64 bs;
     Some (\<lparr>lni_oldnodeid = oldnodeid\<rparr>, bs)}"

interpretation link_in: wire_struct 8 put_fuse_link_in get_fuse_link_in
  by (rule wire_structI, simp add: put_fuse_link_in_def, simp add: put_fuse_link_in_def get_fuse_link_in_def,
      unfold get_fuse_link_in_def [abs_def], (rule consumes_intros)+, simp)

declare link_in.length_put_eq [simp] link_in.get_put_app [simp]
declare link_in.get_consumes [consumes_intros]

record fuse_setstatx_in =
  ssi_fh :: u64
  ssi_flags :: u32
  ssi_stat :: fuse_statx

definition put_fuse_setstatx_in :: "fuse_setstatx_in \<Rightarrow> byte list" where
  [wire_defs]: "put_fuse_setstatx_in x =
     put64 (ssi_fh x) @ put32 (ssi_flags x) @ zeros 4 @ put_fuse_statx (ssi_stat x)"

definition get_fuse_setstatx_in :: "fuse_setstatx_in getter" where
  [wire_defs]: "get_fuse_setstatx_in bs = do {
     (fh, bs) \<leftarrow> get64 bs; (flags, bs) \<leftarrow> get32 bs; bs \<leftarrow> skip 4 bs;
     (stat, bs) \<leftarrow> get_fuse_statx bs;
     Some (\<lparr>ssi_fh = fh, ssi_flags = flags, ssi_stat = stat\<rparr>, bs)}"

interpretation setstatx_in: wire_struct 272 put_fuse_setstatx_in get_fuse_setstatx_in
  by (rule wire_structI, simp add: put_fuse_setstatx_in_def, simp add: put_fuse_setstatx_in_def get_fuse_setstatx_in_def,
      unfold get_fuse_setstatx_in_def [abs_def], (rule consumes_intros)+, simp)

declare setstatx_in.length_put_eq [simp] setstatx_in.get_put_app [simp]
declare setstatx_in.get_consumes [consumes_intros]

record fuse_open_in =
  opi_flags :: u32
  opi_open_flags :: u32

definition put_fuse_open_in :: "fuse_open_in \<Rightarrow> byte list" where
  [wire_defs]: "put_fuse_open_in x =
     put32 (opi_flags x) @ put32 (opi_open_flags x)"

definition get_fuse_open_in :: "fuse_open_in getter" where
  [wire_defs]: "get_fuse_open_in bs = do {
     (flags, bs) \<leftarrow> get32 bs; (open_flags, bs) \<leftarrow> get32 bs;
     Some (\<lparr>opi_flags = flags, opi_open_flags = open_flags\<rparr>, bs)}"

interpretation open_in: wire_struct 8 put_fuse_open_in get_fuse_open_in
  by (rule wire_structI, simp add: put_fuse_open_in_def, simp add: put_fuse_open_in_def get_fuse_open_in_def,
      unfold get_fuse_open_in_def [abs_def], (rule consumes_intros)+, simp)

declare open_in.length_put_eq [simp] open_in.get_put_app [simp]
declare open_in.get_consumes [consumes_intros]

record fuse_open_out =
  opo_fh :: u64
  opo_open_flags :: u32
  opo_backing_id :: i32

definition put_fuse_open_out :: "fuse_open_out \<Rightarrow> byte list" where
  [wire_defs]: "put_fuse_open_out x =
     put64 (opo_fh x) @ put32 (opo_open_flags x) @ put32 (opo_backing_id x)"

definition get_fuse_open_out :: "fuse_open_out getter" where
  [wire_defs]: "get_fuse_open_out bs = do {
     (fh, bs) \<leftarrow> get64 bs; (open_flags, bs) \<leftarrow> get32 bs;
     (backing_id, bs) \<leftarrow> get32 bs;
     Some (\<lparr>opo_fh = fh, opo_open_flags = open_flags, opo_backing_id = backing_id\<rparr>, bs)}"

interpretation open_out: wire_struct 16 put_fuse_open_out get_fuse_open_out
  by (rule wire_structI, simp add: put_fuse_open_out_def, simp add: put_fuse_open_out_def get_fuse_open_out_def,
      unfold get_fuse_open_out_def [abs_def], (rule consumes_intros)+, simp)

declare open_out.length_put_eq [simp] open_out.get_put_app [simp]
declare open_out.get_consumes [consumes_intros]

record fuse_release_in =
  rli_fh :: u64
  rli_flags :: u32
  rli_release_flags :: u32
  rli_lock_owner :: u64

definition put_fuse_release_in :: "fuse_release_in \<Rightarrow> byte list" where
  [wire_defs]: "put_fuse_release_in x =
     put64 (rli_fh x) @ put32 (rli_flags x) @ put32 (rli_release_flags x) @
     put64 (rli_lock_owner x)"

definition get_fuse_release_in :: "fuse_release_in getter" where
  [wire_defs]: "get_fuse_release_in bs = do {
     (fh, bs) \<leftarrow> get64 bs; (flags, bs) \<leftarrow> get32 bs;
     (release_flags, bs) \<leftarrow> get32 bs; (lock_owner, bs) \<leftarrow> get64 bs;
     Some (\<lparr>rli_fh = fh, rli_flags = flags, rli_release_flags = release_flags,
        rli_lock_owner = lock_owner\<rparr>, bs)}"

interpretation release_in: wire_struct 24 put_fuse_release_in get_fuse_release_in
  by (rule wire_structI, simp add: put_fuse_release_in_def, simp add: put_fuse_release_in_def get_fuse_release_in_def,
      unfold get_fuse_release_in_def [abs_def], (rule consumes_intros)+, simp)

declare release_in.length_put_eq [simp] release_in.get_put_app [simp]
declare release_in.get_consumes [consumes_intros]

record fuse_read_in =
  rdi_fh :: u64
  rdi_offset :: u64
  rdi_size :: u32
  rdi_read_flags :: u32
  rdi_lock_owner :: u64
  rdi_flags :: u32

definition put_fuse_read_in :: "fuse_read_in \<Rightarrow> byte list" where
  [wire_defs]: "put_fuse_read_in x =
     put64 (rdi_fh x) @ put64 (rdi_offset x) @ put32 (rdi_size x) @ put32 (rdi_read_flags x) @
     put64 (rdi_lock_owner x) @ put32 (rdi_flags x) @ zeros 4"

definition get_fuse_read_in :: "fuse_read_in getter" where
  [wire_defs]: "get_fuse_read_in bs = do {
     (fh, bs) \<leftarrow> get64 bs; (offset, bs) \<leftarrow> get64 bs; (size, bs) \<leftarrow> get32 bs;
     (read_flags, bs) \<leftarrow> get32 bs; (lock_owner, bs) \<leftarrow> get64 bs;
     (flags, bs) \<leftarrow> get32 bs; bs \<leftarrow> skip 4 bs;
     Some (\<lparr>rdi_fh = fh, rdi_offset = offset, rdi_size = size, rdi_read_flags = read_flags,
        rdi_lock_owner = lock_owner, rdi_flags = flags\<rparr>, bs)}"

interpretation read_in: wire_struct 40 put_fuse_read_in get_fuse_read_in
  by (rule wire_structI, simp add: put_fuse_read_in_def, simp add: put_fuse_read_in_def get_fuse_read_in_def,
      unfold get_fuse_read_in_def [abs_def], (rule consumes_intros)+, simp)

declare read_in.length_put_eq [simp] read_in.get_put_app [simp]
declare read_in.get_consumes [consumes_intros]

record fuse_write_in =
  wri_fh :: u64
  wri_offset :: u64
  wri_size :: u32
  wri_write_flags :: u32
  wri_lock_owner :: u64
  wri_flags :: u32

definition put_fuse_write_in :: "fuse_write_in \<Rightarrow> byte list" where
  [wire_defs]: "put_fuse_write_in x =
     put64 (wri_fh x) @ put64 (wri_offset x) @ put32 (wri_size x) @ put32 (wri_write_flags x) @
     put64 (wri_lock_owner x) @ put32 (wri_flags x) @ zeros 4"

definition get_fuse_write_in :: "fuse_write_in getter" where
  [wire_defs]: "get_fuse_write_in bs = do {
     (fh, bs) \<leftarrow> get64 bs; (offset, bs) \<leftarrow> get64 bs; (size, bs) \<leftarrow> get32 bs;
     (write_flags, bs) \<leftarrow> get32 bs; (lock_owner, bs) \<leftarrow> get64 bs;
     (flags, bs) \<leftarrow> get32 bs; bs \<leftarrow> skip 4 bs;
     Some (\<lparr>wri_fh = fh, wri_offset = offset, wri_size = size, wri_write_flags = write_flags,
        wri_lock_owner = lock_owner, wri_flags = flags\<rparr>, bs)}"

interpretation write_in: wire_struct 40 put_fuse_write_in get_fuse_write_in
  by (rule wire_structI, simp add: put_fuse_write_in_def, simp add: put_fuse_write_in_def get_fuse_write_in_def,
      unfold get_fuse_write_in_def [abs_def], (rule consumes_intros)+, simp)

declare write_in.length_put_eq [simp] write_in.get_put_app [simp]
declare write_in.get_consumes [consumes_intros]

record fuse_write_out =
  wro_size :: u32

definition put_fuse_write_out :: "fuse_write_out \<Rightarrow> byte list" where
  [wire_defs]: "put_fuse_write_out x =
     put32 (wro_size x) @ zeros 4"

definition get_fuse_write_out :: "fuse_write_out getter" where
  [wire_defs]: "get_fuse_write_out bs = do {
     (size, bs) \<leftarrow> get32 bs; bs \<leftarrow> skip 4 bs;
     Some (\<lparr>wro_size = size\<rparr>, bs)}"

interpretation write_out: wire_struct 8 put_fuse_write_out get_fuse_write_out
  by (rule wire_structI, simp add: put_fuse_write_out_def, simp add: put_fuse_write_out_def get_fuse_write_out_def,
      unfold get_fuse_write_out_def [abs_def], (rule consumes_intros)+, simp)

declare write_out.length_put_eq [simp] write_out.get_put_app [simp]
declare write_out.get_consumes [consumes_intros]

record fuse_setxattr_in =
  sai_size :: u32
  sai_flags :: u32
  sai_setxattr_flags :: u32

definition put_fuse_setxattr_in :: "fuse_setxattr_in \<Rightarrow> byte list" where
  [wire_defs]: "put_fuse_setxattr_in x =
     put32 (sai_size x) @ put32 (sai_flags x) @ put32 (sai_setxattr_flags x) @ zeros 4"

definition get_fuse_setxattr_in :: "fuse_setxattr_in getter" where
  [wire_defs]: "get_fuse_setxattr_in bs = do {
     (size, bs) \<leftarrow> get32 bs; (flags, bs) \<leftarrow> get32 bs;
     (setxattr_flags, bs) \<leftarrow> get32 bs; bs \<leftarrow> skip 4 bs;
     Some (\<lparr>sai_size = size, sai_flags = flags, sai_setxattr_flags = setxattr_flags\<rparr>, bs)}"

interpretation setxattr_in: wire_struct 16 put_fuse_setxattr_in get_fuse_setxattr_in
  by (rule wire_structI, simp add: put_fuse_setxattr_in_def, simp add: put_fuse_setxattr_in_def get_fuse_setxattr_in_def,
      unfold get_fuse_setxattr_in_def [abs_def], (rule consumes_intros)+, simp)

declare setxattr_in.length_put_eq [simp] setxattr_in.get_put_app [simp]
declare setxattr_in.get_consumes [consumes_intros]

record fuse_getxattr_in =
  gai_size :: u32

definition put_fuse_getxattr_in :: "fuse_getxattr_in \<Rightarrow> byte list" where
  [wire_defs]: "put_fuse_getxattr_in x =
     put32 (gai_size x) @ zeros 4"

definition get_fuse_getxattr_in :: "fuse_getxattr_in getter" where
  [wire_defs]: "get_fuse_getxattr_in bs = do {
     (size, bs) \<leftarrow> get32 bs; bs \<leftarrow> skip 4 bs;
     Some (\<lparr>gai_size = size\<rparr>, bs)}"

interpretation getxattr_in: wire_struct 8 put_fuse_getxattr_in get_fuse_getxattr_in
  by (rule wire_structI, simp add: put_fuse_getxattr_in_def, simp add: put_fuse_getxattr_in_def get_fuse_getxattr_in_def,
      unfold get_fuse_getxattr_in_def [abs_def], (rule consumes_intros)+, simp)

declare getxattr_in.length_put_eq [simp] getxattr_in.get_put_app [simp]
declare getxattr_in.get_consumes [consumes_intros]

record fuse_getxattr_out =
  gao_size :: u32

definition put_fuse_getxattr_out :: "fuse_getxattr_out \<Rightarrow> byte list" where
  [wire_defs]: "put_fuse_getxattr_out x =
     put32 (gao_size x) @ zeros 4"

definition get_fuse_getxattr_out :: "fuse_getxattr_out getter" where
  [wire_defs]: "get_fuse_getxattr_out bs = do {
     (size, bs) \<leftarrow> get32 bs; bs \<leftarrow> skip 4 bs;
     Some (\<lparr>gao_size = size\<rparr>, bs)}"

interpretation getxattr_out: wire_struct 8 put_fuse_getxattr_out get_fuse_getxattr_out
  by (rule wire_structI, simp add: put_fuse_getxattr_out_def, simp add: put_fuse_getxattr_out_def get_fuse_getxattr_out_def,
      unfold get_fuse_getxattr_out_def [abs_def], (rule consumes_intros)+, simp)

declare getxattr_out.length_put_eq [simp] getxattr_out.get_put_app [simp]
declare getxattr_out.get_consumes [consumes_intros]

record fuse_init_in =
  ini_major :: u32
  ini_minor :: u32
  ini_max_readahead :: u32
  ini_flags :: u32
  ini_flags2 :: u32

definition put_fuse_init_in :: "fuse_init_in \<Rightarrow> byte list" where
  [wire_defs]: "put_fuse_init_in x =
     put32 (ini_major x) @ put32 (ini_minor x) @ put32 (ini_max_readahead x) @
     put32 (ini_flags x) @ put32 (ini_flags2 x) @ zeros 44"

definition get_fuse_init_in :: "fuse_init_in getter" where
  [wire_defs]: "get_fuse_init_in bs = do {
     (major, bs) \<leftarrow> get32 bs; (minor, bs) \<leftarrow> get32 bs;
     (max_readahead, bs) \<leftarrow> get32 bs; (flags, bs) \<leftarrow> get32 bs;
     (flags2, bs) \<leftarrow> get32 bs; bs \<leftarrow> skip 44 bs;
     Some (\<lparr>ini_major = major, ini_minor = minor, ini_max_readahead = max_readahead,
        ini_flags = flags, ini_flags2 = flags2\<rparr>, bs)}"

interpretation init_in: wire_struct 64 put_fuse_init_in get_fuse_init_in
  by (rule wire_structI, simp add: put_fuse_init_in_def, simp add: put_fuse_init_in_def get_fuse_init_in_def,
      unfold get_fuse_init_in_def [abs_def], (rule consumes_intros)+, simp)

declare init_in.length_put_eq [simp] init_in.get_put_app [simp]
declare init_in.get_consumes [consumes_intros]

record fuse_init_out =
  ino_major :: u32
  ino_minor :: u32
  ino_max_readahead :: u32
  ino_flags :: u32
  ino_max_background :: u16
  ino_congestion_threshold :: u16
  ino_max_write :: u32
  ino_time_gran :: u32
  ino_max_pages :: u16
  ino_map_alignment :: u16
  ino_flags2 :: u32
  ino_max_stack_depth :: u32
  ino_request_timeout :: u16

definition put_fuse_init_out :: "fuse_init_out \<Rightarrow> byte list" where
  [wire_defs]: "put_fuse_init_out x =
     put32 (ino_major x) @ put32 (ino_minor x) @ put32 (ino_max_readahead x) @
     put32 (ino_flags x) @ put16 (ino_max_background x) @ put16 (ino_congestion_threshold x) @
     put32 (ino_max_write x) @ put32 (ino_time_gran x) @ put16 (ino_max_pages x) @
     put16 (ino_map_alignment x) @ put32 (ino_flags2 x) @ put32 (ino_max_stack_depth x) @
     put16 (ino_request_timeout x) @ zeros 22"

definition get_fuse_init_out :: "fuse_init_out getter" where
  [wire_defs]: "get_fuse_init_out bs = do {
     (major, bs) \<leftarrow> get32 bs; (minor, bs) \<leftarrow> get32 bs;
     (max_readahead, bs) \<leftarrow> get32 bs; (flags, bs) \<leftarrow> get32 bs;
     (max_background, bs) \<leftarrow> get16 bs; (congestion_threshold, bs) \<leftarrow> get16 bs;
     (max_write, bs) \<leftarrow> get32 bs; (time_gran, bs) \<leftarrow> get32 bs;
     (max_pages, bs) \<leftarrow> get16 bs; (map_alignment, bs) \<leftarrow> get16 bs;
     (flags2, bs) \<leftarrow> get32 bs; (max_stack_depth, bs) \<leftarrow> get32 bs;
     (request_timeout, bs) \<leftarrow> get16 bs; bs \<leftarrow> skip 22 bs;
     Some (\<lparr>ino_major = major, ino_minor = minor, ino_max_readahead = max_readahead,
        ino_flags = flags, ino_max_background = max_background,
        ino_congestion_threshold = congestion_threshold, ino_max_write = max_write,
        ino_time_gran = time_gran, ino_max_pages = max_pages,
        ino_map_alignment = map_alignment, ino_flags2 = flags2,
        ino_max_stack_depth = max_stack_depth, ino_request_timeout = request_timeout\<rparr>, bs)}"

interpretation init_out: wire_struct 64 put_fuse_init_out get_fuse_init_out
  by (rule wire_structI, simp add: put_fuse_init_out_def, simp add: put_fuse_init_out_def get_fuse_init_out_def,
      unfold get_fuse_init_out_def [abs_def], (rule consumes_intros)+, simp)

declare init_out.length_put_eq [simp] init_out.get_put_app [simp]
declare init_out.get_consumes [consumes_intros]

record fuse_fallocate_in =
  fai_fh :: u64
  fai_offset :: u64
  fai_length :: u64
  fai_mode :: u32

definition put_fuse_fallocate_in :: "fuse_fallocate_in \<Rightarrow> byte list" where
  [wire_defs]: "put_fuse_fallocate_in x =
     put64 (fai_fh x) @ put64 (fai_offset x) @ put64 (fai_length x) @ put32 (fai_mode x) @
     zeros 4"

definition get_fuse_fallocate_in :: "fuse_fallocate_in getter" where
  [wire_defs]: "get_fuse_fallocate_in bs = do {
     (fh, bs) \<leftarrow> get64 bs; (offset, bs) \<leftarrow> get64 bs; (length, bs) \<leftarrow> get64 bs;
     (mode, bs) \<leftarrow> get32 bs; bs \<leftarrow> skip 4 bs;
     Some (\<lparr>fai_fh = fh, fai_offset = offset, fai_length = length, fai_mode = mode\<rparr>, bs)}"

interpretation fallocate_in: wire_struct 32 put_fuse_fallocate_in get_fuse_fallocate_in
  by (rule wire_structI, simp add: put_fuse_fallocate_in_def, simp add: put_fuse_fallocate_in_def get_fuse_fallocate_in_def,
      unfold get_fuse_fallocate_in_def [abs_def], (rule consumes_intros)+, simp)

declare fallocate_in.length_put_eq [simp] fallocate_in.get_put_app [simp]
declare fallocate_in.get_consumes [consumes_intros]

record fuse_in_header =
  ih_len :: u32
  ih_opcode :: u32
  ih_unique :: u64
  ih_nodeid :: u64
  ih_uid :: u32
  ih_gid :: u32
  ih_pid :: u32
  ih_total_extlen :: u16

definition put_fuse_in_header :: "fuse_in_header \<Rightarrow> byte list" where
  [wire_defs]: "put_fuse_in_header x =
     put32 (ih_len x) @ put32 (ih_opcode x) @ put64 (ih_unique x) @ put64 (ih_nodeid x) @
     put32 (ih_uid x) @ put32 (ih_gid x) @ put32 (ih_pid x) @ put16 (ih_total_extlen x) @
     zeros 2"

definition get_fuse_in_header :: "fuse_in_header getter" where
  [wire_defs]: "get_fuse_in_header bs = do {
     (len, bs) \<leftarrow> get32 bs; (opcode, bs) \<leftarrow> get32 bs; (unique, bs) \<leftarrow> get64 bs;
     (nodeid, bs) \<leftarrow> get64 bs; (uid, bs) \<leftarrow> get32 bs; (gid, bs) \<leftarrow> get32 bs;
     (pid, bs) \<leftarrow> get32 bs; (total_extlen, bs) \<leftarrow> get16 bs; bs \<leftarrow> skip 2 bs;
     Some (\<lparr>ih_len = len, ih_opcode = opcode, ih_unique = unique, ih_nodeid = nodeid, ih_uid = uid,
        ih_gid = gid, ih_pid = pid, ih_total_extlen = total_extlen\<rparr>, bs)}"

interpretation in_header: wire_struct 40 put_fuse_in_header get_fuse_in_header
  by (rule wire_structI, simp add: put_fuse_in_header_def, simp add: put_fuse_in_header_def get_fuse_in_header_def,
      unfold get_fuse_in_header_def [abs_def], (rule consumes_intros)+, simp)

declare in_header.length_put_eq [simp] in_header.get_put_app [simp]
declare in_header.get_consumes [consumes_intros]

record fuse_out_header =
  oh_len :: u32
  oh_error :: i32
  oh_unique :: u64

definition put_fuse_out_header :: "fuse_out_header \<Rightarrow> byte list" where
  [wire_defs]: "put_fuse_out_header x =
     put32 (oh_len x) @ put32 (oh_error x) @ put64 (oh_unique x)"

definition get_fuse_out_header :: "fuse_out_header getter" where
  [wire_defs]: "get_fuse_out_header bs = do {
     (len, bs) \<leftarrow> get32 bs; (error, bs) \<leftarrow> get32 bs; (unique, bs) \<leftarrow> get64 bs;
     Some (\<lparr>oh_len = len, oh_error = error, oh_unique = unique\<rparr>, bs)}"

interpretation out_header: wire_struct 16 put_fuse_out_header get_fuse_out_header
  by (rule wire_structI, simp add: put_fuse_out_header_def, simp add: put_fuse_out_header_def get_fuse_out_header_def,
      unfold get_fuse_out_header_def [abs_def], (rule consumes_intros)+, simp)

declare out_header.length_put_eq [simp] out_header.get_put_app [simp]
declare out_header.get_consumes [consumes_intros]

record fuse_dirent =
  de_ino :: u64
  de_off :: u64
  de_namelen :: u32
  de_type :: u32

definition put_fuse_dirent :: "fuse_dirent \<Rightarrow> byte list" where
  [wire_defs]: "put_fuse_dirent x =
     put64 (de_ino x) @ put64 (de_off x) @ put32 (de_namelen x) @ put32 (de_type x)"

definition get_fuse_dirent :: "fuse_dirent getter" where
  [wire_defs]: "get_fuse_dirent bs = do {
     (ino, bs) \<leftarrow> get64 bs; (off, bs) \<leftarrow> get64 bs; (namelen, bs) \<leftarrow> get32 bs;
     (type, bs) \<leftarrow> get32 bs;
     Some (\<lparr>de_ino = ino, de_off = off, de_namelen = namelen, de_type = type\<rparr>, bs)}"

interpretation dirent: wire_struct 24 put_fuse_dirent get_fuse_dirent
  by (rule wire_structI, simp add: put_fuse_dirent_def, simp add: put_fuse_dirent_def get_fuse_dirent_def,
      unfold get_fuse_dirent_def [abs_def], (rule consumes_intros)+, simp)

declare dirent.length_put_eq [simp] dirent.get_put_app [simp]
declare dirent.get_consumes [consumes_intros]

record fuse_compound_req_in =
  cri_dep_index :: u8

definition put_fuse_compound_req_in :: "fuse_compound_req_in \<Rightarrow> byte list" where
  [wire_defs]: "put_fuse_compound_req_in x =
     put8 (cri_dep_index x) @ zeros 3"

definition get_fuse_compound_req_in :: "fuse_compound_req_in getter" where
  [wire_defs]: "get_fuse_compound_req_in bs = do {
     (dep_index, bs) \<leftarrow> get8 bs; bs \<leftarrow> skip 3 bs;
     Some (\<lparr>cri_dep_index = dep_index\<rparr>, bs)}"

interpretation compound_req_in: wire_struct 4 put_fuse_compound_req_in get_fuse_compound_req_in
  by (rule wire_structI, simp add: put_fuse_compound_req_in_def, simp add: put_fuse_compound_req_in_def get_fuse_compound_req_in_def,
      unfold get_fuse_compound_req_in_def [abs_def], (rule consumes_intros)+, simp)

declare compound_req_in.length_put_eq [simp] compound_req_in.get_put_app [simp]
declare compound_req_in.get_consumes [consumes_intros]

record fuse_uring_ent_in_out =
  ent_flags :: u64
  ent_commit_id :: u64
  ent_payload_sz :: u32

definition put_fuse_uring_ent_in_out :: "fuse_uring_ent_in_out \<Rightarrow> byte list" where
  [wire_defs]: "put_fuse_uring_ent_in_out x =
     put64 (ent_flags x) @ put64 (ent_commit_id x) @ put32 (ent_payload_sz x) @ zeros 4 @
     zeros 8"

definition get_fuse_uring_ent_in_out :: "fuse_uring_ent_in_out getter" where
  [wire_defs]: "get_fuse_uring_ent_in_out bs = do {
     (flags, bs) \<leftarrow> get64 bs; (commit_id, bs) \<leftarrow> get64 bs;
     (payload_sz, bs) \<leftarrow> get32 bs; bs \<leftarrow> skip 4 bs; bs \<leftarrow> skip 8 bs;
     Some (\<lparr>ent_flags = flags, ent_commit_id = commit_id, ent_payload_sz = payload_sz\<rparr>, bs)}"

interpretation uring_ent_in_out: wire_struct 32 put_fuse_uring_ent_in_out get_fuse_uring_ent_in_out
  by (rule wire_structI, simp add: put_fuse_uring_ent_in_out_def, simp add: put_fuse_uring_ent_in_out_def get_fuse_uring_ent_in_out_def,
      unfold get_fuse_uring_ent_in_out_def [abs_def], (rule consumes_intros)+, simp)

declare uring_ent_in_out.length_put_eq [simp] uring_ent_in_out.get_put_app [simp]
declare uring_ent_in_out.get_consumes [consumes_intros]

record fuse_uring_cmd_req =
  ucr_flags :: u64
  ucr_commit_id :: u64
  ucr_qid :: u16

definition put_fuse_uring_cmd_req :: "fuse_uring_cmd_req \<Rightarrow> byte list" where
  [wire_defs]: "put_fuse_uring_cmd_req x =
     put64 (ucr_flags x) @ put64 (ucr_commit_id x) @ put16 (ucr_qid x) @ zeros 6"

definition get_fuse_uring_cmd_req :: "fuse_uring_cmd_req getter" where
  [wire_defs]: "get_fuse_uring_cmd_req bs = do {
     (flags, bs) \<leftarrow> get64 bs; (commit_id, bs) \<leftarrow> get64 bs;
     (qid, bs) \<leftarrow> get16 bs; bs \<leftarrow> skip 6 bs;
     Some (\<lparr>ucr_flags = flags, ucr_commit_id = commit_id, ucr_qid = qid\<rparr>, bs)}"

interpretation uring_cmd_req: wire_struct 24 put_fuse_uring_cmd_req get_fuse_uring_cmd_req
  by (rule wire_structI, simp add: put_fuse_uring_cmd_req_def, simp add: put_fuse_uring_cmd_req_def get_fuse_uring_cmd_req_def,
      unfold get_fuse_uring_cmd_req_def [abs_def], (rule consumes_intros)+, simp)

declare uring_cmd_req.length_put_eq [simp] uring_cmd_req.get_put_app [simp]
declare uring_cmd_req.get_consumes [consumes_intros]

subsection \<open>Layout of a ring entry's header\<close>

text \<open>
  \<open>struct fuse_uring_req_header\<close> is the 128-byte \<open>in_out\<close> area (a \<open>fuse_in_header\<close> on the way
  in, a \<open>fuse_out_header\<close> on the way out), the 128-byte \<open>op_in\<close> area and the
  \<open>fuse_uring_ent_in_out\<close> member; these are its offsets and its size.
\<close>

definition off_in_out :: nat where "off_in_out = 0"
definition off_op_in :: nat where "off_op_in = FUSE_URING_IN_OUT_HEADER_SZ"
definition off_ring_ent :: nat where
  "off_ring_ent = FUSE_URING_IN_OUT_HEADER_SZ + FUSE_URING_OP_IN_OUT_SZ"
definition sizeof_uring_req_header :: nat where "sizeof_uring_req_header = off_ring_ent + 32"

lemmas uring_layout_defs = off_in_out_def off_op_in_def off_ring_ent_def
  sizeof_uring_req_header_def FUSE_URING_IN_OUT_HEADER_SZ_def FUSE_URING_OP_IN_OUT_SZ_def

end
