(* ===== verification/Fex_Types.thy ===== *)
theory Fex_Types
  imports Fuse_Abi
begin

text \<open>
  The public value types of \<open>include/fex/types.hpp\<close> and the duration helper of
  \<open>src/session_impl.hpp\<close>. Strong typedefs over integers stay integers; names and other
  byte strings (\<open>std::string_view\<close>, \<open>std::string\<close>) are lists of bytes.
\<close>

type_synonym NodeId = u64
type_synonym FileHandle = u64
type_synonym Errc = i32

definition NodeId_invalid :: NodeId where "NodeId_invalid = 0"
definition NodeId_root :: NodeId where "NodeId_root = 1"

subsection \<open>statx\<close>

definition statx_mask_type :: u32 where "statx_mask_type = 0x1"
definition statx_mask_mode :: u32 where "statx_mask_mode = 0x2"
definition statx_mask_nlink :: u32 where "statx_mask_nlink = 0x4"
definition statx_mask_uid :: u32 where "statx_mask_uid = 0x8"
definition statx_mask_gid :: u32 where "statx_mask_gid = 0x10"
definition statx_mask_atime :: u32 where "statx_mask_atime = 0x20"
definition statx_mask_mtime :: u32 where "statx_mask_mtime = 0x40"
definition statx_mask_ctime :: u32 where "statx_mask_ctime = 0x80"
definition statx_mask_ino :: u32 where "statx_mask_ino = 0x100"
definition statx_mask_size :: u32 where "statx_mask_size = 0x200"
definition statx_mask_blocks :: u32 where "statx_mask_blocks = 0x400"
definition statx_mask_basic :: u32 where "statx_mask_basic = 0x7ff"
definition statx_mask_btime :: u32 where "statx_mask_btime = 0x800"

lemmas statx_mask_defs = statx_mask_type_def statx_mask_mode_def statx_mask_nlink_def
  statx_mask_uid_def statx_mask_gid_def statx_mask_atime_def statx_mask_mtime_def
  statx_mask_ctime_def statx_mask_ino_def statx_mask_size_def statx_mask_blocks_def
  statx_mask_basic_def statx_mask_btime_def

record Timespec =
  ts_sec :: i64
  ts_nsec :: u32

definition Timespec_zero :: Timespec where
  "Timespec_zero = \<lparr>ts_sec = 0, ts_nsec = 0\<rparr>"

definition Timespec_valid :: "Timespec \<Rightarrow> bool" where
  "Timespec_valid t \<longleftrightarrow> ts_nsec t < 1000000000"

record StatxOut =
  so_mask :: u32
  so_blksize :: u32
  so_attributes :: u64
  so_nlink :: u32
  so_uid :: u32
  so_gid :: u32
  so_mode :: u16
  so_ino :: u64
  so_size :: u64
  so_blocks :: u64
  so_attributes_mask :: u64
  so_atime :: Timespec
  so_btime :: Timespec
  so_ctime :: Timespec
  so_mtime :: Timespec
  so_rdev_major :: u32
  so_rdev_minor :: u32
  so_dev_major :: u32
  so_dev_minor :: u32

definition StatxOut_zero :: StatxOut where
  "StatxOut_zero =
     \<lparr>so_mask = 0, so_blksize = 0, so_attributes = 0, so_nlink = 0, so_uid = 0, so_gid = 0,
      so_mode = 0, so_ino = 0, so_size = 0, so_blocks = 0, so_attributes_mask = 0,
      so_atime = Timespec_zero, so_btime = Timespec_zero, so_ctime = Timespec_zero,
      so_mtime = Timespec_zero, so_rdev_major = 0, so_rdev_minor = 0, so_dev_major = 0,
      so_dev_minor = 0\<rparr>"

record SetStatxIn =
  si_mask :: u32
  si_mode :: u16
  si_uid :: u32
  si_gid :: u32
  si_size :: u64
  si_atime :: Timespec
  si_ctime :: Timespec
  si_mtime :: Timespec

definition SetStatxIn_zero :: SetStatxIn where
  "SetStatxIn_zero =
     \<lparr>si_mask = 0, si_mode = 0, si_uid = 0, si_gid = 0, si_size = 0,
      si_atime = Timespec_zero, si_ctime = Timespec_zero, si_mtime = Timespec_zero\<rparr>"

record StatfsOut =
  sf_blocks :: u64
  sf_bfree :: u64
  sf_bavail :: u64
  sf_files :: u64
  sf_ffree :: u64
  sf_bsize :: u32
  sf_namelen :: u32
  sf_frsize :: u32

subsection \<open>Per-opcode values\<close>

text \<open>\<open>eo_entry_valid\<close> is the signed 64-bit nanosecond count of a \<open>std::chrono::nanoseconds\<close>.\<close>

record EntryOut =
  eo_nodeid :: NodeId
  eo_entry_valid :: i64
  eo_negative :: bool

definition EntryOut_default :: EntryOut where
  "EntryOut_default = \<lparr>eo_nodeid = NodeId_invalid, eo_entry_valid = 0, eo_negative = False\<rparr>"

record Context =
  ctx_uid :: u32
  ctx_gid :: u32
  ctx_pid :: u32
  ctx_nodeid :: NodeId
  ctx_unique :: u64

definition Context_default :: Context where
  "Context_default =
     \<lparr>ctx_uid = 0, ctx_gid = 0, ctx_pid = 0, ctx_nodeid = NodeId_invalid, ctx_unique = 0\<rparr>"

record MkobjxIn =
  mi_stat :: StatxOut
  mi_flags :: u32
  mi_name :: "byte list"
  mi_link_target :: "byte list"

definition kMkobjxTmpfile :: u32 where "kMkobjxTmpfile = 1"

record OpenOut =
  oo_fh :: FileHandle
  oo_open_flags :: u32

definition OpenOut_default :: OpenOut where
  "OpenOut_default = \<lparr>oo_fh = 0, oo_open_flags = 0\<rparr>"

record InitInfo =
  ii_kernel_major :: u32
  ii_kernel_minor :: u32
  ii_kernel_flags :: u64
  ii_max_readahead :: u32
  ii_flags :: u64
  ii_max_write :: u32
  ii_max_pages :: u16
  ii_time_gran :: u32

definition InitInfo_default :: InitInfo where
  "InitInfo_default =
     \<lparr>ii_kernel_major = 0, ii_kernel_minor = 0, ii_kernel_flags = 0, ii_max_readahead = 0,
      ii_flags = 0, ii_max_write = push_bit 20 1, ii_max_pages = 256, ii_time_gran = 1\<rparr>"

text \<open>\<open>static_cast<Errc>(err)\<close>: no value is mapped to \<open>io_error\<close>.\<close>

definition errc_from_errno :: "i32 \<Rightarrow> Errc" where
  "errc_from_errno err = err"

subsection \<open>Durations\<close>

text \<open>
  \<open>split_duration\<close>: the (sec, nsec) pair of a nanosecond count; the C++ division truncates,
  which agrees with \<^const>\<open>divide\<close> on the non-negative counts that reach it.
\<close>

definition split_duration :: "i64 \<Rightarrow> u64 \<times> u32" where
  "split_duration d =
     (if sint d < 0 then (0, 0)
      else (word_of_int (sint d div 1000000000), word_of_int (sint d mod 1000000000)))"

lemma sint_i64_less: "sint (d :: i64) < 2 ^ 63"
  using sint_lt [of d] by simp

lemma split_duration_nonneg:
  assumes "0 \<le> sint d" "split_duration d = (s, n)"
  shows "uint s = sint d div 1000000000" "uint n = sint d mod 1000000000"
proof -
  have "0 \<le> sint d div 1000000000" "sint d div 1000000000 \<le> sint d"
    using assms(1) by (simp_all add: div_le_dividend pos_imp_zdiv_nonneg_iff)
  then show "uint s = sint d div 1000000000"
    using assms sint_i64_less [of d] by (auto simp: split_duration_def uint_word_of_int)
  have "0 \<le> sint d mod 1000000000" "sint d mod 1000000000 < 1000000000" by simp_all
  then show "uint n = sint d mod 1000000000"
    using assms by (auto simp: split_duration_def uint_word_of_int)
qed

lemma split_duration_nsec_lt: "split_duration d = (s, n) \<Longrightarrow> uint n < 1000000000"
proof (cases "0 \<le> sint d")
  case True
  assume "split_duration d = (s, n)"
  from split_duration_nonneg(2) [OF True this] show ?thesis by simp
next
  case False
  assume "split_duration d = (s, n)"
  with False show ?thesis by (auto simp: split_duration_def)
qed

lemma split_duration_negative: "sint d < 0 \<Longrightarrow> split_duration d = (0, 0)"
  by (simp add: split_duration_def)

end
