(* ===== verification/Reply.thy ===== *)
theory Reply
  imports Fex_Types
begin

text \<open>
  Reply construction: the \<open>Replier\<close> of \<open>src/session_impl.hpp\<close> that every handler fills, and
  the \<open>DirentWriter\<close> of \<open>include/fex/reply.hpp\<close> and \<open>src/reply.cpp\<close>.

  \<open>r_out\<close> is the memory from \<open>Replier::out\<close> to the end of its buffer. \<open>replier_ok\<close> is the
  invariant: the capacity is the size of that memory. \<open>replies\<close> is what every handler
  guarantees of the replier it returns: same buffer size, capacity and request id, and a
  length within the capacity.
\<close>

subsection \<open>Replier\<close>

record Replier =
  r_out :: "byte list"
  r_cap :: nat
  r_len :: nat
  r_neg_err :: i32
  r_unique :: u64

definition neg_errno :: "Errc \<Rightarrow> i32" where
  "neg_errno e = - e"

definition reply_error :: "Replier \<Rightarrow> Errc \<Rightarrow> Replier" where
  "reply_error r e = r\<lparr>r_neg_err := neg_errno e, r_len := 0\<rparr>"

definition reply_ok :: "Replier \<Rightarrow> Replier" where
  "reply_ok r = r\<lparr>r_neg_err := 0, r_len := 0\<rparr>"

definition reply_payload :: "Replier \<Rightarrow> byte list \<Rightarrow> Replier option" where
  "reply_payload r p =
     (if length p > r_cap r then Some (r\<lparr>r_neg_err := - EIO, r_len := 0\<rparr>)
      else do {
        out \<leftarrow> (if p \<noteq> [] then store (r_out r) 0 p else Some (r_out r));
        Some (r\<lparr>r_out := out, r_neg_err := 0, r_len := length p\<rparr>)})"

text \<open>\<open>reply_pod\<close> sends the object representation of a structure: its encoding.\<close>

definition reply_pod :: "('a \<Rightarrow> byte list) \<Rightarrow> Replier \<Rightarrow> 'a \<Rightarrow> Replier option" where
  "reply_pod put r pod = reply_payload r (put pod)"

definition replier_ok :: "Replier \<Rightarrow> bool" where
  "replier_ok r \<longleftrightarrow> length (r_out r) = r_cap r"

definition replies :: "Replier \<Rightarrow> Replier \<Rightarrow> bool" where
  "replies r r' \<longleftrightarrow>
     r_cap r' = r_cap r \<and> length (r_out r') = length (r_out r) \<and>
     r_unique r' = r_unique r \<and> r_len r' \<le> r_cap r'"

text \<open>The bytes a reply carries: none when it is an error.\<close>

definition reply_bytes :: "Replier \<Rightarrow> byte list" where
  "reply_bytes r = (if r_neg_err r \<noteq> 0 then [] else take (r_len r) (r_out r))"

lemma replies_error [simp]: "replies r (reply_error r e)"
  by (simp add: replies_def reply_error_def)

lemma replies_ok [simp]: "replies r (reply_ok r)"
  by (simp add: replies_def reply_ok_def)

lemma reply_error_simps [simp]:
  "r_neg_err (reply_error r e) = - e" "r_len (reply_error r e) = 0"
  "r_out (reply_error r e) = r_out r" "r_cap (reply_error r e) = r_cap r"
  "r_unique (reply_error r e) = r_unique r"
  by (simp_all add: reply_error_def neg_errno_def)

lemma reply_ok_simps [simp]:
  "r_neg_err (reply_ok r) = 0" "r_len (reply_ok r) = 0" "r_out (reply_ok r) = r_out r"
  "r_cap (reply_ok r) = r_cap r" "r_unique (reply_ok r) = r_unique r"
  "reply_bytes (reply_ok r) = []"
  by (simp_all add: reply_ok_def reply_bytes_def)

lemma replies_keeps_ok: "replier_ok r \<Longrightarrow> replies r r' \<Longrightarrow> replier_ok r'"
  by (simp add: replier_ok_def replies_def)

lemma reply_payload_safe:
  assumes "replier_ok r"
  shows "\<exists>r'. reply_payload r p = Some r' \<and> replies r r'"
  using assms by (auto simp: reply_payload_def replies_def replier_ok_def)

lemma reply_payload_fits:
  assumes "replier_ok r" "length p \<le> r_cap r" "reply_payload r p = Some r'"
  shows "reply_bytes r' = p" "r_neg_err r' = 0" "r_len r' = length p"
  using assms by (auto simp: reply_payload_def reply_bytes_def replier_ok_def split: if_splits)

lemma reply_payload_too_big:
  assumes "r_cap r < length p"
  shows "reply_payload r p = Some (r\<lparr>r_neg_err := - EIO, r_len := 0\<rparr>)"
  using assms by (simp add: reply_payload_def)

lemma reply_pod_safe: "replier_ok r \<Longrightarrow> \<exists>r'. reply_pod put r x = Some r' \<and> replies r r'"
  unfolding reply_pod_def by (rule reply_payload_safe)

lemma reply_pod_fits:
  assumes "replier_ok r" "length (put x) \<le> r_cap r" "reply_pod put r x = Some r'"
  shows "reply_bytes r' = put x" "r_neg_err r' = 0" "r_len r' = length (put x)"
  using reply_payload_fits [OF assms(1,2)] assms(3) by (auto simp: reply_pod_def)

subsection \<open>DirentWriter\<close>

record DirentWriter =
  dw_buf :: "byte list"
  dw_pos :: nat

definition DirentWriter_init :: "byte list \<Rightarrow> DirentWriter" where
  "DirentWriter_init buf = \<lparr>dw_buf = buf, dw_pos = 0\<rparr>"

definition bytes_written :: "DirentWriter \<Rightarrow> nat" where
  "bytes_written w = dw_pos w"

definition dw_empty :: "DirentWriter \<Rightarrow> bool" where
  "dw_empty w \<longleftrightarrow> dw_pos w = 0"

text \<open>\<open>FUSE_REC_ALIGN\<close>: \<open>(x + 7) & ~7\<close>, clearing the low three bits.\<close>

definition FUSE_REC_ALIGN :: "nat \<Rightarrow> nat" where
  "FUSE_REC_ALIGN x = push_bit 3 (drop_bit 3 (x + 7))"

definition DirentWriter_add ::
    "DirentWriter \<Rightarrow> byte list \<Rightarrow> u64 \<Rightarrow> u64 \<Rightarrow> u32 \<Rightarrow> (bool \<times> DirentWriter) option" where
  "DirentWriter_add w name ino off dtype =
     (let name_off = 24;
          raw = name_off + length name;
          padded = FUSE_REC_ALIGN raw
      in if padded > size_sub (length (dw_buf w)) (dw_pos w) then Some (False, w)
         else do {
           buf \<leftarrow> store (dw_buf w) (dw_pos w)
             (put_fuse_dirent \<lparr>de_ino = ino, de_off = off,
                de_namelen = word_of_nat (length name), de_type = dtype\<rparr>);
           buf \<leftarrow> store buf (dw_pos w + name_off) name;
           buf \<leftarrow> store buf (dw_pos w + raw) (zeros (padded - raw));
           Some (True, w\<lparr>dw_buf := buf, dw_pos := dw_pos w + padded\<rparr>)})"

definition dw_ok :: "DirentWriter \<Rightarrow> bool" where
  "dw_ok w \<longleftrightarrow> dw_pos w \<le> length (dw_buf w)"

text \<open>One packed directory entry, as the bytes of the wire.\<close>

record dirent =
  d_name :: "byte list"
  d_ino :: u64
  d_off :: u64
  d_type :: u32

definition dirent_bytes :: "dirent \<Rightarrow> byte list" where
  "dirent_bytes e =
     put_fuse_dirent \<lparr>de_ino = d_ino e, de_off = d_off e,
       de_namelen = word_of_nat (length (d_name e)), de_type = d_type e\<rparr>
     @ d_name e @ zeros (FUSE_REC_ALIGN (24 + length (d_name e)) - (24 + length (d_name e)))"

lemma FUSE_REC_ALIGN_eq: "FUSE_REC_ALIGN x = (x + 7) div 8 * 8"
  by (simp add: FUSE_REC_ALIGN_def push_bit_eq_mult drop_bit_eq_div)

lemma FUSE_REC_ALIGN_bounds: "x \<le> FUSE_REC_ALIGN x" "FUSE_REC_ALIGN x < x + 8"
  by (simp_all add: FUSE_REC_ALIGN_eq)

lemma FUSE_REC_ALIGN_dvd: "8 dvd FUSE_REC_ALIGN x"
  by (simp add: FUSE_REC_ALIGN_eq)

lemma length_dirent_bytes: "length (dirent_bytes e) = FUSE_REC_ALIGN (24 + length (d_name e))"
  using le_add_diff_inverse [OF FUSE_REC_ALIGN_bounds(1) [of "24 + length (d_name e)"]]
  by (simp only: dirent_bytes_def length_append dirent.length_put_eq length_zeros add.assoc)

text \<open>
  \<open>add\<close> on a well-formed writer: either it reports a full buffer and leaves the writer
  alone, or it appends exactly the entry's bytes. It never writes out of bounds.
\<close>

lemma DirentWriter_add_full:
  assumes "dw_ok w" "length (dw_buf w) < dw_pos w + length (dirent_bytes e)"
  shows "DirentWriter_add w (d_name e) (d_ino e) (d_off e) (d_type e) = Some (False, w)"
  using assms by (simp add: DirentWriter_add_def dw_ok_def length_dirent_bytes less_diff_conv2)

lemma DirentWriter_add_fits:
  assumes "dw_ok w" "dw_pos w + length (dirent_bytes e) \<le> length (dw_buf w)"
  shows "DirentWriter_add w (d_name e) (d_ino e) (d_off e) (d_type e) =
    Some (True, w\<lparr>dw_buf := take (dw_pos w) (dw_buf w) @ dirent_bytes e @
                     drop (dw_pos w + length (dirent_bytes e)) (dw_buf w),
                  dw_pos := dw_pos w + length (dirent_bytes e)\<rparr>)"
proof -
  let ?raw = "24 + length (d_name e)"
  from assms have "FUSE_REC_ALIGN ?raw \<le> length (dw_buf w) - dw_pos w"
    by (simp add: length_dirent_bytes dw_ok_def)
  with assms(1) have "DirentWriter_add w (d_name e) (d_ino e) (d_off e) (d_type e) =
      store (dw_buf w) (dw_pos w) (dirent_bytes e) \<bind>
        (\<lambda>b. Some (True, w\<lparr>dw_buf := b, dw_pos := dw_pos w + FUSE_REC_ALIGN ?raw\<rparr>))"
    by (simp add: DirentWriter_add_def dw_ok_def Let_def dirent_bytes_def store_append add.assoc)
  with assms(2) show ?thesis by (simp add: store_Some length_dirent_bytes)
qed

lemma DirentWriter_add_safe:
  assumes "dw_ok w"
  shows "\<exists>b w'. DirentWriter_add w name ino off dtype = Some (b, w') \<and> dw_ok w' \<and>
    length (dw_buf w') = length (dw_buf w) \<and> dw_pos w \<le> dw_pos w'"
proof -
  define e where "e = \<lparr>d_name = name, d_ino = ino, d_off = off, d_type = dtype\<rparr>"
  show ?thesis
  proof (cases "dw_pos w + length (dirent_bytes e) \<le> length (dw_buf w)")
    case True
    with DirentWriter_add_fits [OF assms True] show ?thesis by (auto simp: e_def dw_ok_def)
  next
    case False
    with DirentWriter_add_full [OF assms, of e] assms show ?thesis by (auto simp: e_def)
  qed
qed

text \<open>
  What a daemon can do with a writer: call \<open>add\<close> any number of times. The writers it can
  hand back are the reachable ones.
\<close>

inductive dw_reach :: "DirentWriter \<Rightarrow> DirentWriter \<Rightarrow> bool" where
  dw_refl: "dw_reach w w"
| dw_add: "dw_reach w w1 \<Longrightarrow> DirentWriter_add w1 name ino off dtype = Some (b, w2) \<Longrightarrow> dw_reach w w2"

lemma dw_reach_ok:
  assumes "dw_reach w w'" "dw_ok w"
  shows "dw_ok w' \<and> length (dw_buf w') = length (dw_buf w)"
  using assms
proof (induction rule: dw_reach.induct)
  case (dw_refl w)
  then show ?case by simp
next
  case (dw_add w w1 name ino off dtype b w2)
  then have "dw_ok w1" "length (dw_buf w1) = length (dw_buf w)" by simp_all
  with DirentWriter_add_safe [OF \<open>dw_ok w1\<close>, of name ino off dtype] dw_add.hyps show ?case by auto
qed

lemma dw_reach_trans: "dw_reach v w \<Longrightarrow> dw_reach u v \<Longrightarrow> dw_reach u w"
  by (induction rule: dw_reach.induct) (auto intro: dw_reach.intros)

subsection \<open>Packing a directory\<close>

text \<open>
  The protocol of a \<open>readdir\<close> implementation: add entries until the directory ends or
  \<open>add\<close> reports a full buffer. The result is the writer and the entries left over.
\<close>

fun add_all :: "DirentWriter \<Rightarrow> dirent list \<Rightarrow> (DirentWriter \<times> dirent list) option" where
  "add_all w [] = Some (w, [])"
| "add_all w (e # es) = do {
     (b, w') \<leftarrow> DirentWriter_add w (d_name e) (d_ino e) (d_off e) (d_type e);
     if b then add_all w' es else Some (w', e # es)}"

text \<open>The receiver's walk over a packed buffer with \<open>FUSE_DIRENT_SIZE\<close>.\<close>

definition FUSE_DIRENT_SIZE :: "fuse_dirent \<Rightarrow> nat" where
  "FUSE_DIRENT_SIZE d = FUSE_REC_ALIGN (24 + unat (de_namelen d))"

function parse_dirents :: "byte list \<Rightarrow> dirent list option" where
  "parse_dirents bs =
     (if bs = [] then Some []
      else case get_fuse_dirent bs of
        None \<Rightarrow> None
      | Some (d, rest) \<Rightarrow>
          if FUSE_DIRENT_SIZE d > length bs then None
          else do {
            es \<leftarrow> parse_dirents (drop (FUSE_DIRENT_SIZE d) bs);
            Some (\<lparr>d_name = take (unat (de_namelen d)) rest, d_ino = de_ino d,
                   d_off = de_off d, d_type = de_type d\<rparr> # es)})"
  by pat_completeness auto
termination
proof (relation "measure length")
  fix bs :: "byte list" and d :: fuse_dirent
  assume "bs \<noteq> []"
  moreover have "0 < FUSE_DIRENT_SIZE d"
    using FUSE_REC_ALIGN_bounds(1) [of "24 + unat (de_namelen d)"] by (simp add: FUSE_DIRENT_SIZE_def)
  ultimately show "(drop (FUSE_DIRENT_SIZE d) bs, bs) \<in> measure length" by simp
qed simp

declare parse_dirents.simps [simp del]

definition name_fits :: "dirent \<Rightarrow> bool" where
  "name_fits e \<longleftrightarrow> length (d_name e) < 2 ^ 32"

lemma parse_dirents_Nil [simp]: "parse_dirents [] = Some []"
  by (simp add: parse_dirents.simps)

lemma parse_dirents_Cons:
  assumes "name_fits e"
  shows "parse_dirents (dirent_bytes e @ bs) = map_option ((#) e) (parse_dirents bs)"
proof -
  let ?d = "\<lparr>de_ino = d_ino e, de_off = d_off e, de_namelen = word_of_nat (length (d_name e)),
    de_type = d_type e\<rparr>"
  let ?raw = "24 + length (d_name e)"
  have n: "unat (word_of_nat (length (d_name e)) :: u32) = length (d_name e)"
    using assms by (simp add: name_fits_def unat_of_nat take_bit_nat_eq_self)
  then have sz: "FUSE_DIRENT_SIZE ?d = length (dirent_bytes e)"
    by (simp add: FUSE_DIRENT_SIZE_def length_dirent_bytes)
  have get: "get_fuse_dirent (dirent_bytes e @ bs) =
      Some (?d, d_name e @ zeros (FUSE_REC_ALIGN ?raw - ?raw) @ bs)"
    by (simp add: dirent_bytes_def)
  have "dirent_bytes e \<noteq> []"
    using FUSE_REC_ALIGN_bounds(1) [of ?raw] length_dirent_bytes [of e] by force
  with get sz n show ?thesis
    by (subst parse_dirents.simps) (cases "parse_dirents bs"; simp)
qed

lemma parse_dirents_concat:
  "\<forall>e \<in> set es. name_fits e \<Longrightarrow> parse_dirents (concat (map dirent_bytes es)) = Some es"
  by (induction es) (simp_all add: parse_dirents_Cons)

text \<open>\<open>dw_holds w es\<close>: the writer's buffer holds exactly the packed entries \<open>es\<close>.\<close>

definition dw_holds :: "DirentWriter \<Rightarrow> dirent list \<Rightarrow> bool" where
  "dw_holds w es \<longleftrightarrow> dw_ok w \<and> take (dw_pos w) (dw_buf w) = concat (map dirent_bytes es)"

lemma dw_holds_add:
  assumes "dw_holds w es"
  shows "(DirentWriter_add w (d_name e) (d_ino e) (d_off e) (d_type e) = Some (False, w) \<and>
            length (dw_buf w) < dw_pos w + length (dirent_bytes e)) \<or>
         (\<exists>w'. DirentWriter_add w (d_name e) (d_ino e) (d_off e) (d_type e) = Some (True, w') \<and>
            dw_holds w' (es @ [e]) \<and> length (dw_buf w') = length (dw_buf w))"
proof (cases "dw_pos w + length (dirent_bytes e) \<le> length (dw_buf w)")
  case True
  from assms have ok: "dw_ok w"
    and hd: "take (dw_pos w) (dw_buf w) = concat (map dirent_bytes es)"
    by (simp_all add: dw_holds_def)
  let ?n = "length (dirent_bytes e)"
  let ?w = "w\<lparr>dw_buf := take (dw_pos w) (dw_buf w) @ dirent_bytes e @
    drop (dw_pos w + ?n) (dw_buf w), dw_pos := dw_pos w + ?n\<rparr>"
  from ok hd have "length (concat (map dirent_bytes es)) = dw_pos w"
    unfolding dw_ok_def by (metis length_take min_absorb2)
  with True hd have "dw_holds ?w (es @ [e])" "length (dw_buf ?w) = length (dw_buf w)"
    by (simp_all add: dw_holds_def dw_ok_def)
  with DirentWriter_add_fits [OF ok True] show ?thesis by blast
next
  case False
  with assms DirentWriter_add_full [of w e] show ?thesis by (simp add: dw_holds_def)
qed

lemma add_all_holds:
  assumes "dw_holds w held"
  shows "\<exists>w' new rest. add_all w es = Some (w', rest) \<and> es = new @ rest \<and>
    dw_holds w' (held @ new) \<and> length (dw_buf w') = length (dw_buf w) \<and>
    (case rest of [] \<Rightarrow> True | e # _ \<Rightarrow> length (dw_buf w') < dw_pos w' + length (dirent_bytes e))"
  using assms
proof (induction es arbitrary: w held)
  case Nil
  then show ?case by simp
next
  case (Cons e es)
  from dw_holds_add [OF Cons.prems, of e] show ?case
  proof (elim disjE exE conjE)
    assume "DirentWriter_add w (d_name e) (d_ino e) (d_off e) (d_type e) = Some (False, w)"
      and "length (dw_buf w) < dw_pos w + length (dirent_bytes e)"
    with Cons.prems show ?thesis by simp
  next
    fix w1
    assume add: "DirentWriter_add w (d_name e) (d_ino e) (d_off e) (d_type e) = Some (True, w1)"
      and w1: "dw_holds w1 (held @ [e])" "length (dw_buf w1) = length (dw_buf w)"
    from Cons.IH [OF w1(1)] obtain w' new rest where "add_all w1 es = Some (w', rest)"
      "es = new @ rest" "dw_holds w' ((held @ [e]) @ new)" "length (dw_buf w') = length (dw_buf w1)"
      "case rest of [] \<Rightarrow> True | e # _ \<Rightarrow> length (dw_buf w') < dw_pos w' + length (dirent_bytes e)"
      by blast
    with add w1(2) show ?thesis by (intro exI [of _ w'] exI [of _ "e # new"] exI [of _ rest]) simp
  qed
qed

lemma dw_holds_init: "dw_holds (DirentWriter_init buf) []"
  by (simp add: dw_holds_def DirentWriter_init_def dw_ok_def)

end
