(* ===== verification/Fuse_Header.thy ===== *)
theory Fuse_Header
  imports Reply
begin

text \<open>
  The whole of the vendored kernel header \<open>include/fex/fuse_uapi.h\<close> as declarations: every
  structure with its members, every enumeration and every group of flags, the sizes kept for
  older versions and the device commands. The layout of a structure is computed by the rules
  of the C ABI, with the alignment of 64-bit integers as a parameter: it is 8 on 64-bit
  machines and 4 on 32-bit x86.

  \<open>Fuse_Layout\<close> proves what the comments of the header promise about them, and that the byte
  encoders of \<open>Fuse_Abi\<close> put every member where the declaration does.
\<close>

unbundle bit_operations_syntax

subsection \<open>Layout\<close>

datatype ctype =
    C_char | C_uint8 | C_uint16 | C_uint32 | C_uint64 | C_int32 | C_int64
  | C_array ctype nat
  | C_flex ctype
  | C_struct "(string \<times> ctype) list"

type_synonym c_fields = "(string \<times> ctype) list"

definition round_up :: "nat \<Rightarrow> nat \<Rightarrow> nat" where
  "round_up x a = (x + (a - 1)) div a * a"

fun c_align :: "nat \<Rightarrow> ctype \<Rightarrow> nat" and c_aligns :: "nat \<Rightarrow> c_fields \<Rightarrow> nat" where
  "c_align a C_char = 1"
| "c_align a C_uint8 = 1"
| "c_align a C_uint16 = 2"
| "c_align a C_uint32 = 4"
| "c_align a C_uint64 = a"
| "c_align a C_int32 = 4"
| "c_align a C_int64 = a"
| "c_align a (C_array t n) = c_align a t"
| "c_align a (C_flex t) = c_align a t"
| "c_align a (C_struct fs) = c_aligns a fs"
| "c_aligns a [] = 1"
| "c_aligns a ((n, t) # fs) = max (c_align a t) (c_aligns a fs)"

text \<open>\<open>sizeof\<close>, and the offset behind the last member.\<close>

fun c_size :: "nat \<Rightarrow> ctype \<Rightarrow> nat" and c_end :: "nat \<Rightarrow> nat \<Rightarrow> c_fields \<Rightarrow> nat" where
  "c_size a C_char = 1"
| "c_size a C_uint8 = 1"
| "c_size a C_uint16 = 2"
| "c_size a C_uint32 = 4"
| "c_size a C_uint64 = 8"
| "c_size a C_int32 = 4"
| "c_size a C_int64 = 8"
| "c_size a (C_array t n) = n * c_size a t"
| "c_size a (C_flex t) = 0"
| "c_size a (C_struct fs) = round_up (c_end a 0 fs) (c_aligns a fs)"
| "c_end a pos [] = pos"
| "c_end a pos ((n, t) # fs) = c_end a (round_up pos (c_align a t) + c_size a t) fs"

definition c_sizeof :: "nat \<Rightarrow> c_fields \<Rightarrow> nat" where
  "c_sizeof a fs = c_size a (C_struct fs)"

fun c_offsets :: "nat \<Rightarrow> nat \<Rightarrow> c_fields \<Rightarrow> (string \<times> nat) list" where
  "c_offsets a pos [] = []"
| "c_offsets a pos ((n, t) # fs) =
     (let pos = round_up pos (c_align a t) in (n, pos) # c_offsets a (pos + c_size a t) fs)"

definition c_offsetof :: "nat \<Rightarrow> c_fields \<Rightarrow> string \<Rightarrow> nat option" where
  "c_offsetof a fs n = map_of (c_offsets a 0 fs) n"

text \<open>The bytes of a structure whose members have the given images, with zeros in the gaps.\<close>

fun c_members :: "nat \<Rightarrow> nat \<Rightarrow> c_fields \<Rightarrow> byte list list \<Rightarrow> byte list option" where
  "c_members a pos [] [] = Some []"
| "c_members a pos ((n, t) # fs) (v # vs) =
     (let at = round_up pos (c_align a t) in
      if length v \<noteq> c_size a t then None
      else map_option (\<lambda>rest. zeros (at - pos) @ v @ rest) (c_members a (at + c_size a t) fs vs))"
| "c_members a pos _ _ = None"

definition c_image :: "nat \<Rightarrow> c_fields \<Rightarrow> byte list list \<Rightarrow> byte list option" where
  "c_image a fs vs = map_option (\<lambda>bs. bs @ zeros (c_sizeof a fs - c_end a 0 fs)) (c_members a 0 fs vs)"

text \<open>A structure without gaps: every member is aligned where the previous one ends, and so is the end.\<close>

fun packed_from :: "nat \<Rightarrow> nat \<Rightarrow> c_fields \<Rightarrow> bool" where
  "packed_from a pos [] = True"
| "packed_from a pos ((n, t) # fs) = (round_up pos (c_align a t) = pos \<and> packed_from a (pos + c_size a t) fs)"

definition c_packed :: "nat \<Rightarrow> c_fields \<Rightarrow> bool" where
  "c_packed a fs \<longleftrightarrow> packed_from a 0 fs \<and> c_sizeof a fs = c_end a 0 fs"

subsection \<open>The structures\<close>

definition fuse_attr_c :: c_fields where
  "fuse_attr_c =
    [(''ino'', C_uint64), (''size'', C_uint64), (''blocks'', C_uint64), (''atime'', C_uint64),
     (''mtime'', C_uint64), (''ctime'', C_uint64), (''atimensec'', C_uint32),
     (''mtimensec'', C_uint32), (''ctimensec'', C_uint32), (''mode'', C_uint32),
     (''nlink'', C_uint32), (''uid'', C_uint32), (''gid'', C_uint32), (''rdev'', C_uint32),
     (''blksize'', C_uint32), (''flags'', C_uint32)]"

definition fuse_sx_time_c :: c_fields where
  "fuse_sx_time_c =
    [(''tv_sec'', C_int64), (''tv_nsec'', C_uint32), (''__reserved'', C_int32)]"

definition fuse_statx_c :: c_fields where
  "fuse_statx_c =
    [(''mask'', C_uint32), (''blksize'', C_uint32), (''attributes'', C_uint64),
     (''nlink'', C_uint32), (''uid'', C_uint32), (''gid'', C_uint32), (''mode'', C_uint16),
     (''__spare0'', C_array C_uint16 1), (''ino'', C_uint64), (''size'', C_uint64),
     (''blocks'', C_uint64), (''attributes_mask'', C_uint64), (''atime'', C_struct fuse_sx_time_c),
     (''btime'', C_struct fuse_sx_time_c), (''ctime'', C_struct fuse_sx_time_c),
     (''mtime'', C_struct fuse_sx_time_c), (''rdev_major'', C_uint32), (''rdev_minor'', C_uint32),
     (''dev_major'', C_uint32), (''dev_minor'', C_uint32), (''__spare2'', C_array C_uint64 14)]"

definition fuse_kstatfs_c :: c_fields where
  "fuse_kstatfs_c =
    [(''blocks'', C_uint64), (''bfree'', C_uint64), (''bavail'', C_uint64), (''files'', C_uint64),
     (''ffree'', C_uint64), (''bsize'', C_uint32), (''namelen'', C_uint32), (''frsize'', C_uint32),
     (''padding'', C_uint32), (''spare'', C_array C_uint32 6)]"

definition fuse_file_lock_c :: c_fields where
  "fuse_file_lock_c =
    [(''start'', C_uint64), (''end'', C_uint64), (''type'', C_uint32), (''pid'', C_uint32)]"

definition fuse_entry_out_c :: c_fields where
  "fuse_entry_out_c =
    [(''nodeid'', C_uint64), (''generation'', C_uint64), (''entry_valid'', C_uint64),
     (''attr_valid'', C_uint64), (''entry_valid_nsec'', C_uint32), (''attr_valid_nsec'', C_uint32),
     (''attr'', C_struct fuse_attr_c)]"

definition fuse_entryx_out_c :: c_fields where
  "fuse_entryx_out_c =
    [(''nodeid'', C_uint64), (''entry_valid'', C_uint64), (''entry_valid_nsec'', C_uint32),
     (''flags'', C_uint32), (''spare'', C_uint64)]"

definition fuse_forget_in_c :: c_fields where
  "fuse_forget_in_c =
    [(''nlookup'', C_uint64)]"

definition fuse_forget_one_c :: c_fields where
  "fuse_forget_one_c =
    [(''nodeid'', C_uint64), (''nlookup'', C_uint64)]"

definition fuse_batch_forget_in_c :: c_fields where
  "fuse_batch_forget_in_c =
    [(''count'', C_uint32), (''dummy'', C_uint32)]"

definition fuse_getattr_in_c :: c_fields where
  "fuse_getattr_in_c =
    [(''getattr_flags'', C_uint32), (''dummy'', C_uint32), (''fh'', C_uint64)]"

definition fuse_attr_out_c :: c_fields where
  "fuse_attr_out_c =
    [(''attr_valid'', C_uint64), (''attr_valid_nsec'', C_uint32), (''dummy'', C_uint32),
     (''attr'', C_struct fuse_attr_c)]"

definition fuse_statx_in_c :: c_fields where
  "fuse_statx_in_c =
    [(''getattr_flags'', C_uint32), (''reserved'', C_uint32), (''fh'', C_uint64),
     (''sx_flags'', C_uint32), (''sx_mask'', C_uint32)]"

definition fuse_statx_out_c :: c_fields where
  "fuse_statx_out_c =
    [(''attr_valid'', C_uint64), (''attr_valid_nsec'', C_uint32), (''flags'', C_uint32),
     (''spare'', C_array C_uint64 2), (''stat'', C_struct fuse_statx_c)]"

definition fuse_mknod_in_c :: c_fields where
  "fuse_mknod_in_c =
    [(''mode'', C_uint32), (''rdev'', C_uint32), (''umask'', C_uint32), (''padding'', C_uint32)]"

definition fuse_mkobjx_in_c :: c_fields where
  "fuse_mkobjx_in_c =
    [(''namesize'', C_uint32), (''flags'', C_uint32), (''spare'', C_array C_uint64 7),
     (''stat'', C_struct fuse_statx_c)]"

definition fuse_mkdir_in_c :: c_fields where
  "fuse_mkdir_in_c =
    [(''mode'', C_uint32), (''umask'', C_uint32)]"

definition fuse_rename_in_c :: c_fields where
  "fuse_rename_in_c =
    [(''newdir'', C_uint64)]"

definition fuse_rename2_in_c :: c_fields where
  "fuse_rename2_in_c =
    [(''newdir'', C_uint64), (''flags'', C_uint32), (''padding'', C_uint32)]"

definition fuse_link_in_c :: c_fields where
  "fuse_link_in_c =
    [(''oldnodeid'', C_uint64)]"

definition fuse_setattr_in_c :: c_fields where
  "fuse_setattr_in_c =
    [(''valid'', C_uint32), (''padding'', C_uint32), (''fh'', C_uint64), (''size'', C_uint64),
     (''lock_owner'', C_uint64), (''atime'', C_uint64), (''mtime'', C_uint64),
     (''ctime'', C_uint64), (''atimensec'', C_uint32), (''mtimensec'', C_uint32),
     (''ctimensec'', C_uint32), (''mode'', C_uint32), (''unused4'', C_uint32), (''uid'', C_uint32),
     (''gid'', C_uint32), (''unused5'', C_uint32)]"

definition fuse_setstatx_in_c :: c_fields where
  "fuse_setstatx_in_c =
    [(''fh'', C_uint64), (''flags'', C_uint32), (''reserved'', C_uint32),
     (''stat'', C_struct fuse_statx_c)]"

definition fuse_open_in_c :: c_fields where
  "fuse_open_in_c =
    [(''flags'', C_uint32), (''open_flags'', C_uint32)]"

definition fuse_create_in_c :: c_fields where
  "fuse_create_in_c =
    [(''flags'', C_uint32), (''mode'', C_uint32), (''umask'', C_uint32), (''open_flags'', C_uint32)]"

definition fuse_open_out_c :: c_fields where
  "fuse_open_out_c =
    [(''fh'', C_uint64), (''open_flags'', C_uint32), (''backing_id'', C_int32)]"

definition fuse_release_in_c :: c_fields where
  "fuse_release_in_c =
    [(''fh'', C_uint64), (''flags'', C_uint32), (''release_flags'', C_uint32),
     (''lock_owner'', C_uint64)]"

definition fuse_flush_in_c :: c_fields where
  "fuse_flush_in_c =
    [(''fh'', C_uint64), (''unused'', C_uint32), (''padding'', C_uint32), (''lock_owner'', C_uint64)]"

definition fuse_read_in_c :: c_fields where
  "fuse_read_in_c =
    [(''fh'', C_uint64), (''offset'', C_uint64), (''size'', C_uint32), (''read_flags'', C_uint32),
     (''lock_owner'', C_uint64), (''flags'', C_uint32), (''padding'', C_uint32)]"

definition fuse_write_in_c :: c_fields where
  "fuse_write_in_c =
    [(''fh'', C_uint64), (''offset'', C_uint64), (''size'', C_uint32), (''write_flags'', C_uint32),
     (''lock_owner'', C_uint64), (''flags'', C_uint32), (''padding'', C_uint32)]"

definition fuse_write_out_c :: c_fields where
  "fuse_write_out_c =
    [(''size'', C_uint32), (''padding'', C_uint32)]"

definition fuse_statfs_out_c :: c_fields where
  "fuse_statfs_out_c =
    [(''st'', C_struct fuse_kstatfs_c)]"

definition fuse_fsync_in_c :: c_fields where
  "fuse_fsync_in_c =
    [(''fh'', C_uint64), (''fsync_flags'', C_uint32), (''padding'', C_uint32)]"

definition fuse_setxattr_in_c :: c_fields where
  "fuse_setxattr_in_c =
    [(''size'', C_uint32), (''flags'', C_uint32), (''setxattr_flags'', C_uint32),
     (''padding'', C_uint32)]"

definition fuse_getxattr_in_c :: c_fields where
  "fuse_getxattr_in_c =
    [(''size'', C_uint32), (''padding'', C_uint32)]"

definition fuse_getxattr_out_c :: c_fields where
  "fuse_getxattr_out_c =
    [(''size'', C_uint32), (''padding'', C_uint32)]"

definition fuse_lk_in_c :: c_fields where
  "fuse_lk_in_c =
    [(''fh'', C_uint64), (''owner'', C_uint64), (''lk'', C_struct fuse_file_lock_c),
     (''lk_flags'', C_uint32), (''padding'', C_uint32)]"

definition fuse_lk_out_c :: c_fields where
  "fuse_lk_out_c =
    [(''lk'', C_struct fuse_file_lock_c)]"

definition fuse_access_in_c :: c_fields where
  "fuse_access_in_c =
    [(''mask'', C_uint32), (''padding'', C_uint32)]"

definition fuse_init_in_c :: c_fields where
  "fuse_init_in_c =
    [(''major'', C_uint32), (''minor'', C_uint32), (''max_readahead'', C_uint32),
     (''flags'', C_uint32), (''flags2'', C_uint32), (''unused'', C_array C_uint32 11)]"

definition fuse_init_out_c :: c_fields where
  "fuse_init_out_c =
    [(''major'', C_uint32), (''minor'', C_uint32), (''max_readahead'', C_uint32),
     (''flags'', C_uint32), (''max_background'', C_uint16), (''congestion_threshold'', C_uint16),
     (''max_write'', C_uint32), (''time_gran'', C_uint32), (''max_pages'', C_uint16),
     (''map_alignment'', C_uint16), (''flags2'', C_uint32), (''max_stack_depth'', C_uint32),
     (''request_timeout'', C_uint16), (''unused'', C_array C_uint16 11)]"

definition cuse_init_in_c :: c_fields where
  "cuse_init_in_c =
    [(''major'', C_uint32), (''minor'', C_uint32), (''unused'', C_uint32), (''flags'', C_uint32)]"

definition cuse_init_out_c :: c_fields where
  "cuse_init_out_c =
    [(''major'', C_uint32), (''minor'', C_uint32), (''unused'', C_uint32), (''flags'', C_uint32),
     (''max_read'', C_uint32), (''max_write'', C_uint32), (''dev_major'', C_uint32),
     (''dev_minor'', C_uint32), (''spare'', C_array C_uint32 10)]"

definition fuse_interrupt_in_c :: c_fields where
  "fuse_interrupt_in_c =
    [(''unique'', C_uint64)]"

definition fuse_bmap_in_c :: c_fields where
  "fuse_bmap_in_c =
    [(''block'', C_uint64), (''blocksize'', C_uint32), (''padding'', C_uint32)]"

definition fuse_bmap_out_c :: c_fields where
  "fuse_bmap_out_c =
    [(''block'', C_uint64)]"

definition fuse_ioctl_in_c :: c_fields where
  "fuse_ioctl_in_c =
    [(''fh'', C_uint64), (''flags'', C_uint32), (''cmd'', C_uint32), (''arg'', C_uint64),
     (''in_size'', C_uint32), (''out_size'', C_uint32)]"

definition fuse_ioctl_iovec_c :: c_fields where
  "fuse_ioctl_iovec_c =
    [(''base'', C_uint64), (''len'', C_uint64)]"

definition fuse_ioctl_out_c :: c_fields where
  "fuse_ioctl_out_c =
    [(''result'', C_int32), (''flags'', C_uint32), (''in_iovs'', C_uint32), (''out_iovs'', C_uint32)]"

definition fuse_poll_in_c :: c_fields where
  "fuse_poll_in_c =
    [(''fh'', C_uint64), (''kh'', C_uint64), (''flags'', C_uint32), (''events'', C_uint32)]"

definition fuse_poll_out_c :: c_fields where
  "fuse_poll_out_c =
    [(''revents'', C_uint32), (''padding'', C_uint32)]"

definition fuse_notify_poll_wakeup_out_c :: c_fields where
  "fuse_notify_poll_wakeup_out_c =
    [(''kh'', C_uint64)]"

definition fuse_fallocate_in_c :: c_fields where
  "fuse_fallocate_in_c =
    [(''fh'', C_uint64), (''offset'', C_uint64), (''length'', C_uint64), (''mode'', C_uint32),
     (''padding'', C_uint32)]"

definition fuse_in_header_c :: c_fields where
  "fuse_in_header_c =
    [(''len'', C_uint32), (''opcode'', C_uint32), (''unique'', C_uint64), (''nodeid'', C_uint64),
     (''uid'', C_uint32), (''gid'', C_uint32), (''pid'', C_uint32), (''total_extlen'', C_uint16),
     (''padding'', C_uint16)]"

definition fuse_out_header_c :: c_fields where
  "fuse_out_header_c =
    [(''len'', C_uint32), (''error'', C_int32), (''unique'', C_uint64)]"

definition fuse_dirent_c :: c_fields where
  "fuse_dirent_c =
    [(''ino'', C_uint64), (''off'', C_uint64), (''namelen'', C_uint32), (''type'', C_uint32),
     (''name'', C_flex C_char)]"

definition fuse_direntplus_c :: c_fields where
  "fuse_direntplus_c =
    [(''entry_out'', C_struct fuse_entry_out_c), (''dirent'', C_struct fuse_dirent_c)]"

definition fuse_notify_inval_inode_out_c :: c_fields where
  "fuse_notify_inval_inode_out_c =
    [(''ino'', C_uint64), (''off'', C_int64), (''len'', C_int64)]"

definition fuse_notify_inval_entry_out_c :: c_fields where
  "fuse_notify_inval_entry_out_c =
    [(''parent'', C_uint64), (''namelen'', C_uint32), (''flags'', C_uint32)]"

definition fuse_notify_delete_out_c :: c_fields where
  "fuse_notify_delete_out_c =
    [(''parent'', C_uint64), (''child'', C_uint64), (''namelen'', C_uint32), (''padding'', C_uint32)]"

definition fuse_notify_store_out_c :: c_fields where
  "fuse_notify_store_out_c =
    [(''nodeid'', C_uint64), (''offset'', C_uint64), (''size'', C_uint32), (''padding'', C_uint32)]"

definition fuse_notify_retrieve_out_c :: c_fields where
  "fuse_notify_retrieve_out_c =
    [(''notify_unique'', C_uint64), (''nodeid'', C_uint64), (''offset'', C_uint64),
     (''size'', C_uint32), (''padding'', C_uint32)]"

definition fuse_notify_retrieve_in_c :: c_fields where
  "fuse_notify_retrieve_in_c =
    [(''dummy1'', C_uint64), (''offset'', C_uint64), (''size'', C_uint32), (''dummy2'', C_uint32),
     (''dummy3'', C_uint64), (''dummy4'', C_uint64)]"

definition fuse_notify_prune_out_c :: c_fields where
  "fuse_notify_prune_out_c =
    [(''count'', C_uint32), (''padding'', C_uint32), (''spare'', C_uint64)]"

definition fuse_backing_map_c :: c_fields where
  "fuse_backing_map_c =
    [(''fd'', C_int32), (''flags'', C_uint32), (''padding'', C_uint64)]"

definition fuse_lseek_in_c :: c_fields where
  "fuse_lseek_in_c =
    [(''fh'', C_uint64), (''offset'', C_uint64), (''whence'', C_uint32), (''padding'', C_uint32)]"

definition fuse_lseek_out_c :: c_fields where
  "fuse_lseek_out_c =
    [(''offset'', C_uint64)]"

definition fuse_copy_file_range_in_c :: c_fields where
  "fuse_copy_file_range_in_c =
    [(''fh_in'', C_uint64), (''off_in'', C_uint64), (''nodeid_out'', C_uint64),
     (''fh_out'', C_uint64), (''off_out'', C_uint64), (''len'', C_uint64), (''flags'', C_uint64)]"

definition fuse_copy_file_range_out_c :: c_fields where
  "fuse_copy_file_range_out_c =
    [(''bytes_copied'', C_uint64)]"

definition fuse_setupmapping_in_c :: c_fields where
  "fuse_setupmapping_in_c =
    [(''fh'', C_uint64), (''foffset'', C_uint64), (''len'', C_uint64), (''flags'', C_uint64),
     (''moffset'', C_uint64)]"

definition fuse_removemapping_in_c :: c_fields where
  "fuse_removemapping_in_c =
    [(''count'', C_uint32)]"

definition fuse_removemapping_one_c :: c_fields where
  "fuse_removemapping_one_c =
    [(''moffset'', C_uint64), (''len'', C_uint64)]"

definition fuse_syncfs_in_c :: c_fields where
  "fuse_syncfs_in_c =
    [(''padding'', C_uint64)]"

definition fuse_secctx_c :: c_fields where
  "fuse_secctx_c =
    [(''size'', C_uint32), (''padding'', C_uint32)]"

definition fuse_secctx_header_c :: c_fields where
  "fuse_secctx_header_c =
    [(''size'', C_uint32), (''nr_secctx'', C_uint32)]"

definition fuse_ext_header_c :: c_fields where
  "fuse_ext_header_c =
    [(''size'', C_uint32), (''type'', C_uint32)]"

definition fuse_supp_groups_c :: c_fields where
  "fuse_supp_groups_c =
    [(''nr_groups'', C_uint32), (''groups'', C_flex C_uint32)]"

definition fuse_compound_in_c :: c_fields where
  "fuse_compound_in_c =
    [(''reserved'', C_array C_uint64 2)]"

definition fuse_compound_out_c :: c_fields where
  "fuse_compound_out_c =
    [(''reserved'', C_array C_uint64 2)]"

definition fuse_compound_req_in_c :: c_fields where
  "fuse_compound_req_in_c =
    [(''dep_index'', C_uint8), (''reserved'', C_array C_uint8 3)]"

definition fuse_uring_ent_in_out_c :: c_fields where
  "fuse_uring_ent_in_out_c =
    [(''flags'', C_uint64), (''commit_id'', C_uint64), (''payload_sz'', C_uint32),
     (''padding'', C_uint32), (''reserved'', C_uint64)]"

definition fuse_uring_req_header_c :: c_fields where
  "fuse_uring_req_header_c =
    [(''in_out'', C_array C_char 128), (''op_in'', C_array C_char 128),
     (''ring_ent_in_out'', C_struct fuse_uring_ent_in_out_c)]"

definition fuse_uring_cmd_req_c :: c_fields where
  "fuse_uring_cmd_req_c =
    [(''flags'', C_uint64), (''commit_id'', C_uint64), (''qid'', C_uint16),
     (''padding'', C_array C_uint8 6)]"

definition fuse_structs :: "(string \<times> c_fields) list" where
  "fuse_structs =
    [(''fuse_attr'', fuse_attr_c), (''fuse_sx_time'', fuse_sx_time_c),
     (''fuse_statx'', fuse_statx_c), (''fuse_kstatfs'', fuse_kstatfs_c),
     (''fuse_file_lock'', fuse_file_lock_c), (''fuse_entry_out'', fuse_entry_out_c),
     (''fuse_entryx_out'', fuse_entryx_out_c), (''fuse_forget_in'', fuse_forget_in_c),
     (''fuse_forget_one'', fuse_forget_one_c), (''fuse_batch_forget_in'', fuse_batch_forget_in_c),
     (''fuse_getattr_in'', fuse_getattr_in_c), (''fuse_attr_out'', fuse_attr_out_c),
     (''fuse_statx_in'', fuse_statx_in_c), (''fuse_statx_out'', fuse_statx_out_c),
     (''fuse_mknod_in'', fuse_mknod_in_c), (''fuse_mkobjx_in'', fuse_mkobjx_in_c),
     (''fuse_mkdir_in'', fuse_mkdir_in_c), (''fuse_rename_in'', fuse_rename_in_c),
     (''fuse_rename2_in'', fuse_rename2_in_c), (''fuse_link_in'', fuse_link_in_c),
     (''fuse_setattr_in'', fuse_setattr_in_c), (''fuse_setstatx_in'', fuse_setstatx_in_c),
     (''fuse_open_in'', fuse_open_in_c), (''fuse_create_in'', fuse_create_in_c),
     (''fuse_open_out'', fuse_open_out_c), (''fuse_release_in'', fuse_release_in_c),
     (''fuse_flush_in'', fuse_flush_in_c), (''fuse_read_in'', fuse_read_in_c),
     (''fuse_write_in'', fuse_write_in_c), (''fuse_write_out'', fuse_write_out_c),
     (''fuse_statfs_out'', fuse_statfs_out_c), (''fuse_fsync_in'', fuse_fsync_in_c),
     (''fuse_setxattr_in'', fuse_setxattr_in_c), (''fuse_getxattr_in'', fuse_getxattr_in_c),
     (''fuse_getxattr_out'', fuse_getxattr_out_c), (''fuse_lk_in'', fuse_lk_in_c),
     (''fuse_lk_out'', fuse_lk_out_c), (''fuse_access_in'', fuse_access_in_c),
     (''fuse_init_in'', fuse_init_in_c), (''fuse_init_out'', fuse_init_out_c),
     (''cuse_init_in'', cuse_init_in_c), (''cuse_init_out'', cuse_init_out_c),
     (''fuse_interrupt_in'', fuse_interrupt_in_c), (''fuse_bmap_in'', fuse_bmap_in_c),
     (''fuse_bmap_out'', fuse_bmap_out_c), (''fuse_ioctl_in'', fuse_ioctl_in_c),
     (''fuse_ioctl_iovec'', fuse_ioctl_iovec_c), (''fuse_ioctl_out'', fuse_ioctl_out_c),
     (''fuse_poll_in'', fuse_poll_in_c), (''fuse_poll_out'', fuse_poll_out_c),
     (''fuse_notify_poll_wakeup_out'', fuse_notify_poll_wakeup_out_c),
     (''fuse_fallocate_in'', fuse_fallocate_in_c), (''fuse_in_header'', fuse_in_header_c),
     (''fuse_out_header'', fuse_out_header_c), (''fuse_dirent'', fuse_dirent_c),
     (''fuse_direntplus'', fuse_direntplus_c),
     (''fuse_notify_inval_inode_out'', fuse_notify_inval_inode_out_c),
     (''fuse_notify_inval_entry_out'', fuse_notify_inval_entry_out_c),
     (''fuse_notify_delete_out'', fuse_notify_delete_out_c),
     (''fuse_notify_store_out'', fuse_notify_store_out_c),
     (''fuse_notify_retrieve_out'', fuse_notify_retrieve_out_c),
     (''fuse_notify_retrieve_in'', fuse_notify_retrieve_in_c),
     (''fuse_notify_prune_out'', fuse_notify_prune_out_c),
     (''fuse_backing_map'', fuse_backing_map_c), (''fuse_lseek_in'', fuse_lseek_in_c),
     (''fuse_lseek_out'', fuse_lseek_out_c),
     (''fuse_copy_file_range_in'', fuse_copy_file_range_in_c),
     (''fuse_copy_file_range_out'', fuse_copy_file_range_out_c),
     (''fuse_setupmapping_in'', fuse_setupmapping_in_c),
     (''fuse_removemapping_in'', fuse_removemapping_in_c),
     (''fuse_removemapping_one'', fuse_removemapping_one_c),
     (''fuse_syncfs_in'', fuse_syncfs_in_c), (''fuse_secctx'', fuse_secctx_c),
     (''fuse_secctx_header'', fuse_secctx_header_c), (''fuse_ext_header'', fuse_ext_header_c),
     (''fuse_supp_groups'', fuse_supp_groups_c), (''fuse_compound_in'', fuse_compound_in_c),
     (''fuse_compound_out'', fuse_compound_out_c),
     (''fuse_compound_req_in'', fuse_compound_req_in_c),
     (''fuse_uring_ent_in_out'', fuse_uring_ent_in_out_c),
     (''fuse_uring_req_header'', fuse_uring_req_header_c),
     (''fuse_uring_cmd_req'', fuse_uring_cmd_req_c)]"

subsection \<open>Flags\<close>

text \<open>\<open>(1 << n)\<close> is an \<open>int\<close>. The flags of the other groups are used as 32-bit values.\<close>

definition bit_flag :: "nat \<Rightarrow> i32" where "bit_flag n = push_bit n 1"

definition fattr_flags :: "(string \<times> i32) list" where
  "fattr_flags =
    [(''FATTR_MODE'', bit_flag 0), (''FATTR_UID'', bit_flag 1), (''FATTR_GID'', bit_flag 2),
     (''FATTR_SIZE'', bit_flag 3), (''FATTR_ATIME'', bit_flag 4), (''FATTR_MTIME'', bit_flag 5),
     (''FATTR_FH'', bit_flag 6), (''FATTR_ATIME_NOW'', bit_flag 7),
     (''FATTR_MTIME_NOW'', bit_flag 8), (''FATTR_LOCKOWNER'', bit_flag 9),
     (''FATTR_CTIME'', bit_flag 10), (''FATTR_KILL_SUIDGID'', bit_flag 11)]"

definition fopen_flags :: "(string \<times> i32) list" where
  "fopen_flags =
    [(''FOPEN_DIRECT_IO'', bit_flag 0), (''FOPEN_KEEP_CACHE'', bit_flag 1),
     (''FOPEN_NONSEEKABLE'', bit_flag 2), (''FOPEN_CACHE_DIR'', bit_flag 3),
     (''FOPEN_STREAM'', bit_flag 4), (''FOPEN_NOFLUSH'', bit_flag 5),
     (''FOPEN_PARALLEL_DIRECT_WRITES'', bit_flag 6), (''FOPEN_PASSTHROUGH'', bit_flag 7)]"

definition cuse_flags :: "(string \<times> i32) list" where
  "cuse_flags =
    [(''CUSE_UNRESTRICTED_IOCTL'', bit_flag 0)]"

definition release_flags :: "(string \<times> i32) list" where
  "release_flags =
    [(''FUSE_RELEASE_FLUSH'', bit_flag 0), (''FUSE_RELEASE_FLOCK_UNLOCK'', bit_flag 1)]"

definition getattr_flags :: "(string \<times> i32) list" where
  "getattr_flags =
    [(''FUSE_GETATTR_FH'', bit_flag 0)]"

definition lk_flags :: "(string \<times> i32) list" where
  "lk_flags =
    [(''FUSE_LK_FLOCK'', bit_flag 0)]"

definition write_flags :: "(string \<times> i32) list" where
  "write_flags =
    [(''FUSE_WRITE_CACHE'', bit_flag 0), (''FUSE_WRITE_LOCKOWNER'', bit_flag 1),
     (''FUSE_WRITE_KILL_SUIDGID'', bit_flag 2)]"

definition read_flags :: "(string \<times> i32) list" where
  "read_flags =
    [(''FUSE_READ_LOCKOWNER'', bit_flag 1)]"

definition ioctl_flags :: "(string \<times> i32) list" where
  "ioctl_flags =
    [(''FUSE_IOCTL_COMPAT'', bit_flag 0), (''FUSE_IOCTL_UNRESTRICTED'', bit_flag 1),
     (''FUSE_IOCTL_RETRY'', bit_flag 2), (''FUSE_IOCTL_32BIT'', bit_flag 3),
     (''FUSE_IOCTL_DIR'', bit_flag 4), (''FUSE_IOCTL_COMPAT_X32'', bit_flag 5)]"

definition poll_flags :: "(string \<times> i32) list" where
  "poll_flags =
    [(''FUSE_POLL_SCHEDULE_NOTIFY'', bit_flag 0)]"

definition fsync_flags :: "(string \<times> i32) list" where
  "fsync_flags =
    [(''FUSE_FSYNC_FDATASYNC'', bit_flag 0)]"

definition attr_flags :: "(string \<times> i32) list" where
  "attr_flags =
    [(''FUSE_ATTR_SUBMOUNT'', bit_flag 0), (''FUSE_ATTR_DAX'', bit_flag 1)]"

definition open_in_flags :: "(string \<times> i32) list" where
  "open_in_flags =
    [(''FUSE_OPEN_KILL_SUIDGID'', bit_flag 0)]"

definition setxattr_flags :: "(string \<times> i32) list" where
  "setxattr_flags =
    [(''FUSE_SETXATTR_ACL_KILL_SGID'', bit_flag 0)]"

definition expire_flags :: "(string \<times> i32) list" where
  "expire_flags =
    [(''FUSE_EXPIRE_ONLY'', bit_flag 0)]"

definition entryx_flags :: "(string \<times> i32) list" where
  "entryx_flags =
    [(''FUSE_ENTRYX_NEGATIVE'', bit_flag 0)]"

definition setupmapping_flags :: "(string \<times> u64) list" where
  "setupmapping_flags = [(''FUSE_SETUPMAPPING_FLAG_WRITE'', push_bit 0 1), (''FUSE_SETUPMAPPING_FLAG_READ'', push_bit 1 1)]"

text \<open>
  The flags of \<open>INIT\<close> are combined into 64 bits: an \<open>int\<close> is sign-extended, the flags from bit
  32 on are \<open>unsigned long long\<close>.
\<close>

definition int_flag :: "nat \<Rightarrow> u64" where "int_flag n = scast (bit_flag n)"

definition init_flags :: "(string \<times> u64) list" where
  "init_flags =
    [(''FUSE_ASYNC_READ'', int_flag 0), (''FUSE_POSIX_LOCKS'', int_flag 1),
     (''FUSE_FILE_OPS'', int_flag 2), (''FUSE_ATOMIC_O_TRUNC'', int_flag 3),
     (''FUSE_EXPORT_SUPPORT'', int_flag 4), (''FUSE_BIG_WRITES'', int_flag 5),
     (''FUSE_DONT_MASK'', int_flag 6), (''FUSE_SPLICE_WRITE'', int_flag 7),
     (''FUSE_SPLICE_MOVE'', int_flag 8), (''FUSE_SPLICE_READ'', int_flag 9),
     (''FUSE_FLOCK_LOCKS'', int_flag 10), (''FUSE_HAS_IOCTL_DIR'', int_flag 11),
     (''FUSE_AUTO_INVAL_DATA'', int_flag 12), (''FUSE_DO_READDIRPLUS'', int_flag 13),
     (''FUSE_READDIRPLUS_AUTO'', int_flag 14), (''FUSE_ASYNC_DIO'', int_flag 15),
     (''FUSE_WRITEBACK_CACHE'', int_flag 16), (''FUSE_NO_OPEN_SUPPORT'', int_flag 17),
     (''FUSE_PARALLEL_DIROPS'', int_flag 18), (''FUSE_HANDLE_KILLPRIV'', int_flag 19),
     (''FUSE_POSIX_ACL'', int_flag 20), (''FUSE_ABORT_ERROR'', int_flag 21),
     (''FUSE_MAX_PAGES'', int_flag 22), (''FUSE_CACHE_SYMLINKS'', int_flag 23),
     (''FUSE_NO_OPENDIR_SUPPORT'', int_flag 24), (''FUSE_EXPLICIT_INVAL_DATA'', int_flag 25),
     (''FUSE_MAP_ALIGNMENT'', int_flag 26), (''FUSE_SUBMOUNTS'', int_flag 27),
     (''FUSE_HANDLE_KILLPRIV_V2'', int_flag 28), (''FUSE_SETXATTR_EXT'', int_flag 29),
     (''FUSE_INIT_EXT'', int_flag 30), (''FUSE_INIT_RESERVED'', int_flag 31),
     (''FUSE_SECURITY_CTX'', push_bit 32 1), (''FUSE_HAS_INODE_DAX'', push_bit 33 1),
     (''FUSE_CREATE_SUPP_GROUP'', push_bit 34 1), (''FUSE_HAS_EXPIRE_ONLY'', push_bit 35 1),
     (''FUSE_DIRECT_IO_ALLOW_MMAP'', push_bit 36 1), (''FUSE_PASSTHROUGH'', push_bit 37 1),
     (''FUSE_NO_EXPORT_SUPPORT'', push_bit 38 1), (''FUSE_HAS_RESEND'', push_bit 39 1),
     (''FUSE_ALLOW_IDMAP'', push_bit 40 1), (''FUSE_OVER_IO_URING'', push_bit 41 1),
     (''FUSE_REQUEST_TIMEOUT'', push_bit 42 1), (''FUSE_OVER_IO_URING_NOTIFY'', push_bit 43 1)]"

definition FUSE_DIRECT_IO_RELAX :: u64 where "FUSE_DIRECT_IO_RELAX = push_bit 36 1"
definition FUSE_WRITE_KILL_PRIV :: i32 where "FUSE_WRITE_KILL_PRIV = bit_flag 2"

text \<open>The open flags of the public header \<open>types.hpp\<close>.\<close>

definition open_flags :: "(string \<times> u32) list" where
  "open_flags =
    [(''direct_io'', push_bit 0 1), (''keep_cache'', push_bit 1 1), (''nonseekable'', push_bit 2 1), (''cache_dir'', push_bit 3 1)]"

subsection \<open>Enumerations and constants\<close>

datatype fuse_ext_type = FUSE_MAX_NR_SECCTX | FUSE_EXT_GROUPS

fun ext_type_val :: "fuse_ext_type \<Rightarrow> u32" where
  "ext_type_val FUSE_MAX_NR_SECCTX = 31"
| "ext_type_val FUSE_EXT_GROUPS = 32"

datatype fuse_notify_code =
    FUSE_NOTIFY_POLL | FUSE_NOTIFY_INVAL_INODE | FUSE_NOTIFY_INVAL_ENTRY | FUSE_NOTIFY_STORE | FUSE_NOTIFY_RETRIEVE
  | FUSE_NOTIFY_DELETE | FUSE_NOTIFY_RESEND | FUSE_NOTIFY_INC_EPOCH | FUSE_NOTIFY_PRUNE

fun notify_code_val :: "fuse_notify_code \<Rightarrow> u32" where
  "notify_code_val FUSE_NOTIFY_POLL = 1"
| "notify_code_val FUSE_NOTIFY_INVAL_INODE = 2"
| "notify_code_val FUSE_NOTIFY_INVAL_ENTRY = 3"
| "notify_code_val FUSE_NOTIFY_STORE = 4"
| "notify_code_val FUSE_NOTIFY_RETRIEVE = 5"
| "notify_code_val FUSE_NOTIFY_DELETE = 6"
| "notify_code_val FUSE_NOTIFY_RESEND = 7"
| "notify_code_val FUSE_NOTIFY_INC_EPOCH = 8"
| "notify_code_val FUSE_NOTIFY_PRUNE = 9"

datatype fuse_mkobjx_flags = FUSE_MKOBJX_TMPFILE

fun mkobjx_flag_val :: "fuse_mkobjx_flags \<Rightarrow> u32" where
  "mkobjx_flag_val FUSE_MKOBJX_TMPFILE = push_bit 0 1"

datatype fuse_uring_cmd = URING_CMD_INVALID | URING_CMD_REGISTER | URING_CMD_COMMIT_AND_FETCH | URING_CMD_NOTIFY

fun uring_cmd_val :: "fuse_uring_cmd \<Rightarrow> u32" where
  "uring_cmd_val URING_CMD_INVALID = 0"
| "uring_cmd_val URING_CMD_REGISTER = 1"
| "uring_cmd_val URING_CMD_COMMIT_AND_FETCH = 2"
| "uring_cmd_val URING_CMD_NOTIFY = 3"

definition FUSE_ROOT_ID :: u64 where "FUSE_ROOT_ID = 1"
definition FUSE_IOCTL_MAX_IOV :: nat where "FUSE_IOCTL_MAX_IOV = 256"
definition FUSE_MIN_READ_BUFFER :: nat where "FUSE_MIN_READ_BUFFER = 8192"
definition CUSE_INIT_INFO_MAX :: nat where "CUSE_INIT_INFO_MAX = 4096"
definition FUSE_UNIQUE_RESEND :: u64 where "FUSE_UNIQUE_RESEND = push_bit 63 1"
definition FUSE_INVALID_UIDGID :: u32 where "FUSE_INVALID_UIDGID = -1"

definition FUSE_COMPAT_ENTRY_OUT_SIZE :: nat where "FUSE_COMPAT_ENTRY_OUT_SIZE = 120"
definition FUSE_COMPAT_ATTR_OUT_SIZE :: nat where "FUSE_COMPAT_ATTR_OUT_SIZE = 96"
definition FUSE_COMPAT_MKNOD_IN_SIZE :: nat where "FUSE_COMPAT_MKNOD_IN_SIZE = 8"
definition FUSE_COMPAT_WRITE_IN_SIZE :: nat where "FUSE_COMPAT_WRITE_IN_SIZE = 24"
definition FUSE_COMPAT_STATFS_SIZE :: nat where "FUSE_COMPAT_STATFS_SIZE = 48"
definition FUSE_COMPAT_SETXATTR_IN_SIZE :: nat where "FUSE_COMPAT_SETXATTR_IN_SIZE = 8"
definition FUSE_COMPAT_INIT_OUT_SIZE :: nat where "FUSE_COMPAT_INIT_OUT_SIZE = 8"
definition FUSE_COMPAT_22_INIT_OUT_SIZE :: nat where "FUSE_COMPAT_22_INIT_OUT_SIZE = 24"

text \<open>The macros over them; \<open>_IOC\<close> packs direction, size, type and number of a device command.\<close>

definition FUSE_NAME_OFFSET :: "nat option" where
  "FUSE_NAME_OFFSET = c_offsetof 8 fuse_dirent_c ''name''"

definition FUSE_NAME_OFFSET_DIRENTPLUS :: "nat option" where
  "FUSE_NAME_OFFSET_DIRENTPLUS = (case (c_offsetof 8 fuse_direntplus_c ''dirent'', FUSE_NAME_OFFSET) of
     (Some a, Some b) \<Rightarrow> Some (a + b) | _ \<Rightarrow> None)"

definition FUSE_DIRENTPLUS_SIZE :: "nat \<Rightarrow> nat option" where
  "FUSE_DIRENTPLUS_SIZE namelen = map_option (\<lambda>off. FUSE_REC_ALIGN (off + namelen)) FUSE_NAME_OFFSET_DIRENTPLUS"

definition FUSE_REMOVEMAPPING_MAX_ENTRY :: "nat \<Rightarrow> nat" where
  "FUSE_REMOVEMAPPING_MAX_ENTRY page_size = page_size div c_sizeof 8 fuse_removemapping_one_c"

definition FUSE_DEV_IOC_MAGIC :: u32 where "FUSE_DEV_IOC_MAGIC = 229"

definition IOC :: "u32 \<Rightarrow> u32 \<Rightarrow> u32 \<Rightarrow> nat \<Rightarrow> u32" where
  "IOC dir ty nr sz = push_bit 30 dir OR push_bit 16 (of_nat sz) OR push_bit 8 ty OR nr"

definition FUSE_DEV_IOC_CLONE :: u32 where
  "FUSE_DEV_IOC_CLONE = IOC 2 FUSE_DEV_IOC_MAGIC 0 (c_size 8 C_uint32)"
definition FUSE_DEV_IOC_BACKING_OPEN :: u32 where
  "FUSE_DEV_IOC_BACKING_OPEN = IOC 1 FUSE_DEV_IOC_MAGIC 1 (c_sizeof 8 fuse_backing_map_c)"
definition FUSE_DEV_IOC_BACKING_CLOSE :: u32 where
  "FUSE_DEV_IOC_BACKING_CLOSE = IOC 1 FUSE_DEV_IOC_MAGIC 2 (c_size 8 C_uint32)"
definition FUSE_DEV_IOC_SYNC_INIT :: u32 where
  "FUSE_DEV_IOC_SYNC_INIT = IOC 0 FUSE_DEV_IOC_MAGIC 3 0"

end
