(* ===== verification/Fuse_Layout.thy ===== *)
theory Fuse_Layout
  imports Fuse_Header
begin

text \<open>
  The declarations of \<open>fuse_uapi.h\<close> as \<open>Fuse_Header\<close> has them: their layout is the same on 32-bit
  and 64-bit machines, keeps what the comments of the header promise, and is the one the
  encoders of \<open>Fuse_Abi\<close> produce; the flags of a group do not overlap.
\<close>

unbundle bit_operations_syntax

subsection \<open>The encoders\<close>

text \<open>Without gaps the image is the concatenation of the members.\<close>

lemma members_packed:
  assumes "packed_from a pos fs" "map length vs = map (c_size a \<circ> snd) fs"
  shows "c_members a pos fs vs = Some (concat vs)"
  using assms
proof (induction a pos fs arbitrary: vs rule: packed_from.induct)
  case (2 a pos n t fs)
  then obtain v vs' where "vs = v # vs'" by (cases vs) auto
  with 2 show ?case by (simp add: Let_def zeros_def)
qed simp

lemma image_packed:
  assumes "c_packed a fs" "map length vs = map (c_size a \<circ> snd) fs" "concat vs = bs"
  shows "c_image a fs vs = Some bs"
  using assms members_packed [of a 0 fs vs] by (simp add: c_image_def c_packed_def zeros_def)

lemma zeros_join: "zeros 0 = []" "zeros m @ zeros n = zeros (m + n)" "zeros m @ zeros n @ xs = zeros (m + n) @ xs"
  by (simp_all add: zeros_def replicate_add)

lemma nested_layouts [simp]:
  "c_end 8 0 fuse_sx_time_c = 16" "c_aligns 8 fuse_sx_time_c = 8" "c_end 8 0 fuse_statx_c = 256" "c_aligns 8 fuse_statx_c = 8"
  by code_simp+

lemma round_up_nested [simp]: "round_up 16 8 = 16" "round_up 256 8 = 256"
  by (simp_all add: round_up_def)

lemma packed_fuse_sx_time: "c_packed 8 fuse_sx_time_c"
  by code_simp

lemma layout_fuse_sx_time:
  "c_image 8 fuse_sx_time_c
     [put64 (sxt_tv_sec x), put32 (sxt_tv_nsec x), zeros 4] = Some (put_fuse_sx_time x)"
  by (rule image_packed [OF packed_fuse_sx_time]) (simp_all add: fuse_sx_time_c_def put_fuse_sx_time_def zeros_join)

lemma packed_fuse_statx: "c_packed 8 fuse_statx_c"
  by code_simp

lemma layout_fuse_statx:
  "c_image 8 fuse_statx_c
     [put32 (sx_mask x), put32 (sx_blksize x), put64 (sx_attributes x), put32 (sx_nlink x),
      put32 (sx_uid x), put32 (sx_gid x), put16 (sx_mode x), zeros 2, put64 (sx_ino x),
      put64 (sx_size x), put64 (sx_blocks x), put64 (sx_attributes_mask x),
      put_fuse_sx_time (sx_atime x), put_fuse_sx_time (sx_btime x), put_fuse_sx_time (sx_ctime x),
      put_fuse_sx_time (sx_mtime x), put32 (sx_rdev_major x), put32 (sx_rdev_minor x),
      put32 (sx_dev_major x), put32 (sx_dev_minor x), zeros 112] = Some (put_fuse_statx x)"
  by (rule image_packed [OF packed_fuse_statx]) (simp_all add: fuse_statx_c_def put_fuse_statx_def zeros_join)

lemma packed_fuse_kstatfs: "c_packed 8 fuse_kstatfs_c"
  by code_simp

lemma layout_fuse_kstatfs:
  "c_image 8 fuse_kstatfs_c
     [put64 (ksf_blocks x), put64 (ksf_bfree x), put64 (ksf_bavail x), put64 (ksf_files x),
      put64 (ksf_ffree x), put32 (ksf_bsize x), put32 (ksf_namelen x), put32 (ksf_frsize x),
      zeros 4, zeros 24] = Some (put_fuse_kstatfs x)"
  by (rule image_packed [OF packed_fuse_kstatfs]) (simp_all add: fuse_kstatfs_c_def put_fuse_kstatfs_def zeros_join)

lemma packed_fuse_entryx_out: "c_packed 8 fuse_entryx_out_c"
  by code_simp

lemma layout_fuse_entryx_out:
  "c_image 8 fuse_entryx_out_c
     [put64 (ex_nodeid x), put64 (ex_entry_valid x), put32 (ex_entry_valid_nsec x),
      put32 (ex_flags x), zeros 8] = Some (put_fuse_entryx_out x)"
  by (rule image_packed [OF packed_fuse_entryx_out]) (simp_all add: fuse_entryx_out_c_def put_fuse_entryx_out_def zeros_join)

lemma packed_fuse_forget_in: "c_packed 8 fuse_forget_in_c"
  by code_simp

lemma layout_fuse_forget_in:
  "c_image 8 fuse_forget_in_c
     [put64 (fgi_nlookup x)] = Some (put_fuse_forget_in x)"
  by (rule image_packed [OF packed_fuse_forget_in]) (simp_all add: fuse_forget_in_c_def put_fuse_forget_in_def zeros_join)

lemma packed_fuse_forget_one: "c_packed 8 fuse_forget_one_c"
  by code_simp

lemma layout_fuse_forget_one:
  "c_image 8 fuse_forget_one_c
     [put64 (fgo_nodeid x), put64 (fgo_nlookup x)] = Some (put_fuse_forget_one x)"
  by (rule image_packed [OF packed_fuse_forget_one]) (simp_all add: fuse_forget_one_c_def put_fuse_forget_one_def zeros_join)

lemma packed_fuse_batch_forget_in: "c_packed 8 fuse_batch_forget_in_c"
  by code_simp

lemma layout_fuse_batch_forget_in:
  "c_image 8 fuse_batch_forget_in_c
     [put32 (bfi_count x), zeros 4] = Some (put_fuse_batch_forget_in x)"
  by (rule image_packed [OF packed_fuse_batch_forget_in]) (simp_all add: fuse_batch_forget_in_c_def put_fuse_batch_forget_in_def zeros_join)

lemma packed_fuse_statx_in: "c_packed 8 fuse_statx_in_c"
  by code_simp

lemma layout_fuse_statx_in:
  "c_image 8 fuse_statx_in_c
     [put32 (sxi_getattr_flags x), zeros 4, put64 (sxi_fh x), put32 (sxi_sx_flags x),
      put32 (sxi_sx_mask x)] = Some (put_fuse_statx_in x)"
  by (rule image_packed [OF packed_fuse_statx_in]) (simp_all add: fuse_statx_in_c_def put_fuse_statx_in_def zeros_join)

lemma packed_fuse_statx_out: "c_packed 8 fuse_statx_out_c"
  by code_simp

lemma layout_fuse_statx_out:
  "c_image 8 fuse_statx_out_c
     [put64 (sxo_attr_valid x), put32 (sxo_attr_valid_nsec x), put32 (sxo_flags x), zeros 16,
      put_fuse_statx (sxo_stat x)] = Some (put_fuse_statx_out x)"
  by (rule image_packed [OF packed_fuse_statx_out]) (simp_all add: fuse_statx_out_c_def put_fuse_statx_out_def zeros_join)

lemma packed_fuse_mkobjx_in: "c_packed 8 fuse_mkobjx_in_c"
  by code_simp

lemma layout_fuse_mkobjx_in:
  "c_image 8 fuse_mkobjx_in_c
     [put32 (mki_namesize x), put32 (mki_flags x), zeros 56, put_fuse_statx (mki_stat x)] = Some (put_fuse_mkobjx_in x)"
  by (rule image_packed [OF packed_fuse_mkobjx_in]) (simp_all add: fuse_mkobjx_in_c_def put_fuse_mkobjx_in_def zeros_join)

lemma packed_fuse_rename2_in: "c_packed 8 fuse_rename2_in_c"
  by code_simp

lemma layout_fuse_rename2_in:
  "c_image 8 fuse_rename2_in_c
     [put64 (rni_newdir x), put32 (rni_flags x), zeros 4] = Some (put_fuse_rename2_in x)"
  by (rule image_packed [OF packed_fuse_rename2_in]) (simp_all add: fuse_rename2_in_c_def put_fuse_rename2_in_def zeros_join)

lemma packed_fuse_link_in: "c_packed 8 fuse_link_in_c"
  by code_simp

lemma layout_fuse_link_in:
  "c_image 8 fuse_link_in_c
     [put64 (lni_oldnodeid x)] = Some (put_fuse_link_in x)"
  by (rule image_packed [OF packed_fuse_link_in]) (simp_all add: fuse_link_in_c_def put_fuse_link_in_def zeros_join)

lemma packed_fuse_setstatx_in: "c_packed 8 fuse_setstatx_in_c"
  by code_simp

lemma layout_fuse_setstatx_in:
  "c_image 8 fuse_setstatx_in_c
     [put64 (ssi_fh x), put32 (ssi_flags x), zeros 4, put_fuse_statx (ssi_stat x)] = Some (put_fuse_setstatx_in x)"
  by (rule image_packed [OF packed_fuse_setstatx_in]) (simp_all add: fuse_setstatx_in_c_def put_fuse_setstatx_in_def zeros_join)

lemma packed_fuse_open_in: "c_packed 8 fuse_open_in_c"
  by code_simp

lemma layout_fuse_open_in:
  "c_image 8 fuse_open_in_c
     [put32 (opi_flags x), put32 (opi_open_flags x)] = Some (put_fuse_open_in x)"
  by (rule image_packed [OF packed_fuse_open_in]) (simp_all add: fuse_open_in_c_def put_fuse_open_in_def zeros_join)

lemma packed_fuse_open_out: "c_packed 8 fuse_open_out_c"
  by code_simp

lemma layout_fuse_open_out:
  "c_image 8 fuse_open_out_c
     [put64 (opo_fh x), put32 (opo_open_flags x), put32 (opo_backing_id x)] = Some (put_fuse_open_out x)"
  by (rule image_packed [OF packed_fuse_open_out]) (simp_all add: fuse_open_out_c_def put_fuse_open_out_def zeros_join)

lemma packed_fuse_release_in: "c_packed 8 fuse_release_in_c"
  by code_simp

lemma layout_fuse_release_in:
  "c_image 8 fuse_release_in_c
     [put64 (rli_fh x), put32 (rli_flags x), put32 (rli_release_flags x), put64 (rli_lock_owner x)] = Some (put_fuse_release_in x)"
  by (rule image_packed [OF packed_fuse_release_in]) (simp_all add: fuse_release_in_c_def put_fuse_release_in_def zeros_join)

lemma packed_fuse_read_in: "c_packed 8 fuse_read_in_c"
  by code_simp

lemma layout_fuse_read_in:
  "c_image 8 fuse_read_in_c
     [put64 (rdi_fh x), put64 (rdi_offset x), put32 (rdi_size x), put32 (rdi_read_flags x),
      put64 (rdi_lock_owner x), put32 (rdi_flags x), zeros 4] = Some (put_fuse_read_in x)"
  by (rule image_packed [OF packed_fuse_read_in]) (simp_all add: fuse_read_in_c_def put_fuse_read_in_def zeros_join)

lemma packed_fuse_write_in: "c_packed 8 fuse_write_in_c"
  by code_simp

lemma layout_fuse_write_in:
  "c_image 8 fuse_write_in_c
     [put64 (wri_fh x), put64 (wri_offset x), put32 (wri_size x), put32 (wri_write_flags x),
      put64 (wri_lock_owner x), put32 (wri_flags x), zeros 4] = Some (put_fuse_write_in x)"
  by (rule image_packed [OF packed_fuse_write_in]) (simp_all add: fuse_write_in_c_def put_fuse_write_in_def zeros_join)

lemma packed_fuse_write_out: "c_packed 8 fuse_write_out_c"
  by code_simp

lemma layout_fuse_write_out:
  "c_image 8 fuse_write_out_c
     [put32 (wro_size x), zeros 4] = Some (put_fuse_write_out x)"
  by (rule image_packed [OF packed_fuse_write_out]) (simp_all add: fuse_write_out_c_def put_fuse_write_out_def zeros_join)

lemma packed_fuse_setxattr_in: "c_packed 8 fuse_setxattr_in_c"
  by code_simp

lemma layout_fuse_setxattr_in:
  "c_image 8 fuse_setxattr_in_c
     [put32 (sai_size x), put32 (sai_flags x), put32 (sai_setxattr_flags x), zeros 4] = Some (put_fuse_setxattr_in x)"
  by (rule image_packed [OF packed_fuse_setxattr_in]) (simp_all add: fuse_setxattr_in_c_def put_fuse_setxattr_in_def zeros_join)

lemma packed_fuse_getxattr_in: "c_packed 8 fuse_getxattr_in_c"
  by code_simp

lemma layout_fuse_getxattr_in:
  "c_image 8 fuse_getxattr_in_c
     [put32 (gai_size x), zeros 4] = Some (put_fuse_getxattr_in x)"
  by (rule image_packed [OF packed_fuse_getxattr_in]) (simp_all add: fuse_getxattr_in_c_def put_fuse_getxattr_in_def zeros_join)

lemma packed_fuse_getxattr_out: "c_packed 8 fuse_getxattr_out_c"
  by code_simp

lemma layout_fuse_getxattr_out:
  "c_image 8 fuse_getxattr_out_c
     [put32 (gao_size x), zeros 4] = Some (put_fuse_getxattr_out x)"
  by (rule image_packed [OF packed_fuse_getxattr_out]) (simp_all add: fuse_getxattr_out_c_def put_fuse_getxattr_out_def zeros_join)

lemma packed_fuse_init_in: "c_packed 8 fuse_init_in_c"
  by code_simp

lemma layout_fuse_init_in:
  "c_image 8 fuse_init_in_c
     [put32 (ini_major x), put32 (ini_minor x), put32 (ini_max_readahead x), put32 (ini_flags x),
      put32 (ini_flags2 x), zeros 44] = Some (put_fuse_init_in x)"
  by (rule image_packed [OF packed_fuse_init_in]) (simp_all add: fuse_init_in_c_def put_fuse_init_in_def zeros_join)

lemma packed_fuse_init_out: "c_packed 8 fuse_init_out_c"
  by code_simp

lemma layout_fuse_init_out:
  "c_image 8 fuse_init_out_c
     [put32 (ino_major x), put32 (ino_minor x), put32 (ino_max_readahead x), put32 (ino_flags x),
      put16 (ino_max_background x), put16 (ino_congestion_threshold x), put32 (ino_max_write x),
      put32 (ino_time_gran x), put16 (ino_max_pages x), put16 (ino_map_alignment x),
      put32 (ino_flags2 x), put32 (ino_max_stack_depth x), put16 (ino_request_timeout x), zeros 22] = Some (put_fuse_init_out x)"
  by (rule image_packed [OF packed_fuse_init_out]) (simp_all add: fuse_init_out_c_def put_fuse_init_out_def zeros_join)

lemma packed_fuse_fallocate_in: "c_packed 8 fuse_fallocate_in_c"
  by code_simp

lemma layout_fuse_fallocate_in:
  "c_image 8 fuse_fallocate_in_c
     [put64 (fai_fh x), put64 (fai_offset x), put64 (fai_length x), put32 (fai_mode x), zeros 4] = Some (put_fuse_fallocate_in x)"
  by (rule image_packed [OF packed_fuse_fallocate_in]) (simp_all add: fuse_fallocate_in_c_def put_fuse_fallocate_in_def zeros_join)

lemma packed_fuse_in_header: "c_packed 8 fuse_in_header_c"
  by code_simp

lemma layout_fuse_in_header:
  "c_image 8 fuse_in_header_c
     [put32 (ih_len x), put32 (ih_opcode x), put64 (ih_unique x), put64 (ih_nodeid x),
      put32 (ih_uid x), put32 (ih_gid x), put32 (ih_pid x), put16 (ih_total_extlen x), zeros 2] = Some (put_fuse_in_header x)"
  by (rule image_packed [OF packed_fuse_in_header]) (simp_all add: fuse_in_header_c_def put_fuse_in_header_def zeros_join)

lemma packed_fuse_out_header: "c_packed 8 fuse_out_header_c"
  by code_simp

lemma layout_fuse_out_header:
  "c_image 8 fuse_out_header_c
     [put32 (oh_len x), put32 (oh_error x), put64 (oh_unique x)] = Some (put_fuse_out_header x)"
  by (rule image_packed [OF packed_fuse_out_header]) (simp_all add: fuse_out_header_c_def put_fuse_out_header_def zeros_join)

lemma packed_fuse_dirent: "c_packed 8 fuse_dirent_c"
  by code_simp

lemma layout_fuse_dirent:
  "c_image 8 fuse_dirent_c
     [put64 (de_ino x), put64 (de_off x), put32 (de_namelen x), put32 (de_type x), []] = Some (put_fuse_dirent x)"
  by (rule image_packed [OF packed_fuse_dirent]) (simp_all add: fuse_dirent_c_def put_fuse_dirent_def zeros_join)

lemma packed_fuse_compound_req_in: "c_packed 8 fuse_compound_req_in_c"
  by code_simp

lemma layout_fuse_compound_req_in:
  "c_image 8 fuse_compound_req_in_c
     [put8 (cri_dep_index x), zeros 3] = Some (put_fuse_compound_req_in x)"
  by (rule image_packed [OF packed_fuse_compound_req_in]) (simp_all add: fuse_compound_req_in_c_def put_fuse_compound_req_in_def zeros_join)

lemma packed_fuse_uring_ent_in_out: "c_packed 8 fuse_uring_ent_in_out_c"
  by code_simp

lemma layout_fuse_uring_ent_in_out:
  "c_image 8 fuse_uring_ent_in_out_c
     [put64 (ent_flags x), put64 (ent_commit_id x), put32 (ent_payload_sz x), zeros 4, zeros 8] = Some (put_fuse_uring_ent_in_out x)"
  by (rule image_packed [OF packed_fuse_uring_ent_in_out]) (simp_all add: fuse_uring_ent_in_out_c_def put_fuse_uring_ent_in_out_def zeros_join)

lemma packed_fuse_uring_cmd_req: "c_packed 8 fuse_uring_cmd_req_c"
  by code_simp

lemma layout_fuse_uring_cmd_req:
  "c_image 8 fuse_uring_cmd_req_c
     [put64 (ucr_flags x), put64 (ucr_commit_id x), put16 (ucr_qid x), zeros 6] = Some (put_fuse_uring_cmd_req x)"
  by (rule image_packed [OF packed_fuse_uring_cmd_req]) (simp_all add: fuse_uring_cmd_req_c_def put_fuse_uring_cmd_req_def zeros_join)

subsection \<open>Flags\<close>

fun disjoint_flags :: "(string \<times> 'a :: len word) list \<Rightarrow> bool" where
  "disjoint_flags [] = True"
| "disjoint_flags ((n, x) # fs) = (x \<noteq> 0 \<and> list_all (\<lambda>(n', y). x AND y = 0) fs \<and> disjoint_flags fs)"

lemma push_bits_disjoint: "m \<noteq> n \<Longrightarrow> push_bit m 1 AND push_bit n (1 :: 'a :: len word) = 0"
  by (rule bit_word_eqI) (auto simp: bit_simps)

lemma push_bits_low:
  "0 < n \<Longrightarrow> 1 AND push_bit n (1 :: 'a :: len word) = 0" "n \<noteq> 1 \<Longrightarrow> 2 AND push_bit n (1 :: 'a :: len word) = 0"
  using push_bits_disjoint [of 0 n] push_bits_disjoint [of 1 n] by (simp_all add: push_bit_eq_mult)

lemma push_bit_nonzero: "push_bit n (1 :: 'a :: len word) = 0 \<longleftrightarrow> LENGTH('a) \<le> n"
  by (auto simp: push_bit_eq_mult)

lemma int_flag_bit: "n < 31 \<Longrightarrow> int_flag n = push_bit n 1"
  unfolding int_flag_def bit_flag_def by (rule bit_word_eqI) (auto simp: bit_simps)

lemma int_flag_sign: "int_flag 31 = 0xffffffff80000000"
  by (simp add: int_flag_def bit_flag_def)

lemmas flag_simps = push_bits_disjoint push_bits_low push_bit_nonzero int_flag_bit bit_flag_def

subsection \<open>Properties\<close>

definition unpadded_structs :: "string list" where
  "unpadded_structs = [''fuse_removemapping_in'', ''fuse_supp_groups'', ''fuse_compound_req_in'']"

text \<open>
  C27. The declarations mean the same to 32-bit and 64-bit programs: every structure of the header
  has the same size and the same offsets with 64-bit integers aligned to 8 and to 4 bytes, has
  no implicit padding, and is a multiple of 8 bytes long, as the header's comment demands
  of all of them, except for three that are 4 bytes long.
\<close>

theorem abi_portable:
  "list_all (\<lambda>(n, fs). c_sizeof 8 fs = c_sizeof 4 fs \<and> c_offsets 8 0 fs = c_offsets 4 0 fs \<and> c_packed 8 fs \<and>
     c_sizeof 8 fs mod 8 = (if n \<in> set unpadded_structs then 4 else 0)) fuse_structs"
  by code_simp


text \<open>
  C26. The encoders are the C layout: for each of the 31 structures that the library reads or
  writes, the bytes of the encoder are the image of the declared structure, with every
  member of the right width at the offset that the C ABI gives it.
\<close>

theorem codec_layouts:
  "c_image 8 fuse_sx_time_c
     [put64 (sxt_tv_sec x0), put32 (sxt_tv_nsec x0), zeros 4] = Some (put_fuse_sx_time x0) \<and>
   c_image 8 fuse_statx_c
     [put32 (sx_mask x1), put32 (sx_blksize x1), put64 (sx_attributes x1), put32 (sx_nlink x1),
      put32 (sx_uid x1), put32 (sx_gid x1), put16 (sx_mode x1), zeros 2, put64 (sx_ino x1),
      put64 (sx_size x1), put64 (sx_blocks x1), put64 (sx_attributes_mask x1),
      put_fuse_sx_time (sx_atime x1), put_fuse_sx_time (sx_btime x1),
      put_fuse_sx_time (sx_ctime x1), put_fuse_sx_time (sx_mtime x1), put32 (sx_rdev_major x1),
      put32 (sx_rdev_minor x1), put32 (sx_dev_major x1), put32 (sx_dev_minor x1), zeros 112] = Some (put_fuse_statx x1) \<and>
   c_image 8 fuse_kstatfs_c
     [put64 (ksf_blocks x2), put64 (ksf_bfree x2), put64 (ksf_bavail x2), put64 (ksf_files x2),
      put64 (ksf_ffree x2), put32 (ksf_bsize x2), put32 (ksf_namelen x2), put32 (ksf_frsize x2),
      zeros 4, zeros 24] = Some (put_fuse_kstatfs x2) \<and>
   c_image 8 fuse_entryx_out_c
     [put64 (ex_nodeid x3), put64 (ex_entry_valid x3), put32 (ex_entry_valid_nsec x3),
      put32 (ex_flags x3), zeros 8] = Some (put_fuse_entryx_out x3) \<and>
   c_image 8 fuse_forget_in_c
     [put64 (fgi_nlookup x4)] = Some (put_fuse_forget_in x4) \<and>
   c_image 8 fuse_forget_one_c
     [put64 (fgo_nodeid x5), put64 (fgo_nlookup x5)] = Some (put_fuse_forget_one x5) \<and>
   c_image 8 fuse_batch_forget_in_c
     [put32 (bfi_count x6), zeros 4] = Some (put_fuse_batch_forget_in x6) \<and>
   c_image 8 fuse_statx_in_c
     [put32 (sxi_getattr_flags x7), zeros 4, put64 (sxi_fh x7), put32 (sxi_sx_flags x7),
      put32 (sxi_sx_mask x7)] = Some (put_fuse_statx_in x7) \<and>
   c_image 8 fuse_statx_out_c
     [put64 (sxo_attr_valid x8), put32 (sxo_attr_valid_nsec x8), put32 (sxo_flags x8), zeros 16,
      put_fuse_statx (sxo_stat x8)] = Some (put_fuse_statx_out x8) \<and>
   c_image 8 fuse_mkobjx_in_c
     [put32 (mki_namesize x9), put32 (mki_flags x9), zeros 56, put_fuse_statx (mki_stat x9)] = Some (put_fuse_mkobjx_in x9) \<and>
   c_image 8 fuse_rename2_in_c
     [put64 (rni_newdir x10), put32 (rni_flags x10), zeros 4] = Some (put_fuse_rename2_in x10) \<and>
   c_image 8 fuse_link_in_c
     [put64 (lni_oldnodeid x11)] = Some (put_fuse_link_in x11) \<and>
   c_image 8 fuse_setstatx_in_c
     [put64 (ssi_fh x12), put32 (ssi_flags x12), zeros 4, put_fuse_statx (ssi_stat x12)] = Some (put_fuse_setstatx_in x12) \<and>
   c_image 8 fuse_open_in_c
     [put32 (opi_flags x13), put32 (opi_open_flags x13)] = Some (put_fuse_open_in x13) \<and>
   c_image 8 fuse_open_out_c
     [put64 (opo_fh x14), put32 (opo_open_flags x14), put32 (opo_backing_id x14)] = Some (put_fuse_open_out x14) \<and>
   c_image 8 fuse_release_in_c
     [put64 (rli_fh x15), put32 (rli_flags x15), put32 (rli_release_flags x15),
      put64 (rli_lock_owner x15)] = Some (put_fuse_release_in x15) \<and>
   c_image 8 fuse_read_in_c
     [put64 (rdi_fh x16), put64 (rdi_offset x16), put32 (rdi_size x16), put32 (rdi_read_flags x16),
      put64 (rdi_lock_owner x16), put32 (rdi_flags x16), zeros 4] = Some (put_fuse_read_in x16) \<and>
   c_image 8 fuse_write_in_c
     [put64 (wri_fh x17), put64 (wri_offset x17), put32 (wri_size x17),
      put32 (wri_write_flags x17), put64 (wri_lock_owner x17), put32 (wri_flags x17), zeros 4] = Some (put_fuse_write_in x17) \<and>
   c_image 8 fuse_write_out_c
     [put32 (wro_size x18), zeros 4] = Some (put_fuse_write_out x18) \<and>
   c_image 8 fuse_setxattr_in_c
     [put32 (sai_size x19), put32 (sai_flags x19), put32 (sai_setxattr_flags x19), zeros 4] = Some (put_fuse_setxattr_in x19) \<and>
   c_image 8 fuse_getxattr_in_c
     [put32 (gai_size x20), zeros 4] = Some (put_fuse_getxattr_in x20) \<and>
   c_image 8 fuse_getxattr_out_c
     [put32 (gao_size x21), zeros 4] = Some (put_fuse_getxattr_out x21) \<and>
   c_image 8 fuse_init_in_c
     [put32 (ini_major x22), put32 (ini_minor x22), put32 (ini_max_readahead x22),
      put32 (ini_flags x22), put32 (ini_flags2 x22), zeros 44] = Some (put_fuse_init_in x22) \<and>
   c_image 8 fuse_init_out_c
     [put32 (ino_major x23), put32 (ino_minor x23), put32 (ino_max_readahead x23),
      put32 (ino_flags x23), put16 (ino_max_background x23), put16 (ino_congestion_threshold x23),
      put32 (ino_max_write x23), put32 (ino_time_gran x23), put16 (ino_max_pages x23),
      put16 (ino_map_alignment x23), put32 (ino_flags2 x23), put32 (ino_max_stack_depth x23),
      put16 (ino_request_timeout x23), zeros 22] = Some (put_fuse_init_out x23) \<and>
   c_image 8 fuse_fallocate_in_c
     [put64 (fai_fh x24), put64 (fai_offset x24), put64 (fai_length x24), put32 (fai_mode x24),
      zeros 4] = Some (put_fuse_fallocate_in x24) \<and>
   c_image 8 fuse_in_header_c
     [put32 (ih_len x25), put32 (ih_opcode x25), put64 (ih_unique x25), put64 (ih_nodeid x25),
      put32 (ih_uid x25), put32 (ih_gid x25), put32 (ih_pid x25), put16 (ih_total_extlen x25),
      zeros 2] = Some (put_fuse_in_header x25) \<and>
   c_image 8 fuse_out_header_c
     [put32 (oh_len x26), put32 (oh_error x26), put64 (oh_unique x26)] = Some (put_fuse_out_header x26) \<and>
   c_image 8 fuse_dirent_c
     [put64 (de_ino x27), put64 (de_off x27), put32 (de_namelen x27), put32 (de_type x27), []] = Some (put_fuse_dirent x27) \<and>
   c_image 8 fuse_compound_req_in_c
     [put8 (cri_dep_index x28), zeros 3] = Some (put_fuse_compound_req_in x28) \<and>
   c_image 8 fuse_uring_ent_in_out_c
     [put64 (ent_flags x29), put64 (ent_commit_id x29), put32 (ent_payload_sz x29), zeros 4, zeros 8] = Some (put_fuse_uring_ent_in_out x29) \<and>
   c_image 8 fuse_uring_cmd_req_c
     [put64 (ucr_flags x30), put64 (ucr_commit_id x30), put16 (ucr_qid x30), zeros 6] = Some (put_fuse_uring_cmd_req x30)"
  by (intro conjI layout_fuse_sx_time layout_fuse_statx layout_fuse_kstatfs layout_fuse_entryx_out
      layout_fuse_forget_in layout_fuse_forget_one layout_fuse_batch_forget_in layout_fuse_statx_in
      layout_fuse_statx_out layout_fuse_mkobjx_in layout_fuse_rename2_in layout_fuse_link_in
      layout_fuse_setstatx_in layout_fuse_open_in layout_fuse_open_out layout_fuse_release_in
      layout_fuse_read_in layout_fuse_write_in layout_fuse_write_out layout_fuse_setxattr_in
      layout_fuse_getxattr_in layout_fuse_getxattr_out layout_fuse_init_in layout_fuse_init_out
      layout_fuse_fallocate_in layout_fuse_in_header layout_fuse_out_header layout_fuse_dirent
      layout_fuse_compound_req_in layout_fuse_uring_ent_in_out layout_fuse_uring_cmd_req)

text \<open>
  The flags of each group do not overlap, so that a flag can be tested on its own. The flags
  of \<open>INIT\<close> are the single bits they are numbered by, except \<open>FUSE_INIT_RESERVED\<close>, which as an
  \<open>int\<close> is negative and in 64 bits covers every flag of \<open>flags2\<close> as well.
\<close>

lemma flags_disjoint:
  "list_all disjoint_flags [fattr_flags, fopen_flags, release_flags, write_flags, ioctl_flags, attr_flags]"
  "disjoint_flags setupmapping_flags" "disjoint_flags open_flags"
  "disjoint_flags (filter (\<lambda>(n, x). n \<noteq> ''FUSE_INIT_RESERVED'') init_flags)"
  by (simp_all add: fattr_flags_def fopen_flags_def release_flags_def write_flags_def ioctl_flags_def attr_flags_def
      setupmapping_flags_def open_flags_def init_flags_def flag_simps del: push_bit_of_1 One_nat_def)

lemma init_flag_values:
  "map_of init_flags ''FUSE_INIT_RESERVED'' = Some 0xffffffff80000000"
  "map_of init_flags ''FUSE_MAX_PAGES'' = Some FUSE_MAX_PAGES"
  "map_of init_flags ''FUSE_OVER_IO_URING'' = Some FUSE_OVER_IO_URING"
  "map_of init_flags ''FUSE_INIT_EXT'' = Some FUSE_INIT_EXT"
  "map_of init_flags ''FUSE_PARALLEL_DIROPS'' = Some FUSE_PARALLEL_DIROPS"
  "map_of init_flags ''FUSE_WRITEBACK_CACHE'' = Some FUSE_WRITEBACK_CACHE"
  by (simp_all add: init_flags_def int_flag_bit int_flag_sign abi_const_defs)

text \<open>The public open flags are those of the protocol; the public ids and commands are those of the header.\<close>

lemma public_constants:
  "map snd open_flags = map (ucast \<circ> snd) (take 4 fopen_flags)" "FUSE_ROOT_ID = NodeId_root"
  "uring_cmd_val URING_CMD_REGISTER = FUSE_IO_URING_CMD_REGISTER"
  "uring_cmd_val URING_CMD_COMMIT_AND_FETCH = FUSE_IO_URING_CMD_COMMIT_AND_FETCH"
  "FUSE_NAME_OFFSET = Some 24" "FUSE_NAME_OFFSET_DIRENTPLUS = Some 152"
proof -
  show "FUSE_NAME_OFFSET = Some 24" "FUSE_NAME_OFFSET_DIRENTPLUS = Some 152" by code_simp+
qed (simp_all add: open_flags_def fopen_flags_def bit_flag_def FUSE_ROOT_ID_def NodeId_root_def abi_const_defs)

end
