(* ===== verification/Filesystem.thy ===== *)
theory Filesystem
  imports Reply
begin

text \<open>
  The callback interface of \<open>include/fex/filesystem.hpp\<close>. A daemon is a record of
  functions over its own state \<open>'s\<close>: each callback takes the state and the call's arguments
  and returns the result and the next state. \<open>std::expected<T, Errc>\<close> is \<^typ>\<open>Errc + 't\<close>.
  A callback that fills a \<open>std::span<std::byte>\<close> takes the bytes of the span and returns
  the bytes it left there; \<open>readdir\<close> takes and returns the \<open>DirentWriter\<close>, and is
  \<^term>\<open>None\<close> if it drove the writer out of bounds.

  The locale \<open>filesystem_contract\<close> is what the C++ types promise the dispatcher: a span
  cannot change its length, and the only thing a daemon can do with a \<open>DirentWriter\<close> is to
  call \<open>add\<close>. The handlers' guarantees are proved inside this locale; the default
  implementations of the base class and the passthrough daemon are interpretations.
\<close>

type_synonym ('s, 't) outcome = "(Errc + 't) \<times> 's"

record 's Filesystem =
  fs_init :: "'s \<Rightarrow> InitInfo \<Rightarrow> (Errc + unit) \<times> InitInfo \<times> 's"
  fs_destroy :: "'s \<Rightarrow> 's"
  fs_lookup_root :: "'s \<Rightarrow> Context \<Rightarrow> ('s, EntryOut) outcome"
  fs_lookupx :: "'s \<Rightarrow> Context \<Rightarrow> NodeId \<Rightarrow> byte list \<Rightarrow> ('s, EntryOut) outcome"
  fs_forget :: "'s \<Rightarrow> NodeId \<Rightarrow> u64 \<Rightarrow> 's"
  fs_forget_multi :: "'s \<Rightarrow> (NodeId \<times> u64) list \<Rightarrow> 's"
  fs_statx :: "'s \<Rightarrow> Context \<Rightarrow> NodeId \<Rightarrow> ('s, StatxOut) outcome"
  fs_setstatx :: "'s \<Rightarrow> Context \<Rightarrow> NodeId \<Rightarrow> FileHandle \<Rightarrow> SetStatxIn \<Rightarrow> ('s, StatxOut) outcome"
  fs_mkobjx :: "'s \<Rightarrow> Context \<Rightarrow> NodeId \<Rightarrow> MkobjxIn \<Rightarrow> ('s, EntryOut) outcome"
  fs_unlink :: "'s \<Rightarrow> Context \<Rightarrow> NodeId \<Rightarrow> byte list \<Rightarrow> ('s, unit) outcome"
  fs_rmdir :: "'s \<Rightarrow> Context \<Rightarrow> NodeId \<Rightarrow> byte list \<Rightarrow> ('s, unit) outcome"
  fs_rename :: "'s \<Rightarrow> Context \<Rightarrow> NodeId \<Rightarrow> byte list \<Rightarrow> NodeId \<Rightarrow> byte list \<Rightarrow> u32 \<Rightarrow>
    ('s, unit) outcome"
  fs_link :: "'s \<Rightarrow> Context \<Rightarrow> NodeId \<Rightarrow> NodeId \<Rightarrow> byte list \<Rightarrow> ('s, unit) outcome"
  fs_readlink :: "'s \<Rightarrow> Context \<Rightarrow> NodeId \<Rightarrow> ('s, byte list) outcome"
  fs_open :: "'s \<Rightarrow> Context \<Rightarrow> NodeId \<Rightarrow> u32 \<Rightarrow> ('s, OpenOut) outcome"
  fs_release :: "'s \<Rightarrow> Context \<Rightarrow> NodeId \<Rightarrow> FileHandle \<Rightarrow> u32 \<Rightarrow> ('s, unit) outcome"
  fs_read :: "'s \<Rightarrow> Context \<Rightarrow> NodeId \<Rightarrow> FileHandle \<Rightarrow> u64 \<Rightarrow> byte list \<Rightarrow>
    (Errc + nat) \<times> byte list \<times> 's"
  fs_write :: "'s \<Rightarrow> Context \<Rightarrow> NodeId \<Rightarrow> FileHandle \<Rightarrow> u64 \<Rightarrow> byte list \<Rightarrow> ('s, nat) outcome"
  fs_fallocate :: "'s \<Rightarrow> Context \<Rightarrow> NodeId \<Rightarrow> FileHandle \<Rightarrow> u32 \<Rightarrow> u64 \<Rightarrow> u64 \<Rightarrow> ('s, unit) outcome"
  fs_statfs :: "'s \<Rightarrow> Context \<Rightarrow> NodeId \<Rightarrow> ('s, StatfsOut) outcome"
  fs_opendir :: "'s \<Rightarrow> Context \<Rightarrow> NodeId \<Rightarrow> ('s, OpenOut) outcome"
  fs_releasedir :: "'s \<Rightarrow> Context \<Rightarrow> NodeId \<Rightarrow> FileHandle \<Rightarrow> ('s, unit) outcome"
  fs_readdir :: "'s \<Rightarrow> Context \<Rightarrow> NodeId \<Rightarrow> FileHandle \<Rightarrow> u64 \<Rightarrow> DirentWriter \<Rightarrow>
    ((Errc + unit) \<times> DirentWriter \<times> 's) option"
  fs_getxattr :: "'s \<Rightarrow> Context \<Rightarrow> NodeId \<Rightarrow> byte list \<Rightarrow> byte list \<Rightarrow> (Errc + nat) \<times> byte list \<times> 's"
  fs_setxattr :: "'s \<Rightarrow> Context \<Rightarrow> NodeId \<Rightarrow> byte list \<Rightarrow> byte list \<Rightarrow> u32 \<Rightarrow> ('s, unit) outcome"
  fs_listxattr :: "'s \<Rightarrow> Context \<Rightarrow> NodeId \<Rightarrow> byte list \<Rightarrow> (Errc + nat) \<times> byte list \<times> 's"
  fs_removexattr :: "'s \<Rightarrow> Context \<Rightarrow> NodeId \<Rightarrow> byte list \<Rightarrow> ('s, unit) outcome"

subsection \<open>Default implementations\<close>

definition default_init :: "'s \<Rightarrow> InitInfo \<Rightarrow> (Errc + unit) \<times> InitInfo \<times> 's" where
  "default_init s info = (Inr (), info, s)"

definition default_destroy :: "'s \<Rightarrow> 's" where
  "default_destroy s = s"

definition default_forget :: "'s \<Rightarrow> NodeId \<Rightarrow> u64 \<Rightarrow> 's" where
  "default_forget s n nlookup = s"

text \<open>\<open>forget_multi\<close> calls the virtual \<open>forget\<close> per entry; \<open>rmdir\<close> calls the virtual \<open>unlink\<close>.\<close>

fun default_forget_multi :: "('s \<Rightarrow> NodeId \<Rightarrow> u64 \<Rightarrow> 's) \<Rightarrow> 's \<Rightarrow> (NodeId \<times> u64) list \<Rightarrow> 's" where
  "default_forget_multi forget s [] = s"
| "default_forget_multi forget s ((n, nl) # items) =
     default_forget_multi forget (forget s n nl) items"

definition default_rmdir ::
    "('s \<Rightarrow> Context \<Rightarrow> NodeId \<Rightarrow> byte list \<Rightarrow> ('s, unit) outcome) \<Rightarrow>
     's \<Rightarrow> Context \<Rightarrow> NodeId \<Rightarrow> byte list \<Rightarrow> ('s, unit) outcome" where
  "default_rmdir unlink s c parent name = unlink s c parent name"

definition not_supported :: "'s \<Rightarrow> ('s, 't) outcome" where
  "not_supported s = (Inl ENOSYS, s)"

text \<open>
  The base class: the three pure virtual callbacks are arguments, everything else has the
  default of the header.
\<close>

definition Filesystem_base ::
    "('s \<Rightarrow> Context \<Rightarrow> ('s, EntryOut) outcome) \<Rightarrow>
     ('s \<Rightarrow> Context \<Rightarrow> NodeId \<Rightarrow> byte list \<Rightarrow> ('s, EntryOut) outcome) \<Rightarrow>
     ('s \<Rightarrow> Context \<Rightarrow> NodeId \<Rightarrow> ('s, StatxOut) outcome) \<Rightarrow> 's Filesystem" where
  "Filesystem_base lookup_root lookupx statx =
     \<lparr>fs_init = default_init,
      fs_destroy = default_destroy,
      fs_lookup_root = lookup_root,
      fs_lookupx = lookupx,
      fs_forget = default_forget,
      fs_forget_multi = default_forget_multi default_forget,
      fs_statx = statx,
      fs_setstatx = (\<lambda>s ctx nodeid fh inn. not_supported s),
      fs_mkobjx = (\<lambda>s ctx parent inn. not_supported s),
      fs_unlink = (\<lambda>s ctx parent name. not_supported s),
      fs_rmdir = default_rmdir (\<lambda>s ctx parent name. not_supported s),
      fs_rename = (\<lambda>s ctx olddir oldname newdir newname flags. not_supported s),
      fs_link = (\<lambda>s ctx oldnodeid newparent newname. not_supported s),
      fs_readlink = (\<lambda>s ctx nodeid. not_supported s),
      fs_open = (\<lambda>s ctx nodeid flags. (Inr OpenOut_default, s)),
      fs_release = (\<lambda>s ctx nodeid fh flags. (Inr (), s)),
      fs_read = (\<lambda>s ctx nodeid fh offset out. (Inl ENOSYS, out, s)),
      fs_write = (\<lambda>s ctx nodeid fh offset inn. not_supported s),
      fs_fallocate = (\<lambda>s ctx nodeid fh mode offset len. not_supported s),
      fs_statfs = (\<lambda>s ctx nodeid. not_supported s),
      fs_opendir = (\<lambda>s ctx nodeid. (Inr OpenOut_default, s)),
      fs_releasedir = (\<lambda>s ctx nodeid fh. (Inr (), s)),
      fs_readdir = (\<lambda>s ctx nodeid fh offset out. Some (Inl ENOSYS, out, s)),
      fs_getxattr = (\<lambda>s ctx nodeid name out. (Inl ENOSYS, out, s)),
      fs_setxattr = (\<lambda>s ctx nodeid name val flags. not_supported s),
      fs_listxattr = (\<lambda>s ctx nodeid out. (Inl ENOSYS, out, s)),
      fs_removexattr = (\<lambda>s ctx nodeid name. not_supported s)\<rparr>"

lemma default_forget_multi_fold:
  "default_forget_multi forget s items = fold (\<lambda>(n, nl) s. forget s n nl) items s"
  by (induction forget s items rule: default_forget_multi.induct) simp_all

subsection \<open>The contract\<close>

locale filesystem_contract =
  fixes F :: "'s Filesystem"
  assumes read_span: "fs_read F s c n fh off buf = (rv, buf', s') \<Longrightarrow> length buf' = length buf"
    and getxattr_span: "fs_getxattr F s c n name buf = (rv, buf', s') \<Longrightarrow> length buf' = length buf"
    and listxattr_span: "fs_listxattr F s c n buf = (rv, buf', s') \<Longrightarrow> length buf' = length buf"
    and readdir_adds: "dw_ok w \<Longrightarrow>
      \<exists>rv w' s'. fs_readdir F s c n fh off w = Some (rv, w', s') \<and> dw_reach w w'"

interpretation base_fs: filesystem_contract "Filesystem_base lookup_root lookupx statx"
  by unfold_locales (auto simp: Filesystem_base_def intro: dw_refl)

text \<open>
  A small daemon for the concrete runs of the development: node \<open>10 + length name\<close> for a
  name, the node id as inode number, and a journal of the renames it was asked for.
\<close>

type_synonym journal = "(NodeId \<times> byte list \<times> NodeId \<times> byte list \<times> u32) list"

definition entry_of :: "NodeId \<Rightarrow> EntryOut" where
  "entry_of n = \<lparr>eo_nodeid = n, eo_entry_valid = 1500000000, eo_negative = False\<rparr>"

definition journal_fs :: "journal Filesystem" where
  "journal_fs =
     (Filesystem_base (\<lambda>s c. (Inr (entry_of NodeId_root), s))
        (\<lambda>s c parent name. (Inr (entry_of (10 + word_of_nat (length name))), s))
        (\<lambda>s c n. (Inr (StatxOut_zero\<lparr>so_ino := n\<rparr>), s)))
     \<lparr>fs_rename := \<lambda>s c olddir oldname newdir newname flags.
        (Inr (), s @ [(olddir, oldname, newdir, newname, flags)])\<rparr>"

interpretation journal: filesystem_contract journal_fs
  by unfold_locales (auto simp: journal_fs_def Filesystem_base_def intro: dw_refl)

end
