(* ===== verification/Session_Impl.thy ===== *)
theory Session_Impl
  imports Filesystem
begin

text \<open>
  The session state shared by all parts of the library: \<open>SessionOptions\<close>
  (\<open>include/fex/session.hpp\<close>), \<open>Session::Impl\<close> with \<open>make_ctx\<close> and \<open>in_arg\<close>
  (\<open>src/session_impl.hpp\<close>). The \<open>Filesystem*\<close> of the implementation is the pair of the
  callback record (a parameter of the handlers) and the daemon state \<open>im_fs\<close>.
\<close>

record SessionOptions =
  opt_mountpoint :: string
  opt_fsname :: string
  opt_source :: string
  opt_read_only :: bool
  opt_allow_other :: bool
  opt_dev_fd :: int
  opt_uring_queues :: nat
  opt_uring_queue_depth :: nat
  opt_uring_payload_bytes :: nat

definition SessionOptions_default :: SessionOptions where
  "SessionOptions_default =
     \<lparr>opt_mountpoint = '''', opt_fsname = ''fex'', opt_source = '''', opt_read_only = False,
      opt_allow_other = False, opt_dev_fd = -1, opt_uring_queues = 0,
      opt_uring_queue_depth = 32, opt_uring_payload_bytes = 2 ^ 20\<rparr>"

record 's Impl =
  im_opts :: SessionOptions
  im_dev_fd :: int
  im_fs :: 's
  im_stop_efd :: int
  im_stopping :: bool
  im_init_done :: bool
  im_mount_installed :: bool

definition Impl_new :: "SessionOptions \<Rightarrow> 's \<Rightarrow> 's Impl" where
  "Impl_new opts s =
     \<lparr>im_opts = opts, im_dev_fd = -1, im_fs = s, im_stop_efd = -1, im_stopping = False,
      im_init_done = False, im_mount_installed = False\<rparr>"

definition make_ctx :: "fuse_in_header \<Rightarrow> Context" where
  "make_ctx h =
     \<lparr>ctx_uid = ih_uid h, ctx_gid = ih_gid h, ctx_pid = ih_pid h, ctx_nodeid = ih_nodeid h,
      ctx_unique = ih_unique h\<rparr>"

definition ext_bytes :: "fuse_in_header \<Rightarrow> nat" where
  "ext_bytes h = unat (ih_total_extlen h) * 8"

text \<open>
  \<open>in_arg<T>\<close>: the offset of the first in-argument behind the extension blob, or
  \<^term>\<open>None\<close> (a null pointer) when the body is too short for a \<open>T\<close> of \<open>sz\<close> bytes.
\<close>

definition in_arg :: "nat \<Rightarrow> fuse_in_header \<Rightarrow> nat \<Rightarrow> nat option" where
  "in_arg sz h body_len = (if ext_bytes h + sz > body_len then None else Some (ext_bytes h))"

lemma in_arg_Some: "in_arg sz h n = Some p \<longleftrightarrow> p = ext_bytes h \<and> ext_bytes h + sz \<le> n"
  by (auto simp: in_arg_def)

lemma in_arg_None: "in_arg sz h n = None \<longleftrightarrow> n < ext_bytes h + sz"
  by (auto simp: in_arg_def)

lemma in_arg_no_ext: "ih_total_extlen h = 0 \<Longrightarrow> sz \<le> n \<Longrightarrow> in_arg sz h n = Some 0"
  by (simp add: in_arg_def ext_bytes_def)

end
