(* ===== verification/Mount.thy ===== *)
theory Mount
  imports Session_Impl "HOL-Library.Multiset"
begin

text \<open>
  Descriptors and mounting: \<open>UniqueFd\<close> and \<open>open_fex_device\<close> of \<open>src/session.cpp\<close>, and the two
  mount phases of \<open>src/mount.cpp\<close>.

  A system call is an event of the trace, with its result: \<^term>\<open>Inl e\<close> is a failure with
  \<open>errno = e\<close>, \<^term>\<open>Inr v\<close> the value returned. What the kernel answers is an input (the
  \<open>..._env\<close> records). The messages printed on failures are left out.
\<close>

type_synonym sysret = "i32 + int"

datatype sys_event =
    Sys_open sysret
  | Sys_ioctl_sync_init int sysret
  | Sys_eventfd sysret
  | Sys_write_efd int
  | Sys_fsopen sysret
  | Sys_fsconfig_set_fd int int sysret
  | Sys_fsconfig_source int string sysret
  | Sys_fsconfig_create int sysret
  | Sys_fsmount int u32 sysret
  | Sys_move_mount int string sysret
  | Sys_umount2 string
  | Sys_close int
  | Worker_start nat i32
  | Worker_join nat
  | Worker_teardown nat
  | Fs_destroy

subsection \<open>UniqueFd\<close>

text \<open>An owned descriptor is its number; -1 owns nothing. Operations return what they close.\<close>

definition UniqueFd_valid :: "int \<Rightarrow> bool" where
  "UniqueFd_valid fd \<longleftrightarrow> fd \<ge> 0"

definition UniqueFd_reset :: "int \<Rightarrow> int \<Rightarrow> sys_event list \<times> int" where
  "UniqueFd_reset own fd = (if own \<ge> 0 \<and> own \<noteq> fd then [Sys_close own] else [], fd)"

text \<open>Move assignment: the target takes the source's descriptor, the source owns nothing.\<close>

definition UniqueFd_assign :: "int \<Rightarrow> int \<Rightarrow> sys_event list \<times> int \<times> int" where
  "UniqueFd_assign own src = (case UniqueFd_reset own src of (evs, fd) \<Rightarrow> (evs, fd, -1))"

definition UniqueFd_release :: "int \<Rightarrow> int \<times> int" where
  "UniqueFd_release own = (own, -1)"

definition UniqueFd_destroy :: "int \<Rightarrow> sys_event list" where
  "UniqueFd_destroy own = fst (UniqueFd_reset own (-1))"

subsection \<open>The device\<close>

record device_env =
  de_open :: sysret
  de_ioctl :: sysret

definition open_fex_device :: "device_env \<Rightarrow> sys_event list \<times> sysret" where
  "open_fex_device env = (case de_open env of
     Inl e \<Rightarrow> ([Sys_open (Inl e)], Inl e)
   | Inr fd \<Rightarrow>
       (case de_ioctl env of
          Inl e \<Rightarrow> ([Sys_open (Inr fd), Sys_ioctl_sync_init fd (Inl e)] @ UniqueFd_destroy fd, Inl e)
        | Inr v \<Rightarrow> ([Sys_open (Inr fd), Sys_ioctl_sync_init fd (Inr v)], Inr fd)))"

subsection \<open>The two phases\<close>

record mount_env =
  me_fsopen :: sysret
  me_set_fd :: sysret
  me_source :: sysret
  me_create :: sysret
  me_fsmount :: sysret
  me_move :: sysret

definition mount_open_and_set_fd :: "mount_env \<Rightarrow> 's Impl \<Rightarrow> sys_event list \<times> sysret" where
  "mount_open_and_set_fd env im = (case me_fsopen env of
     Inl e \<Rightarrow> ([Sys_fsopen (Inl e)], Inl e)
   | Inr fsfd \<Rightarrow>
       let opened = [Sys_fsopen (Inr fsfd), Sys_fsconfig_set_fd fsfd (im_dev_fd im) (me_set_fd env)] in
       case me_set_fd env of
         Inl e \<Rightarrow> (opened @ UniqueFd_destroy fsfd, Inl e)
       | Inr _ \<Rightarrow>
           if opt_source (im_opts im) \<noteq> '''' then
             let labelled = opened @ [Sys_fsconfig_source fsfd (opt_source (im_opts im)) (me_source env)] in
             case me_source env of
               Inl e \<Rightarrow> (labelled @ UniqueFd_destroy fsfd, Inl e)
             | Inr _ \<Rightarrow> (labelled, Inr fsfd)
           else (opened, Inr fsfd))"

definition mount_attr_flags :: "SessionOptions \<Rightarrow> u32" where
  "mount_attr_flags opts = (if opt_read_only opts then 0 OR 1 else 0)"

text \<open>The result is the error number, 0 for success; the descriptors are closed on the way out.\<close>

definition mount_create_and_finish :: "mount_env \<Rightarrow> int \<Rightarrow> 's Impl \<Rightarrow> sys_event list \<times> i32 \<times> 's Impl" where
  "mount_create_and_finish env fsfd im =
     (let created = [Sys_fsconfig_create fsfd (me_create env)] in
      case me_create env of
        Inl e \<Rightarrow> (created @ UniqueFd_destroy fsfd, e, im)
      | Inr _ \<Rightarrow>
          let mounted = created @ [Sys_fsmount fsfd (mount_attr_flags (im_opts im)) (me_fsmount env)] in
          case me_fsmount env of
            Inl e \<Rightarrow> (mounted @ UniqueFd_destroy fsfd, e, im)
          | Inr mntfd \<Rightarrow>
              let moved = mounted @ [Sys_move_mount mntfd (opt_mountpoint (im_opts im)) (me_move env)] in
              case me_move env of
                Inl e \<Rightarrow> (moved @ UniqueFd_destroy mntfd @ UniqueFd_destroy fsfd, e, im)
              | Inr _ \<Rightarrow>
                  (moved @ UniqueFd_destroy mntfd @ UniqueFd_destroy fsfd, 0, im\<lparr>im_mount_installed := True\<rparr>))"

subsection \<open>Descriptor ownership\<close>

text \<open>
  The descriptors a trace leaves open, as a multiset (so that a leak or a double close
  shows), and the condition that every close hits an open descriptor.
\<close>

fun opens :: "sys_event \<Rightarrow> int option" where
  "opens (Sys_open (Inr fd)) = Some fd"
| "opens (Sys_eventfd (Inr fd)) = Some fd"
| "opens (Sys_fsopen (Inr fd)) = Some fd"
| "opens (Sys_fsmount fsfd fl (Inr fd)) = Some fd"
| "opens _ = None"

definition open_step :: "sys_event \<Rightarrow> int multiset \<Rightarrow> int multiset" where
  "open_step ev fds = (case ev of
     Sys_close fd \<Rightarrow> fds - {#fd#}
   | _ \<Rightarrow> (case opens ev of Some fd \<Rightarrow> add_mset fd fds | None \<Rightarrow> fds))"

fun closes_ok :: "int multiset \<Rightarrow> sys_event list \<Rightarrow> bool" where
  "closes_ok fds [] = True"
| "closes_ok fds (ev # evs) =
     ((case ev of Sys_close fd \<Rightarrow> fd \<in># fds | _ \<Rightarrow> True) \<and> closes_ok (open_step ev fds) evs)"

definition open_fds :: "int multiset \<Rightarrow> sys_event list \<Rightarrow> int multiset" where
  "open_fds fds evs = fold open_step evs fds"

lemma open_step_simps [simp]:
  "open_step (Sys_open (Inl e)) fds = fds" "open_step (Sys_open (Inr fd)) fds = add_mset fd fds"
  "open_step (Sys_eventfd (Inl e)) fds = fds" "open_step (Sys_eventfd (Inr fd)) fds = add_mset fd fds"
  "open_step (Sys_fsopen (Inl e)) fds = fds" "open_step (Sys_fsopen (Inr fd)) fds = add_mset fd fds"
  "open_step (Sys_fsmount a fl (Inl e)) fds = fds" "open_step (Sys_fsmount a fl (Inr fd)) fds = add_mset fd fds"
  "open_step (Sys_close fd) fds = fds - {#fd#}" "open_step (Sys_ioctl_sync_init a r) fds = fds"
  "open_step (Sys_write_efd a) fds = fds" "open_step (Sys_fsconfig_set_fd a b r) fds = fds"
  "open_step (Sys_fsconfig_source a s r) fds = fds" "open_step (Sys_fsconfig_create a r) fds = fds"
  "open_step (Sys_move_mount a s r) fds = fds" "open_step (Sys_umount2 s) fds = fds"
  "open_step (Worker_start q c) fds = fds" "open_step (Worker_join q) fds = fds"
  "open_step (Worker_teardown q) fds = fds" "open_step Fs_destroy fds = fds"
  by (simp_all add: open_step_def)

lemma open_fds_simps [simp]: "open_fds fds [] = fds" "open_fds fds (e # es) = open_fds (open_step e fds) es"
  by (simp_all add: open_fds_def)

lemma open_fds_append: "open_fds fds (xs @ ys) = open_fds (open_fds fds xs) ys"
  by (simp add: open_fds_def)

lemma closes_ok_append: "closes_ok fds (xs @ ys) \<longleftrightarrow> closes_ok fds xs \<and> closes_ok (open_fds fds xs) ys"
  by (induction fds xs rule: closes_ok.induct) simp_all

text \<open>
  \<open>handles own evs own'\<close>: a piece of the library, seen through its trace, owns the
  descriptors \<open>own\<close> before and \<open>own'\<close> after; it closes only what it owns and leaves everybody
  else's descriptors alone.
\<close>

definition handles :: "int multiset \<Rightarrow> sys_event list \<Rightarrow> int multiset \<Rightarrow> bool" where
  "handles own evs own' \<longleftrightarrow>
     (\<forall>others. open_fds (own + others) evs = own' + others \<and> closes_ok (own + others) evs)"

text \<open>The descriptors a \<open>UniqueFd\<close> with number \<open>fd\<close> owns.\<close>

definition owned :: "int \<Rightarrow> int multiset" where
  "owned fd = (if fd \<ge> 0 then {#fd#} else {#})"

named_theorems handles_intros "ownership of the pieces of a trace"

lemma handles_Nil [handles_intros]: "handles own [] own"
  by (simp add: handles_def)

lemma handles_append: "handles a xs b \<Longrightarrow> handles b ys c \<Longrightarrow> handles a (xs @ ys) c"
  by (simp add: handles_def open_fds_append closes_ok_append)

lemma handles_frame: "handles a xs b \<Longrightarrow> handles (a + c) xs (b + c)"
  by (simp add: handles_def add.assoc)

lemma handles_Cons: "handles a [x] b \<Longrightarrow> handles b ys c \<Longrightarrow> handles a (x # ys) c"
  using handles_append [of a "[x]"] by simp

lemma owned_minus [simp]: "owned (-1) = {#}"
  by (simp add: owned_def)

lemma handles_destroy: "handles (owned fd) (UniqueFd_destroy fd) {#}"
  by (auto simp: handles_def owned_def UniqueFd_destroy_def UniqueFd_reset_def)

lemma handles_reset:
  assumes "UniqueFd_reset own fd = (evs, own')" "own \<noteq> fd"
  shows "handles (owned own + owned fd) evs (owned own')"
  using assms by (auto simp: handles_def owned_def UniqueFd_reset_def)

lemma handles_open_fex_device:
  assumes "open_fex_device env = (evs, res)" "\<forall>fd. de_open env = Inr fd \<longrightarrow> fd \<ge> 0"
  shows "handles {#} evs (case res of Inl e \<Rightarrow> {#} | Inr fd \<Rightarrow> owned fd)"
  using assms
  by (auto simp: open_fex_device_def handles_def owned_def UniqueFd_destroy_def UniqueFd_reset_def split: sum.splits)

lemma handles_mount_phase1:
  assumes "mount_open_and_set_fd env im = (evs, res)" "\<forall>fd. me_fsopen env = Inr fd \<longrightarrow> fd \<ge> 0"
  shows "handles {#} evs (case res of Inl e \<Rightarrow> {#} | Inr fd \<Rightarrow> owned fd)"
  using assms
  by (auto simp: mount_open_and_set_fd_def handles_def owned_def UniqueFd_destroy_def UniqueFd_reset_def Let_def
      split: sum.splits if_splits)

lemma handles_mount_phase2:
  assumes "mount_create_and_finish env fsfd im = (evs, ec, im')" "\<forall>fd. me_fsmount env = Inr fd \<longrightarrow> fd \<ge> 0"
  shows "handles (owned fsfd) evs {#}"
  using assms
  by (auto simp: mount_create_and_finish_def handles_def owned_def UniqueFd_destroy_def UniqueFd_reset_def Let_def
      split: sum.splits if_splits)

end
