(* ===== verification/Unique_Fd.thy ===== *)
theory Unique_Fd
  imports Mount
begin

text \<open>
  The two owning wrappers of a descriptor, \<open>UniqueFd\<close> (\<open>include/fex/session.hpp\<close>, \<open>src/session.cpp\<close>)
  and the \<open>Fd\<close> of \<open>examples/passthrough.cpp\<close>, as objects in a store: an object has an address, moves
  name two addresses, and the two may be the same. The rest of the development passes the number
  in a wrapper around as a value; this theory shows what that rests on. A client that hands over
  only descriptors it owns never closes a descriptor twice and never loses one, whatever it does
  with the wrappers, and it cannot tell the two classes apart.
\<close>

subsection \<open>The classes\<close>

datatype fd_class = Library_fd | Example_fd

text \<open>
  The move assignments from another object: \<open>UniqueFd\<close> resets to the descriptor of the other,
  \<open>Fd\<close> resets to none and then takes it.
\<close>

definition Fd_assign :: "int \<Rightarrow> int \<Rightarrow> sys_event list \<times> int \<times> int" where
  "Fd_assign own src = (case UniqueFd_reset own (-1) of (evs, _) \<Rightarrow> (evs, src, -1))"

primrec class_assign :: "fd_class \<Rightarrow> int \<Rightarrow> int \<Rightarrow> sys_event list \<times> int \<times> int" where
  "class_assign Library_fd = UniqueFd_assign"
| "class_assign Example_fd = Fd_assign"

subsection \<open>Objects\<close>

text \<open>
  \<open>st_objs\<close> are the live wrappers, \<open>st_open\<close> the descriptors of the process that are open, and
  \<open>st_raw\<close> those a client owns as plain numbers: opened and not yet wrapped, or released.
\<close>

record fd_store =
  st_objs :: "nat \<Rightarrow> int option"
  st_open :: "int set"
  st_raw :: "int set"

datatype fd_op =
    Fd_open int
  | Fd_construct nat int
  | Fd_move_construct nat nat
  | Fd_move_assign nat nat
  | Fd_reset nat int
  | Fd_release nat
  | Fd_destroy nat

fun apply_closes :: "sys_event list \<Rightarrow> int set \<Rightarrow> int set option" where
  "apply_closes [] S = Some S"
| "apply_closes (Sys_close fd # evs) S = (if fd \<in> S then apply_closes evs (S - {fd}) else None)"
| "apply_closes (_ # evs) S = apply_closes evs S"

definition st_events :: "sys_event list \<Rightarrow> fd_store \<Rightarrow> fd_store option" where
  "st_events evs s = map_option (\<lambda>S. s\<lparr>st_open := S\<rparr>) (apply_closes evs (st_open s))"

definition put_obj :: "nat \<Rightarrow> int \<Rightarrow> fd_store \<Rightarrow> fd_store" where
  "put_obj a fd s = s\<lparr>st_objs := (st_objs s)(a \<mapsto> fd)\<rparr>"

text \<open>
  One operation. It fails (\<^term>\<open>None\<close>) on an object that is not there and on closing a descriptor
  that is not open. A number that is given to a wrapper is no longer the client's.
\<close>

fun fd_do :: "fd_class \<Rightarrow> fd_op \<Rightarrow> fd_store \<Rightarrow> fd_store option" where
  "fd_do C (Fd_open fd) s = Some (s\<lparr>st_open := insert fd (st_open s), st_raw := insert fd (st_raw s)\<rparr>)"
| "fd_do C (Fd_construct a fd) s = Some (put_obj a fd (s\<lparr>st_raw := st_raw s - {fd}\<rparr>))"
| "fd_do C (Fd_move_construct a b) s = (case st_objs s b of
     None \<Rightarrow> None
   | Some src \<Rightarrow> Some (put_obj b (-1) (put_obj a src s)))"
| "fd_do C (Fd_move_assign a b) s = (case (st_objs s a, st_objs s b) of
     (Some own, Some src) \<Rightarrow>
       if a \<noteq> b
       then (case class_assign C own src of (evs, own', src') \<Rightarrow>
               map_option (\<lambda>s. put_obj b src' (put_obj a own' s)) (st_events evs s))
       else Some s
   | _ \<Rightarrow> None)"
| "fd_do C (Fd_reset a fd) s = (case st_objs s a of
     None \<Rightarrow> None
   | Some own \<Rightarrow> (case UniqueFd_reset own fd of (evs, own') \<Rightarrow>
       map_option (put_obj a own') (st_events evs (s\<lparr>st_raw := st_raw s - {fd}\<rparr>))))"
| "fd_do C (Fd_release a) s = (case st_objs s a of
     None \<Rightarrow> None
   | Some own \<Rightarrow> (case UniqueFd_release own of (r, own') \<Rightarrow>
       Some (put_obj a own' (s\<lparr>st_raw := (if 0 \<le> r then insert r (st_raw s) else st_raw s)\<rparr>))))"
| "fd_do C (Fd_destroy a) s = (case st_objs s a of
     None \<Rightarrow> None
   | Some own \<Rightarrow> map_option (\<lambda>s. s\<lparr>st_objs := (st_objs s)(a := None)\<rparr>) (st_events (UniqueFd_destroy own) s))"

primrec fd_run :: "fd_class \<Rightarrow> fd_op list \<Rightarrow> fd_store \<Rightarrow> fd_store option" where
  "fd_run C [] s = Some s"
| "fd_run C (p # ps) s = (case fd_do C p s of None \<Rightarrow> None | Some s' \<Rightarrow> fd_run C ps s')"

text \<open>
  What the language and the client see to: the kernel opens a descriptor under a number that is
  free, an object is constructed where none is and used while it lives, and the number
  given to a wrapper is negative, the client's own, or the one the wrapper has.
\<close>

fun fd_allowed :: "fd_op \<Rightarrow> fd_store \<Rightarrow> bool" where
  "fd_allowed (Fd_open fd) s \<longleftrightarrow> 0 \<le> fd \<and> fd \<notin> st_open s"
| "fd_allowed (Fd_construct a fd) s \<longleftrightarrow> st_objs s a = None \<and> (fd < 0 \<or> fd \<in> st_raw s)"
| "fd_allowed (Fd_move_construct a b) s \<longleftrightarrow> st_objs s a = None \<and> st_objs s b \<noteq> None"
| "fd_allowed (Fd_move_assign a b) s \<longleftrightarrow> st_objs s a \<noteq> None \<and> st_objs s b \<noteq> None"
| "fd_allowed (Fd_reset a fd) s \<longleftrightarrow> st_objs s a \<noteq> None \<and> (fd < 0 \<or> fd \<in> st_raw s \<or> st_objs s a = Some fd)"
| "fd_allowed (Fd_release a) s \<longleftrightarrow> st_objs s a \<noteq> None"
| "fd_allowed (Fd_destroy a) s \<longleftrightarrow> st_objs s a \<noteq> None"

primrec fd_disciplined :: "fd_class \<Rightarrow> fd_op list \<Rightarrow> fd_store \<Rightarrow> bool" where
  "fd_disciplined C [] s \<longleftrightarrow> True"
| "fd_disciplined C (p # ps) s \<longleftrightarrow>
     fd_allowed p s \<and> (case fd_do C p s of None \<Rightarrow> True | Some s' \<Rightarrow> fd_disciplined C ps s')"

definition st_start :: fd_store where
  "st_start = \<lparr>st_objs = Map.empty, st_open = {}, st_raw = {}\<rparr>"

subsection \<open>Every open descriptor has one owner\<close>

text \<open>
  In the middle of an operation some descriptors belong to neither a wrapper nor the client: the
  set \<open>H\<close> of those the operation has in hand.
\<close>

definition holds :: "fd_store \<Rightarrow> nat \<Rightarrow> int \<Rightarrow> bool" where
  "holds s a fd \<longleftrightarrow> st_objs s a = Some fd \<and> 0 \<le> fd"

definition owners_ok :: "fd_store \<Rightarrow> int set \<Rightarrow> bool" where
  "owners_ok s H \<longleftrightarrow>
     (\<forall>a b fd. holds s a fd \<longrightarrow> holds s b fd \<longrightarrow> a = b) \<and>
     (\<forall>a fd. holds s a fd \<longrightarrow> fd \<notin> st_raw s \<and> fd \<notin> H) \<and>
     (\<forall>fd. fd \<in> st_raw s \<longrightarrow> fd \<notin> H) \<and>
     (\<forall>fd. fd \<in> st_open s \<longleftrightarrow> fd \<in> st_raw s \<or> fd \<in> H \<or> (\<exists>a. holds s a fd)) \<and>
     (\<forall>fd. fd \<in> st_open s \<longrightarrow> 0 \<le> fd)"

definition wrapped :: "fd_store \<Rightarrow> int set" where
  "wrapped s = {fd \<in> ran (st_objs s). 0 \<le> fd}"

definition move_client :: "fd_op list" where
  "move_client = [Fd_open 3, Fd_construct 0 3, Fd_open 4, Fd_construct 1 4, Fd_move_assign 1 1, Fd_reset 1 4, Fd_move_assign 0 1,
     Fd_move_construct 2 0, Fd_destroy 1, Fd_open 3, Fd_reset 2 3, Fd_release 2, Fd_destroy 0]"

lemma holds_simps [simp]:
  "holds (s\<lparr>st_objs := (st_objs s)(a := None)\<rparr>) b fd \<longleftrightarrow> b \<noteq> a \<and> holds s b fd"
  "holds (put_obj a v s) b fd \<longleftrightarrow> (if b = a then fd = v \<and> 0 \<le> v else holds s b fd)"
  "holds (s\<lparr>st_open := S\<rparr>) b fd \<longleftrightarrow> holds s b fd"
  "holds (s\<lparr>st_raw := R\<rparr>) b fd \<longleftrightarrow> holds s b fd"
  by (auto simp: holds_def put_obj_def)

lemma put_obj_simps [simp]: "st_open (put_obj a fd s) = st_open s" "st_raw (put_obj a fd s) = st_raw s"
  by (simp_all add: put_obj_def)

lemma owners_okI:
  assumes "\<And>a b fd. holds s a fd \<Longrightarrow> holds s b fd \<Longrightarrow> a = b"
    and "\<And>a fd. holds s a fd \<Longrightarrow> fd \<notin> st_raw s"
    and "\<And>a fd. holds s a fd \<Longrightarrow> fd \<notin> H"
    and "\<And>fd. fd \<in> st_raw s \<Longrightarrow> fd \<notin> H"
    and "\<And>fd. fd \<in> st_open s \<Longrightarrow> fd \<in> st_raw s \<or> fd \<in> H \<or> (\<exists>a. holds s a fd)"
    and "\<And>a fd. holds s a fd \<Longrightarrow> fd \<in> st_open s"
    and "\<And>fd. fd \<in> st_raw s \<Longrightarrow> fd \<in> st_open s"
    and "\<And>fd. fd \<in> H \<Longrightarrow> fd \<in> st_open s"
    and "\<And>fd. fd \<in> st_open s \<Longrightarrow> 0 \<le> fd"
  shows "owners_ok s H"
  using assms unfolding owners_ok_def by meson

lemma owners_okD:
  assumes "owners_ok s H"
  shows "holds s a fd \<Longrightarrow> holds s b fd \<Longrightarrow> a = b"
    and "holds s a fd \<Longrightarrow> fd \<notin> st_raw s"
    and "holds s a fd \<Longrightarrow> fd \<notin> H"
    and "fd \<in> st_raw s \<Longrightarrow> fd \<notin> H"
    and "fd \<in> st_open s \<Longrightarrow> fd \<in> st_raw s \<or> fd \<in> H \<or> (\<exists>a. holds s a fd)"
    and "holds s a fd \<Longrightarrow> fd \<in> st_open s"
    and "fd \<in> st_raw s \<Longrightarrow> fd \<in> st_open s"
    and "fd \<in> H \<Longrightarrow> fd \<in> st_open s"
    and "fd \<in> st_open s \<Longrightarrow> 0 \<le> fd"
  using assms unfolding owners_ok_def by meson+

lemma owners_ok_drop:
  assumes "owners_ok s H"
  shows "owners_ok (s\<lparr>st_objs := (st_objs s)(a := None)\<rparr>) (H \<union> {fd. holds s a fd})"
  by (rule owners_okI; simp; use owners_okD [OF assms] in metis)

lemma owners_ok_fill:
  assumes "owners_ok s H" "\<And>fd. \<not> holds s a fd" "fd < 0 \<or> fd \<in> H"
  shows "owners_ok (put_obj a fd s) (H - {fd})"
  by (rule owners_okI; simp split: if_splits; use owners_okD [OF assms(1)] assms(2,3) not_le in metis)

lemma put_again: "put_obj a fd (s\<lparr>st_objs := (st_objs s)(a := v)\<rparr>) = put_obj a fd s"
  by (simp add: put_obj_def)

lemma owners_ok_put:
  assumes "owners_ok s H" "fd < 0 \<or> fd \<in> H \<or> holds s a fd"
  shows "owners_ok (put_obj a fd s) (H \<union> {fd. holds s a fd} - {fd})"
  using owners_ok_fill [OF owners_ok_drop [OF assms(1), of a], of a fd] assms(2) by (simp add: put_again)

lemma owners_ok_take:
  assumes "owners_ok s H" "fd \<in> st_raw s"
  shows "owners_ok (s\<lparr>st_raw := st_raw s - {fd}\<rparr>) (insert fd H)"
  by (rule owners_okI; simp; use owners_okD [OF assms(1)] assms(2) in blast)

lemma owners_ok_give:
  assumes "owners_ok s (insert fd H)" "fd \<notin> H"
  shows "owners_ok (s\<lparr>st_raw := insert fd (st_raw s)\<rparr>) H"
  by (rule owners_okI; simp; use owners_okD [OF assms(1)] assms(2) in blast)

lemma owners_ok_close:
  assumes "owners_ok s (insert fd H)" "fd \<notin> H"
  shows "owners_ok (s\<lparr>st_open := st_open s - {fd}\<rparr>) H"
  by (rule owners_okI; simp; use owners_okD [OF assms(1)] assms(2) in blast)

lemma owners_ok_open:
  assumes "owners_ok s H" "0 \<le> fd" "fd \<notin> st_open s"
  shows "owners_ok (s\<lparr>st_open := insert fd (st_open s)\<rparr>) (insert fd H)"
  by (rule owners_okI; simp; use owners_okD [OF assms(1)] assms(2,3) in blast)


lemmas fd_class_defs = UniqueFd_reset_def UniqueFd_assign_def UniqueFd_release_def UniqueFd_destroy_def
  Fd_assign_def put_obj_def

lemma st_events_simps [simp]:
  "st_events [] s = Some s"
  "st_events [Sys_close fd] s = (if fd \<in> st_open s then Some (s\<lparr>st_open := st_open s - {fd}\<rparr>) else None)"
  by (simp_all add: st_events_def)

lemma put_obj_commute:
  "put_obj a fd (s\<lparr>st_open := S\<rparr>) = (put_obj a fd s)\<lparr>st_open := S\<rparr>"
  "put_obj a fd (s\<lparr>st_raw := R\<rparr>) = (put_obj a fd s)\<lparr>st_raw := R\<rparr>"
  "a \<noteq> b \<Longrightarrow> put_obj b v (put_obj a fd s) = put_obj a fd (put_obj b v s)"
  by (simp_all add: put_obj_def fun_upd_twist)

lemma raw_same: "(put_obj a fd s)\<lparr>st_raw := st_raw s\<rparr> = put_obj a fd s"
  by (simp add: put_obj_def)

lemma open_objs: "s\<lparr>st_open := S, st_objs := f\<rparr> = s\<lparr>st_objs := f, st_open := S\<rparr>"
  by (cases s) simp

lemma held_by:
  "st_objs s a = None \<Longrightarrow> {fd. holds s a fd} = {}"
  "st_objs s a = Some own \<Longrightarrow> {fd. holds s a fd} = (if 0 \<le> own then {own} else {})"
  by (auto simp: holds_def)

text \<open>A number taken over from the client, and the descriptor an operation lets go of.\<close>

lemma owners_ok_accept:
  assumes "owners_ok s {}" "fd < 0 \<or> fd \<in> st_raw s"
  shows "owners_ok (s\<lparr>st_raw := st_raw s - {fd}\<rparr>) (if 0 \<le> fd then {fd} else {})"
proof (cases "0 \<le> fd")
  case True
  then show ?thesis using assms owners_ok_take [of s "{}" fd] by simp
next
  case False
  then have "st_raw s - {fd} = st_raw s"
    using owners_okD(7,9) [OF assms(1)] by blast
  with False assms(1) show ?thesis by simp
qed

lemma owners_ok_closed:
  assumes "owners_ok s (if 0 \<le> own then {own} else {})"
  shows "\<exists>s'. st_events (UniqueFd_destroy own) s = Some s' \<and> owners_ok s' {}"
  using assms owners_ok_close [of s own "{}"] owners_okD(8) [of s "{own}" own]
  by (auto simp: UniqueFd_destroy_def UniqueFd_reset_def split: if_splits)

lemma st_events_put:
  "st_events evs (put_obj a fd s) = map_option (put_obj a fd) (st_events evs s)"
  by (simp add: st_events_def option.map_comp comp_def put_obj_commute)

lemma reset_ok:
  assumes "owners_ok s (if 0 \<le> fd then {fd} else {})" "st_objs s a = Some own"
  shows "\<exists>s'. map_option (put_obj a fd) (st_events (fst (UniqueFd_reset own fd)) s) = Some s' \<and> owners_ok s' {}"
proof -
  let ?H = "(if 0 \<le> fd then {fd} else {}) \<union> {fd. holds s a fd} - {fd}"
  have put: "owners_ok (put_obj a fd s) ?H"
    by (rule owners_ok_put [OF assms(1)]) auto
  have "own \<noteq> fd" if "0 \<le> own"
    using owners_okD(3) [OF assms(1), of a own] assms(2) that by (auto simp: holds_def)
  then have "?H = (if 0 \<le> own then {own} else {})" and ev: "fst (UniqueFd_reset own fd) = UniqueFd_destroy own"
    by (auto simp: held_by(2) [OF assms(2)] UniqueFd_destroy_def UniqueFd_reset_def split: if_splits)
  then show ?thesis
    using owners_ok_closed [of "put_obj a fd s" own] put by (simp add: ev st_events_put)
qed

lemma move_ok:
  assumes "owners_ok s {}" "st_objs s b = Some src"
  shows "owners_ok (put_obj b (-1) s) (if 0 \<le> src then {src} else {})"
  using owners_ok_put [OF assms(1), of "-1" b] held_by(2) [OF assms(2)] by (auto split: if_splits)

text \<open>With one owner for each descriptor the two move assignments do the same.\<close>

lemma assign_same:
  assumes "owners_ok s {}" "st_objs s a = Some own" "st_objs s b = Some src" "a \<noteq> b"
  shows "class_assign C own src = (fst (UniqueFd_reset own src), src, -1)"
proof -
  have "own < 0 \<or> own \<noteq> src"
    using owners_okD(1) [OF assms(1), of a own b] assms(2-4) by (auto simp: holds_def)
  then show ?thesis
    by (cases C) (auto simp: Fd_assign_def UniqueFd_assign_def UniqueFd_reset_def)
qed

lemma move_construct_ok:
  assumes "owners_ok s {}" "fd_allowed (Fd_move_construct a b) s"
  shows "\<exists>s'. fd_do C (Fd_move_construct a b) s = Some s' \<and> owners_ok s' {}"
proof -
  from assms(2) obtain src where b: "st_objs s b = Some src" "st_objs s a = None" "a \<noteq> b"
    by (cases "a = b") auto
  then have "owners_ok (put_obj a src (put_obj b (-1) s)) {}"
    using owners_ok_put [OF move_ok [OF assms(1) b(1)], of src a] by (cases "0 \<le> src") (auto simp: holds_def put_obj_def)
  with b show ?thesis by (simp add: put_obj_commute)
qed

lemma move_assign_ok:
  assumes "owners_ok s {}" "fd_allowed (Fd_move_assign a b) s"
  shows "\<exists>s'. fd_do C (Fd_move_assign a b) s = Some s' \<and> owners_ok s' {}"
proof -
  from assms(2) obtain own src where ab: "st_objs s a = Some own" "st_objs s b = Some src" by auto
  show ?thesis
  proof (cases "a = b")
    case False
    then have "st_objs (put_obj b (-1) s) a = Some own" using ab by (simp add: put_obj_def)
    from reset_ok [OF move_ok [OF assms(1) ab(2)] this] show ?thesis
      using False ab assign_same [OF assms(1) ab False, of C]
      by (auto simp: st_events_put option.map_comp comp_def put_obj_commute)
  qed (use assms(1) ab in simp)
qed

lemma reset_call_ok:
  assumes "owners_ok s {}" "fd_allowed (Fd_reset a fd) s"
  shows "\<exists>s'. fd_do C (Fd_reset a fd) s = Some s' \<and> owners_ok s' {}"
proof -
  from assms(2) obtain own where own: "st_objs s a = Some own" by auto
  show ?thesis
  proof (cases "own = fd")
    case False
    then have acc: "owners_ok (s\<lparr>st_raw := st_raw s - {fd}\<rparr>) (if 0 \<le> fd then {fd} else {})"
      using owners_ok_accept [OF assms(1)] assms(2) own by auto
    show ?thesis
      using reset_ok [OF acc, of a own] own by (simp add: UniqueFd_reset_def)
  next
    case True
    have "fd \<notin> st_raw s"
      using owners_okD(2,7,9) [OF assms(1)] own True by (metis holds_def)
    then have "st_raw s - {fd} = st_raw s" by simp
    moreover have "put_obj a fd s = s" using own True by (simp add: put_obj_def map_upd_triv)
    ultimately show ?thesis using assms(1) own True by (simp add: UniqueFd_reset_def)
  qed
qed

lemma fd_do_owners:
  assumes "owners_ok s {}" "fd_allowed p s"
  shows "\<exists>s'. fd_do C p s = Some s' \<and> owners_ok s' {}"
proof (cases p)
  case (Fd_open fd)
  then show ?thesis
    using assms(2) owners_ok_give [OF owners_ok_open [OF assms(1), of fd]] by simp
next
  case (Fd_construct a fd)
  then show ?thesis
    using assms owners_ok_put [OF owners_ok_accept [OF assms(1), of fd], of fd a] owners_okD(7,9) [OF assms(1), of fd]
    by (auto simp: holds_def split: if_splits)
next
  case (Fd_release a)
  then obtain own where own: "st_objs s a = Some own" using assms(2) by auto
  show ?thesis
    using move_ok [OF assms(1) own] owners_ok_give [of "put_obj a (-1) s" own "{}"] own Fd_release
    by (auto simp: UniqueFd_release_def put_obj_commute raw_same split: if_splits)
next
  case (Fd_destroy a)
  then obtain own where own: "st_objs s a = Some own" using assms(2) by auto
  let ?s = "s\<lparr>st_objs := (st_objs s)(a := None)\<rparr>"
  have "owners_ok ?s (if 0 \<le> own then {own} else {})"
    using owners_ok_drop [OF assms(1), of a] held_by(2) [OF own] by simp
  from owners_ok_closed [OF this] show ?thesis
    using own Fd_destroy by (auto simp: open_objs st_events_def UniqueFd_destroy_def UniqueFd_reset_def split: if_splits)
qed (use assms move_construct_ok move_assign_ok reset_call_ok in blast)+

lemma fd_do_classes: "owners_ok s {} \<Longrightarrow> fd_do C p s = fd_do Library_fd p s"
  by (cases p) (auto simp: assign_same assign_same [where C = Library_fd, simplified] split: option.splits)

lemma fd_run_owners:
  assumes "fd_disciplined C ps s" "owners_ok s {}"
  shows "\<exists>s'. fd_run C ps s = Some s' \<and> fd_run Library_fd ps s = Some s' \<and> owners_ok s' {}"
  using assms
proof (induction ps arbitrary: s)
  case (Cons p ps)
  then obtain s' where s': "fd_do C p s = Some s'" "owners_ok s' {}"
    using fd_do_owners by fastforce
  moreover have "fd_do Library_fd p s = Some s'" using s'(1) fd_do_classes [OF Cons.prems(2), of C p] by simp
  ultimately show ?case using Cons.IH [of s'] Cons.prems by simp
qed simp

text \<open>
  C16. Whatever a client does with the owning wrappers of descriptors, as long as the numbers it
  gives them are its own: no operation fails, so no descriptor is closed that is not open; what is
  open is what is wrapped or the client's, each descriptor with one owner; and the library's class
  and the one of the example end in the same state. Moving an object onto itself and resetting it to
  the descriptor it has are included.\<close>

theorem wrappers_own:
  assumes "fd_disciplined C ps st_start"
  shows "\<exists>s. fd_run C ps st_start = Some s \<and> fd_run Library_fd ps st_start = Some s \<and>
    st_open s = wrapped s \<union> st_raw s \<and> wrapped s \<inter> st_raw s = {} \<and>
    (\<forall>a b fd. st_objs s a = Some fd \<and> st_objs s b = Some fd \<and> 0 \<le> fd \<longrightarrow> a = b)"
proof -
  have "owners_ok st_start {}" by (simp add: owners_ok_def st_start_def holds_def)
  from fd_run_owners [OF assms this] obtain s where s: "fd_run C ps st_start = Some s"
    "fd_run Library_fd ps st_start = Some s" "owners_ok s {}" by blast
  have w: "fd \<in> wrapped s \<longleftrightarrow> (\<exists>a. holds s a fd)" for fd by (auto simp: wrapped_def ran_def holds_def)
  have "st_open s = wrapped s \<union> st_raw s"
    using owners_okD(5,6,7) [OF s(3)] by (fastforce simp: w)
  moreover have "wrapped s \<inter> st_raw s = {}" using owners_okD(2) [OF s(3)] by (auto simp: w)
  moreover have "\<forall>a b fd. st_objs s a = Some fd \<and> st_objs s b = Some fd \<and> 0 \<le> fd \<longrightarrow> a = b"
    using owners_okD(1) [OF s(3)] by (auto simp: holds_def)
  ultimately show ?thesis using s(1,2) by blast
qed

theorem wrappers_own_witness:
  "fd_disciplined Example_fd move_client st_start \<and>
   (\<exists>s. fd_run Example_fd move_client st_start = Some s \<and> st_open s = {3} \<and> st_raw s = {3} \<and>
     st_open s = wrapped s \<union> st_raw s \<and> wrapped s \<inter> st_raw s = {})"
proof -
  have ok: "fd_disciplined Example_fd move_client st_start"
    by (simp add: move_client_def st_start_def fd_class_defs)
  moreover have "map_option (\<lambda>s. (st_open s, st_raw s)) (fd_run Example_fd move_client st_start) = Some ({3}, {3})"
    by (auto simp add: move_client_def st_start_def fd_class_defs)
  ultimately show ?thesis using wrappers_own [OF ok] by auto
qed

text \<open>
  Two wrappers of one descriptor, which the discipline excludes, tell the classes apart: after the
  assignment the library's class still owns it open, that of the example has closed it.
\<close>

lemma classes_differ_when_shared:
  assumes "st_objs s 0 = Some 3" "st_objs s 1 = Some 3" "st_open s = {3}"
  shows "map_option st_open (fd_do Library_fd (Fd_move_assign 0 1) s) = Some {3}"
    and "map_option st_open (fd_do Example_fd (Fd_move_assign 0 1) s) = Some {}"
  using assms by (simp_all add: fd_class_defs)

end
