(* ===== verification/Handlers.thy ===== *)
theory Handlers
  imports Session_Impl
begin

text \<open>
  The per-opcode handlers of \<open>src/handlers.cpp\<close>, all but the compound handler. Each takes
  the callback record, the session state, the request header, the body (the bytes after
  the header, so \<open>body_len\<close> is its length) and the replier, and returns the new session
  state and the filled replier; \<^term>\<open>None\<close> is an access outside the body or the reply
  buffer.

  Conversion helpers first, then the handlers in the order of the file.
\<close>

type_synonym 's handler =
  "'s Impl \<Rightarrow> fuse_in_header \<Rightarrow> byte list \<Rightarrow> Replier \<Rightarrow> ('s Impl \<times> Replier) option"

named_theorems handler_defs "definitions of the handlers"

subsection \<open>statx conversion\<close>

definition pack_time :: "Timespec \<Rightarrow> fuse_sx_time" where
  "pack_time t = \<lparr>sxt_tv_sec = ts_sec t, sxt_tv_nsec = ts_nsec t\<rparr>"

definition unpack_time :: "fuse_sx_time \<Rightarrow> Timespec" where
  "unpack_time t = \<lparr>ts_sec = sxt_tv_sec t, ts_nsec = sxt_tv_nsec t\<rparr>"

definition pack_statx :: "StatxOut \<Rightarrow> i64 \<Rightarrow> fuse_statx_out" where
  "pack_statx src attr_valid =
     (let (sec, nsec) = split_duration attr_valid in
      \<lparr>sxo_attr_valid = sec, sxo_attr_valid_nsec = nsec, sxo_flags = 0,
       sxo_stat = \<lparr>sx_mask = so_mask src, sx_blksize = so_blksize src,
         sx_attributes = so_attributes src, sx_nlink = so_nlink src, sx_uid = so_uid src,
         sx_gid = so_gid src, sx_mode = so_mode src, sx_ino = so_ino src, sx_size = so_size src,
         sx_blocks = so_blocks src, sx_attributes_mask = so_attributes_mask src,
         sx_atime = pack_time (so_atime src), sx_btime = pack_time (so_btime src),
         sx_ctime = pack_time (so_ctime src), sx_mtime = pack_time (so_mtime src),
         sx_rdev_major = so_rdev_major src, sx_rdev_minor = so_rdev_minor src,
         sx_dev_major = so_dev_major src, sx_dev_minor = so_dev_minor src\<rparr>\<rparr>)"

definition unpack_statx :: "fuse_statx \<Rightarrow> SetStatxIn \<Rightarrow> SetStatxIn" where
  "unpack_statx w dst =
     dst\<lparr>si_mask := sx_mask w, si_mode := sx_mode w, si_uid := sx_uid w, si_gid := sx_gid w,
         si_size := sx_size w, si_atime := unpack_time (sx_atime w),
         si_ctime := unpack_time (sx_ctime w), si_mtime := unpack_time (sx_mtime w)\<rparr>"

text \<open>\<open>std::chrono::seconds(1)\<close> as nanoseconds.\<close>

definition one_second :: i64 where "one_second = 1000000000"

definition opcode_name :: "u32 \<Rightarrow> string" where
  "opcode_name op = (case opcode_of op of
     Some FUSE_LOOKUP \<Rightarrow> ''LOOKUP'' | Some FUSE_FORGET \<Rightarrow> ''FORGET''
   | Some FUSE_GETATTR \<Rightarrow> ''GETATTR'' | Some FUSE_SETATTR \<Rightarrow> ''SETATTR''
   | Some FUSE_READLINK \<Rightarrow> ''READLINK'' | Some FUSE_SYMLINK \<Rightarrow> ''SYMLINK''
   | Some FUSE_MKNOD \<Rightarrow> ''MKNOD'' | Some FUSE_MKDIR \<Rightarrow> ''MKDIR''
   | Some FUSE_UNLINK \<Rightarrow> ''UNLINK'' | Some FUSE_RMDIR \<Rightarrow> ''RMDIR''
   | Some FUSE_RENAME \<Rightarrow> ''RENAME'' | Some FUSE_LINK \<Rightarrow> ''LINK''
   | Some FUSE_OPEN \<Rightarrow> ''OPEN'' | Some FUSE_READ \<Rightarrow> ''READ''
   | Some FUSE_WRITE \<Rightarrow> ''WRITE'' | Some FUSE_STATFS \<Rightarrow> ''STATFS''
   | Some FUSE_RELEASE \<Rightarrow> ''RELEASE'' | Some FUSE_FSYNC \<Rightarrow> ''FSYNC''
   | Some FUSE_SETXATTR \<Rightarrow> ''SETXATTR'' | Some FUSE_GETXATTR \<Rightarrow> ''GETXATTR''
   | Some FUSE_LISTXATTR \<Rightarrow> ''LISTXATTR'' | Some FUSE_REMOVEXATTR \<Rightarrow> ''REMOVEXATTR''
   | Some FUSE_FLUSH \<Rightarrow> ''FLUSH'' | Some FUSE_INIT \<Rightarrow> ''INIT''
   | Some FUSE_OPENDIR \<Rightarrow> ''OPENDIR'' | Some FUSE_READDIR \<Rightarrow> ''READDIR''
   | Some FUSE_RELEASEDIR \<Rightarrow> ''RELEASEDIR'' | Some FUSE_FSYNCDIR \<Rightarrow> ''FSYNCDIR''
   | Some FUSE_FALLOCATE \<Rightarrow> ''FALLOCATE'' | Some FUSE_RENAME2 \<Rightarrow> ''RENAME2''
   | Some FUSE_STATX \<Rightarrow> ''STATX'' | Some FUSE_LOOKUP_ROOT \<Rightarrow> ''LOOKUP_ROOT''
   | Some FUSE_LOOKUPX \<Rightarrow> ''LOOKUPX'' | Some FUSE_MKOBJX \<Rightarrow> ''MKOBJX''
   | Some FUSE_SETSTATX \<Rightarrow> ''SETSTATX'' | Some FUSE_COMPOUND \<Rightarrow> ''COMPOUND''
   | _ \<Rightarrow> ''?'')"

subsection \<open>Reply shapes\<close>

text \<open>
  \<open>finish_unit\<close>: the tail \<open>if (!rv) reply_error else reply_ok\<close> of the callbacks that return
  \<open>std::expected<void, Errc>\<close>; \<open>finish_pod\<close>: the same tail with a structure as payload.
\<close>

definition finish_unit :: "'s Impl \<Rightarrow> Replier \<Rightarrow> ('s, unit) outcome \<Rightarrow> ('s Impl \<times> Replier) option" where
  "finish_unit im r rv = (case rv of
     (Inl e, s) \<Rightarrow> Some (im\<lparr>im_fs := s\<rparr>, reply_error r e)
   | (Inr u, s) \<Rightarrow> Some (im\<lparr>im_fs := s\<rparr>, reply_ok r))"

definition finish_pod ::
    "('b \<Rightarrow> byte list) \<Rightarrow> ('a \<Rightarrow> 'b) \<Rightarrow> 's Impl \<Rightarrow> Replier \<Rightarrow> ('s, 'a) outcome \<Rightarrow>
     ('s Impl \<times> Replier) option" where
  "finish_pod put f im r rv = (case rv of
     (Inl e, s) \<Rightarrow> Some (im\<lparr>im_fs := s\<rparr>, reply_error r e)
   | (Inr v, s) \<Rightarrow> do { r' \<leftarrow> reply_pod put r (f v); Some (im\<lparr>im_fs := s\<rparr>, r') })"

definition entryx_out :: "u32 \<Rightarrow> EntryOut \<Rightarrow> fuse_entryx_out" where
  "entryx_out flags rv =
     (let (sec, nsec) = split_duration (eo_entry_valid rv) in
      \<lparr>ex_nodeid = eo_nodeid rv, ex_entry_valid = sec, ex_entry_valid_nsec = nsec,
       ex_flags = flags\<rparr>)"

definition lookup_out :: "EntryOut \<Rightarrow> fuse_entryx_out" where
  "lookup_out rv = entryx_out (if eo_negative rv then FUSE_ENTRYX_NEGATIVE else 0) rv"

definition invalid :: "'s Impl \<Rightarrow> Replier \<Rightarrow> ('s Impl \<times> Replier) option" where
  "invalid im r = Some (im, reply_error r EINVAL)"

subsection \<open>INIT\<close>

definition init_flags :: u64 where
  "init_flags = FUSE_INIT_EXT OR FUSE_MAX_PAGES OR FUSE_PARALLEL_DIROPS
     OR FUSE_OVER_IO_URING OR FUSE_WRITEBACK_CACHE"

definition init_out_zero :: fuse_init_out where
  "init_out_zero =
     \<lparr>ino_major = 0, ino_minor = 0, ino_max_readahead = 0, ino_flags = 0, ino_max_background = 0,
      ino_congestion_threshold = 0, ino_max_write = 0, ino_time_gran = 0, ino_max_pages = 0,
      ino_map_alignment = 0, ino_flags2 = 0, ino_max_stack_depth = 0, ino_request_timeout = 0\<rparr>"

text \<open>The \<open>InitInfo\<close> offered to the daemon, and the reply built from what it left there.\<close>

definition init_info :: "nat \<Rightarrow> fuse_init_in \<Rightarrow> InitInfo" where
  "init_info payload_bytes inn =
     (let info = InitInfo_default in
      info\<lparr>ii_kernel_major := ini_major inn,
           ii_kernel_minor := ini_minor inn,
           ii_kernel_flags := ucast (ini_flags inn) OR push_bit 32 (ucast (ini_flags2 inn)),
           ii_max_readahead := ini_max_readahead inn,
           ii_max_write := min (ii_max_write info) (word_of_nat payload_bytes),
           ii_max_pages := word_of_nat
             (min (unat (ii_max_pages info)) ((payload_bytes + 4095) mod 2 ^ 64 div 4096)),
           ii_flags := init_flags\<rparr>)"

definition init_out :: "fuse_init_in \<Rightarrow> InitInfo \<Rightarrow> fuse_init_out" where
  "init_out inn info =
     init_out_zero\<lparr>ino_major := FUSE_KERNEL_VERSION,
       ino_minor := min (ini_minor inn) FUSE_KERNEL_MINOR_VERSION,
       ino_max_readahead := ini_max_readahead inn,
       ino_flags := ucast (ii_flags info AND 0xffffffff),
       ino_flags2 := ucast (drop_bit 32 (ii_flags info)),
       ino_max_background := 64,
       ino_congestion_threshold := 48,
       ino_max_write := ii_max_write info,
       ino_time_gran := ii_time_gran info,
       ino_max_pages := ii_max_pages info\<rparr>"

definition handle_init :: "'s Filesystem \<Rightarrow> 's handler" where
  [handler_defs]: "handle_init F im h body r = (case in_arg 64 h (length body) of
     None \<Rightarrow> invalid im r
   | Some p \<Rightarrow> do {
       inn \<leftarrow> load get_fuse_init_in body p;
       let kernel_flags = (ucast (ini_flags inn) :: u64) OR push_bit 32 (ucast (ini_flags2 inn));
       if kernel_flags AND FUSE_OVER_IO_URING = 0 then Some (im, reply_error r EOPNOTSUPP)
       else (case fs_init F (im_fs im) (init_info (opt_uring_payload_bytes (im_opts im)) inn) of
           (Inl e, info, s) \<Rightarrow> Some (im\<lparr>im_fs := s\<rparr>, reply_error r e)
         | (Inr u, info, s) \<Rightarrow>
             let info = info\<lparr>ii_flags := ii_flags info OR FUSE_OVER_IO_URING\<rparr>
             in if ii_kernel_major info \<noteq> FUSE_KERNEL_VERSION
                then do {
                  r' \<leftarrow> reply_pod put_fuse_init_out r (init_out_zero\<lparr>ino_major := FUSE_KERNEL_VERSION\<rparr>);
                  Some (im\<lparr>im_fs := s\<rparr>, r')}
                else do {
                  r' \<leftarrow> reply_pod put_fuse_init_out r (init_out inn info);
                  Some (im\<lparr>im_fs := s, im_init_done := True\<rparr>, r')})})"

subsection \<open>Lookup and forget\<close>

definition handle_lookup_root :: "'s Filesystem \<Rightarrow> 's handler" where
  [handler_defs]: "handle_lookup_root F im h body r =
     finish_pod put_fuse_entryx_out lookup_out im r (fs_lookup_root F (im_fs im) (make_ctx h))"

definition handle_lookupx :: "'s Filesystem \<Rightarrow> 's handler" where
  [handler_defs]: "handle_lookupx F im h body r =
     (if length body < 1 then invalid im r
      else do {
        nlen \<leftarrow> strnlen body 0 (length body);
        if nlen = length body then invalid im r
        else do {
          name \<leftarrow> slice body 0 nlen;
          finish_pod put_fuse_entryx_out lookup_out im r
            (fs_lookupx F (im_fs im) (make_ctx h) (ih_nodeid h) name)}})"

definition handle_forget :: "'s Filesystem \<Rightarrow> 's handler" where
  [handler_defs]: "handle_forget F im h body r = (case in_arg 8 h (length body) of
     None \<Rightarrow> invalid im r
   | Some p \<Rightarrow> do {
       inn \<leftarrow> load get_fuse_forget_in body p;
       Some (im\<lparr>im_fs := fs_forget F (im_fs im) (ih_nodeid h) (fgi_nlookup inn)\<rparr>, reply_ok r)})"

text \<open>The array of \<open>fuse_forget_one\<close> at \<open>body + off\<close>, repacked.\<close>

definition forget_items :: "byte list \<Rightarrow> nat \<Rightarrow> nat \<Rightarrow> (NodeId \<times> u64) list option" where
  "forget_items body off count =
     those (map (\<lambda>i. map_option (\<lambda>x. (fgo_nodeid x, fgo_nlookup x))
                       (load get_fuse_forget_one body (off + i * 16))) [0..<count])"

definition handle_batch_forget :: "'s Filesystem \<Rightarrow> 's handler" where
  [handler_defs]: "handle_batch_forget F im h body r = (case in_arg 8 h (length body) of
     None \<Rightarrow> invalid im r
   | Some p \<Rightarrow> do {
       inn \<leftarrow> load get_fuse_batch_forget_in body p;
       let count = unat (bfi_count inn);
       let off = 8;
       let need = count * 16;
       if length body < off + need then Some (im, reply_ok r)
       else do {
         repacked \<leftarrow> forget_items body off count;
         Some (im\<lparr>im_fs := fs_forget_multi F (im_fs im) repacked\<rparr>, reply_ok r)}})"

subsection \<open>Attributes\<close>

definition handle_statx :: "'s Filesystem \<Rightarrow> 's handler" where
  [handler_defs]: "handle_statx F im h body r = (case in_arg 24 h (length body) of
     None \<Rightarrow> invalid im r
   | Some p \<Rightarrow> finish_pod put_fuse_statx_out (\<lambda>v. pack_statx v one_second) im r
       (fs_statx F (im_fs im) (make_ctx h) (ih_nodeid h)))"

definition handle_setstatx :: "'s Filesystem \<Rightarrow> 's handler" where
  [handler_defs]: "handle_setstatx F im h body r =
     (let stat_off = 16 in
      case in_arg 272 h (length body) of
        None \<Rightarrow> invalid im r
      | Some p \<Rightarrow>
          if length body < stat_off + 256 then invalid im r
          else do {
            inn \<leftarrow> load get_fuse_setstatx_in body p;
            sx \<leftarrow> load get_fuse_statx body stat_off;
            let s = unpack_statx sx (SetStatxIn_zero\<lparr>si_mask := sx_mask sx\<rparr>);
            finish_pod put_fuse_statx_out (\<lambda>v. pack_statx v one_second) im r
              (fs_setstatx F (im_fs im) (make_ctx h) (ih_nodeid h) (ssi_fh inn) s)})"

subsection \<open>Namespace operations\<close>

text \<open>\<open>S_IFLNK\<close> in the four type bits of a mode.\<close>

definition is_symlink_mode :: "u16 \<Rightarrow> bool" where
  "is_symlink_mode m \<longleftrightarrow> m AND 0xf000 = 0xa000"

definition mkobjx_stat :: "fuse_statx \<Rightarrow> StatxOut" where
  "mkobjx_stat sx =
     StatxOut_zero\<lparr>so_mode := sx_mode sx, so_uid := sx_uid sx, so_gid := sx_gid sx,
       so_rdev_major := sx_rdev_major sx, so_rdev_minor := sx_rdev_minor sx,
       so_mask := sx_mask sx, so_atime := unpack_time (sx_atime sx),
       so_btime := unpack_time (sx_btime sx), so_ctime := unpack_time (sx_ctime sx),
       so_mtime := unpack_time (sx_mtime sx)\<rparr>"

definition handle_mkobjx :: "'s Filesystem \<Rightarrow> 's handler" where
  [handler_defs]: "handle_mkobjx F im h body r =
     (let stat_off = 64; name_off = stat_off + 256; ext = ext_bytes h in
      if length body < ext + name_off then invalid im r
      else do {
        inn \<leftarrow> load get_fuse_mkobjx_in body ext;
        sx \<leftarrow> load get_fuse_statx body stat_off;
        let namesize = unat (mki_namesize inn);
        if length body < name_off + namesize then invalid im r
        else do {
          let name_len = (if namesize \<noteq> 0 then namesize - 1 else 0);
          link_body \<leftarrow>
            (if is_symlink_mode (sx_mode sx) \<and> length body > name_off + namesize
             then do {
               let after = name_off + namesize;
               llen \<leftarrow> strnlen body after (length body - after);
               slice body after llen}
             else Some []);
          name \<leftarrow> slice body name_off name_len;
          finish_pod put_fuse_entryx_out (entryx_out 0) im r
            (fs_mkobjx F (im_fs im) (make_ctx h) (ih_nodeid h)
               \<lparr>mi_stat = mkobjx_stat sx, mi_flags = mki_flags inn, mi_name = name,
                mi_link_target = link_body\<rparr>)}})"

definition handle_unlink :: "'s Filesystem \<Rightarrow> bool \<Rightarrow> 's handler" where
  [handler_defs]: "handle_unlink F is_rmdir im h body r =
     (if length body < 1 then invalid im r
      else do {
        nlen \<leftarrow> strnlen body 0 (length body);
        if nlen = length body then invalid im r
        else do {
          sv \<leftarrow> slice body 0 nlen;
          finish_unit im r
            (if is_rmdir then fs_rmdir F (im_fs im) (make_ctx h) (ih_nodeid h) sv
             else fs_unlink F (im_fs im) (make_ctx h) (ih_nodeid h) sv)}})"

definition handle_rename2 :: "'s Filesystem \<Rightarrow> 's handler" where
  [handler_defs]: "handle_rename2 F im h body r =
     (let ext = ext_bytes h; names_off = ext + 16 in
      if length body < names_off + 2 then invalid im r
      else do {
        inn \<leftarrow> load get_fuse_rename2_in body ext;
        let avail = length body - names_off;
        olen \<leftarrow> strnlen body names_off avail;
        if olen = avail then invalid im r
        else do {
          let second = names_off + olen + 1;
          let remain = avail - olen - 1;
          nlen \<leftarrow> strnlen body second remain;
          if nlen = remain then invalid im r
          else do {
            oldname \<leftarrow> slice body names_off olen;
            newname \<leftarrow> slice body second nlen;
            finish_unit im r
              (fs_rename F (im_fs im) (make_ctx h) (ih_nodeid h) oldname
                 (rni_newdir inn) newname (rni_flags inn))}}})"

definition handle_link :: "'s Filesystem \<Rightarrow> 's handler" where
  [handler_defs]: "handle_link F im h body r =
     (let ext = ext_bytes h; name_off = ext + 8 in
      if length body < name_off + 1 then invalid im r
      else do {
        inn \<leftarrow> load get_fuse_link_in body ext;
        let avail = length body - name_off;
        nlen \<leftarrow> strnlen body name_off avail;
        if nlen = avail then invalid im r
        else do {
          name \<leftarrow> slice body name_off nlen;
          finish_unit im r
            (fs_link F (im_fs im) (make_ctx h) (lni_oldnodeid inn) (ih_nodeid h) name)}})"

subsection \<open>File handles and data\<close>

definition open_out :: "u32 \<Rightarrow> OpenOut \<Rightarrow> fuse_open_out" where
  "open_out flags rv = \<lparr>opo_fh = oo_fh rv, opo_open_flags = flags, opo_backing_id = 0\<rparr>"

definition handle_open :: "'s Filesystem \<Rightarrow> 's handler" where
  [handler_defs]: "handle_open F im h body r = (case in_arg 8 h (length body) of
     None \<Rightarrow> invalid im r
   | Some p \<Rightarrow> do {
       inn \<leftarrow> load get_fuse_open_in body p;
       finish_pod put_fuse_open_out (\<lambda>rv. open_out (oo_open_flags rv) rv) im r
         (fs_open F (im_fs im) (make_ctx h) (ih_nodeid h) (opi_flags inn))})"

definition handle_release :: "'s Filesystem \<Rightarrow> 's handler" where
  [handler_defs]: "handle_release F im h body r = (case in_arg 24 h (length body) of
     None \<Rightarrow> invalid im r
   | Some p \<Rightarrow> do {
       inn \<leftarrow> load get_fuse_release_in body p;
       finish_unit im r
         (fs_release F (im_fs im) (make_ctx h) (ih_nodeid h) (rli_fh inn) (rli_flags inn))})"

text \<open>
  \<open>finish_span\<close>: the tail of the callbacks that wrote straight into the first bytes of the
  reply buffer: the buffer now starts with what they left there, and the length is the
  count they returned, cut to the span.
\<close>

definition finish_span ::
    "'s Impl \<Rightarrow> Replier \<Rightarrow> nat \<Rightarrow> (Errc + nat) \<times> byte list \<times> 's \<Rightarrow> ('s Impl \<times> Replier) option" where
  "finish_span im r want res = (case res of (rv, buf, s) \<Rightarrow>
     (let r = r\<lparr>r_out := buf @ drop want (r_out r)\<rparr>; im = im\<lparr>im_fs := s\<rparr>
      in case rv of
           Inl e \<Rightarrow> Some (im, reply_error r e)
         | Inr n \<Rightarrow> Some (im, r\<lparr>r_neg_err := 0, r_len := min n want\<rparr>)))"

definition handle_read :: "'s Filesystem \<Rightarrow> 's handler" where
  [handler_defs]: "handle_read F im h body r = (case in_arg 40 h (length body) of
     None \<Rightarrow> invalid im r
   | Some p \<Rightarrow> do {
       inn \<leftarrow> load get_fuse_read_in body p;
       let want = min (unat (rdi_size inn)) (r_cap r);
       span \<leftarrow> slice (r_out r) 0 want;
       finish_span im r want
         (fs_read F (im_fs im) (make_ctx h) (ih_nodeid h) (rdi_fh inn) (rdi_offset inn) span)})"

definition write_out :: "nat \<Rightarrow> fuse_write_out" where
  "write_out n = \<lparr>wro_size = word_of_nat n\<rparr>"

definition handle_write :: "'s Filesystem \<Rightarrow> 's handler" where
  [handler_defs]: "handle_write F im h body r =
     (let ext = ext_bytes h; data_off = ext + 40 in
      if length body < data_off then invalid im r
      else do {
        inn \<leftarrow> load get_fuse_write_in body ext;
        let size = unat (wri_size inn);
        if length body - data_off < size then invalid im r
        else do {
          data \<leftarrow> slice body data_off size;
          finish_pod put_fuse_write_out write_out im r
            (fs_write F (im_fs im) (make_ctx h) (ih_nodeid h) (wri_fh inn) (wri_offset inn) data)}})"

definition handle_readlink :: "'s Filesystem \<Rightarrow> 's handler" where
  [handler_defs]: "handle_readlink F im h body r =
     finish_pod id id im r (fs_readlink F (im_fs im) (make_ctx h) (ih_nodeid h))"

definition statfs_out :: "StatfsOut \<Rightarrow> fuse_kstatfs" where
  "statfs_out rv =
     \<lparr>ksf_blocks = sf_blocks rv, ksf_bfree = sf_bfree rv, ksf_bavail = sf_bavail rv,
      ksf_files = sf_files rv, ksf_ffree = sf_ffree rv, ksf_bsize = sf_bsize rv,
      ksf_namelen = sf_namelen rv, ksf_frsize = sf_frsize rv\<rparr>"

definition handle_statfs :: "'s Filesystem \<Rightarrow> 's handler" where
  [handler_defs]: "handle_statfs F im h body r =
     finish_pod put_fuse_kstatfs statfs_out im r
       (fs_statfs F (im_fs im) (make_ctx h) (ih_nodeid h))"

definition handle_fallocate :: "'s Filesystem \<Rightarrow> 's handler" where
  [handler_defs]: "handle_fallocate F im h body r = (case in_arg 32 h (length body) of
     None \<Rightarrow> invalid im r
   | Some p \<Rightarrow> do {
       inn \<leftarrow> load get_fuse_fallocate_in body p;
       finish_unit im r
         (fs_fallocate F (im_fs im) (make_ctx h) (ih_nodeid h) (fai_fh inn) (fai_mode inn)
            (fai_offset inn) (fai_length inn))})"

subsection \<open>Directories\<close>

definition handle_opendir :: "'s Filesystem \<Rightarrow> 's handler" where
  [handler_defs]: "handle_opendir F im h body r =
     finish_pod put_fuse_open_out (\<lambda>rv. open_out (oo_open_flags rv OR FOPEN_CACHE_DIR) rv) im r
       (fs_opendir F (im_fs im) (make_ctx h) (ih_nodeid h))"

definition handle_releasedir :: "'s Filesystem \<Rightarrow> 's handler" where
  [handler_defs]: "handle_releasedir F im h body r = (case in_arg 24 h (length body) of
     None \<Rightarrow> invalid im r
   | Some p \<Rightarrow> do {
       inn \<leftarrow> load get_fuse_release_in body p;
       finish_unit im r
         (fs_releasedir F (im_fs im) (make_ctx h) (ih_nodeid h) (rli_fh inn))})"

definition handle_readdir :: "'s Filesystem \<Rightarrow> 's handler" where
  [handler_defs]: "handle_readdir F im h body r = (case in_arg 40 h (length body) of
     None \<Rightarrow> invalid im r
   | Some p \<Rightarrow> do {
       inn \<leftarrow> load get_fuse_read_in body p;
       let cap = min (unat (rdi_size inn)) (r_cap r);
       span \<leftarrow> slice (r_out r) 0 cap;
       (rv, w, s) \<leftarrow> fs_readdir F (im_fs im) (make_ctx h) (ih_nodeid h) (rdi_fh inn)
         (rdi_offset inn) (DirentWriter_init span);
       let r' = r\<lparr>r_out := dw_buf w @ drop cap (r_out r)\<rparr>;
       case rv of
         Inl e \<Rightarrow> Some (im\<lparr>im_fs := s\<rparr>, reply_error r' e)
       | Inr u \<Rightarrow> Some (im\<lparr>im_fs := s\<rparr>, r'\<lparr>r_neg_err := 0, r_len := bytes_written w\<rparr>)})"

subsection \<open>Extended attributes\<close>

definition getxattr_out :: "nat \<Rightarrow> fuse_getxattr_out" where
  "getxattr_out n = \<lparr>gao_size = word_of_nat n\<rparr>"

definition drop_span :: "(Errc + nat) \<times> byte list \<times> 's \<Rightarrow> ('s, nat) outcome" where
  "drop_span res = (case res of (rv, buf, s) \<Rightarrow> (rv, s))"

definition handle_getxattr :: "'s Filesystem \<Rightarrow> 's handler" where
  [handler_defs]: "handle_getxattr F im h body r =
     (let ext = ext_bytes h; name_off = ext + 8 in
      if length body < name_off + 1 then invalid im r
      else do {
        inn \<leftarrow> load get_fuse_getxattr_in body ext;
        let avail = length body - name_off;
        nlen \<leftarrow> strnlen body name_off avail;
        if nlen = avail then invalid im r
        else do {
          name \<leftarrow> slice body name_off nlen;
          if gai_size inn = 0
          then finish_pod put_fuse_getxattr_out getxattr_out im r
                 (drop_span (fs_getxattr F (im_fs im) (make_ctx h) (ih_nodeid h) name []))
          else do {
            let cap = min (unat (gai_size inn)) (r_cap r);
            span \<leftarrow> slice (r_out r) 0 cap;
            finish_span im r cap (fs_getxattr F (im_fs im) (make_ctx h) (ih_nodeid h) name span)}}})"

definition handle_setxattr :: "'s Filesystem \<Rightarrow> 's handler" where
  [handler_defs]: "handle_setxattr F im h body r =
     (let ext = ext_bytes h; name_off = ext + 16 in
      if length body < name_off + 1 then invalid im r
      else do {
        inn \<leftarrow> load get_fuse_setxattr_in body ext;
        let avail = length body - name_off;
        nlen \<leftarrow> strnlen body name_off avail;
        if nlen = avail then invalid im r
        else do {
          let after = name_off + nlen + 1;
          let size = unat (sai_size inn);
          if length body < after + size then invalid im r
          else do {
            name \<leftarrow> slice body name_off nlen;
            val \<leftarrow> slice body after size;
            finish_unit im r
              (fs_setxattr F (im_fs im) (make_ctx h) (ih_nodeid h) name val (sai_flags inn))}}})"

definition handle_listxattr :: "'s Filesystem \<Rightarrow> 's handler" where
  [handler_defs]: "handle_listxattr F im h body r = (case in_arg 8 h (length body) of
     None \<Rightarrow> invalid im r
   | Some p \<Rightarrow> do {
       inn \<leftarrow> load get_fuse_getxattr_in body p;
       if gai_size inn = 0
       then finish_pod put_fuse_getxattr_out getxattr_out im r
              (drop_span (fs_listxattr F (im_fs im) (make_ctx h) (ih_nodeid h) []))
       else do {
         let cap = min (unat (gai_size inn)) (r_cap r);
         span \<leftarrow> slice (r_out r) 0 cap;
         finish_span im r cap (fs_listxattr F (im_fs im) (make_ctx h) (ih_nodeid h) span)}})"

text \<open>
  \<open>removexattr\<close> does not compare the extension length with the body length: \<open>avail\<close> is a
  wrapping subtraction.
\<close>

definition handle_removexattr :: "'s Filesystem \<Rightarrow> 's handler" where
  [handler_defs]: "handle_removexattr F im h body r =
     (let ext = ext_bytes h; avail = size_sub (length body) ext in
      do {
        nlen \<leftarrow> strnlen body ext avail;
        if nlen = avail then invalid im r
        else do {
          name \<leftarrow> slice body ext nlen;
          finish_unit im r (fs_removexattr F (im_fs im) (make_ctx h) (ih_nodeid h) name)}})"

end
