(* ===== verification/Handlers_Safe.thy ===== *)
theory Handlers_Safe
  imports Handlers
begin

text \<open>
  Memory safety and frame properties of the handlers: under the daemon contract
  (locale \<open>filesystem_contract\<close>) a handler given a well-formed replier always returns, so
  it reads only inside the request body and writes only inside the reply buffer; the
  reply length fits the buffer; and nothing of the session changes but the daemon's
  state and \<open>init_done\<close>. The one exception is \<open>removexattr\<close>, which needs the extension
  length to be within the body.
\<close>

definition session_frame :: "'s Impl \<Rightarrow> 's Impl \<Rightarrow> bool" where
  "session_frame im im' \<longleftrightarrow> im' = im\<lparr>im_fs := im_fs im', im_init_done := im_init_done im'\<rparr>"

definition handled :: "'s Impl \<Rightarrow> Replier \<Rightarrow> ('s Impl \<times> Replier) option \<Rightarrow> bool" where
  "handled im r res \<longleftrightarrow> (\<exists>im' r'. res = Some (im', r') \<and> replies r r' \<and> session_frame im im')"

named_theorems handled_intros "rules that follow the structure of a handler"

lemma session_frame_refl [simp]: "session_frame im im"
  by (simp add: session_frame_def)

lemma session_frame_fs [simp]: "session_frame im (im\<lparr>im_fs := s\<rparr>)"
  "session_frame im (im\<lparr>im_fs := s, im_init_done := b\<rparr>)"
  by (simp_all add: session_frame_def)

lemma session_frame_trans:
  assumes "session_frame a b" "session_frame b c"
  shows "session_frame a c"
proof -
  from assms(1) obtain s i where b: "b = a\<lparr>im_fs := s, im_init_done := i\<rparr>"
    unfolding session_frame_def by blast
  from assms(2) obtain s' i' where "c = b\<lparr>im_fs := s', im_init_done := i'\<rparr>"
    unfolding session_frame_def by blast
  with b show ?thesis by (simp add: session_frame_def)
qed

lemma session_frame_opts:
  assumes "session_frame a b"
  shows "im_opts b = im_opts a"
proof -
  from assms have "im_opts b = im_opts (a\<lparr>im_fs := im_fs b, im_init_done := im_init_done b\<rparr>)"
    unfolding session_frame_def by (rule arg_cong)
  then show ?thesis by simp
qed

lemma handled_Some: "replies r r' \<Longrightarrow> session_frame im im' \<Longrightarrow> handled im r (Some (im', r'))"
  by (simp add: handled_def)

lemma handled_invalid [handled_intros]: "handled im r (invalid im r)"
  by (simp add: handled_def invalid_def)

lemma handled_error [handled_intros]:
  "handled im r (Some (im, reply_error r e))" "handled im r (Some (im, reply_ok r))"
  "handled im r (Some (im\<lparr>im_fs := s\<rparr>, reply_error r e))"
  "handled im r (Some (im\<lparr>im_fs := s\<rparr>, reply_ok r))"
  by (simp_all add: handled_def)

lemma handled_finish_unit [handled_intros]: "handled im r (finish_unit im r rv)"
  by (auto simp: finish_unit_def handled_def split: prod.splits sum.splits)

lemma handled_finish_pod [handled_intros]:
  assumes "replier_ok r"
  shows "handled im r (finish_pod put f im r rv)"
proof -
  obtain x s where rv: "rv = (x, s)" by (cases rv)
  show ?thesis
  proof (cases x)
    case (Inl e)
    with rv show ?thesis by (simp add: finish_pod_def handled_def)
  next
    case (Inr v)
    obtain r' where "reply_pod put r (f v) = Some r'" "replies r r'"
      using reply_pod_safe [OF assms, of put "f v"] by blast
    with rv Inr show ?thesis by (simp add: finish_pod_def handled_def)
  qed
qed

lemma handled_finish_span [handled_intros]:
  assumes "replier_ok r" "want \<le> r_cap r" "\<And>rv buf s. res = (rv, buf, s) \<Longrightarrow> length buf = want"
  shows "handled im r (finish_span im r want res)"
  using assms
  by (auto simp: finish_span_def handled_def replies_def replier_ok_def Let_def
      split: prod.splits sum.splits)

lemma handled_if [handled_intros]:
  "(b \<Longrightarrow> handled im r x) \<Longrightarrow> (\<not> b \<Longrightarrow> handled im r y) \<Longrightarrow> handled im r (if b then x else y)"
  by simp

lemma handled_in_arg [handled_intros]:
  assumes "handled im r a" "ext_bytes h + sz \<le> n \<Longrightarrow> handled im r (f (ext_bytes h))"
  shows "handled im r (case in_arg sz h n of None \<Rightarrow> a | Some p \<Rightarrow> f p)"
  using assms by (simp add: in_arg_def)

lemma handled_load:
  assumes "consumes n g" "off + n \<le> length mem" "\<And>x. load g mem off = Some x \<Longrightarrow> handled im r (f x)"
  shows "handled im r (load g mem off \<bind> f)"
  using consumes_load(1) [OF assms(1,2)] assms(3) by auto

lemmas handled_loads [handled_intros] =
  init_in.get_consumes [THEN handled_load] forget_in.get_consumes [THEN handled_load]
  batch_forget_in.get_consumes [THEN handled_load] setstatx_in.get_consumes [THEN handled_load]
  statx.get_consumes [THEN handled_load] mkobjx_in.get_consumes [THEN handled_load]
  rename2_in.get_consumes [THEN handled_load] link_in.get_consumes [THEN handled_load]
  open_in.get_consumes [THEN handled_load] release_in.get_consumes [THEN handled_load]
  read_in.get_consumes [THEN handled_load] write_in.get_consumes [THEN handled_load]
  fallocate_in.get_consumes [THEN handled_load] getxattr_in.get_consumes [THEN handled_load]
  setxattr_in.get_consumes [THEN handled_load]

lemma handled_slice [handled_intros]:
  assumes "off + n \<le> length mem" "\<And>bs. length bs = n \<Longrightarrow> handled im r (f bs)"
  shows "handled im r (slice mem off n \<bind> f)"
  using assms by simp

lemma handled_strnlen [handled_intros]:
  assumes "off + m \<le> length mem" "\<And>n. n \<le> m \<Longrightarrow> handled im r (f n)"
  shows "handled im r (strnlen mem off m \<bind> f)"
  using strnlen_in_bounds [OF assms(1)] assms(2) by auto

lemma handled_bind_if [handled_intros]:
  assumes "b \<Longrightarrow> handled im r (x \<bind> f)" "\<not> b \<Longrightarrow> handled im r (y \<bind> f)"
  shows "handled im r ((if b then x else y) \<bind> f)"
  using assms by simp

lemma handled_bind_Some [handled_intros]: "handled im r (f x) \<Longrightarrow> handled im r (Some x \<bind> f)"
  by simp

lemma handled_bind_assoc [handled_intros]:
  "handled im r (m \<bind> (\<lambda>x. g x \<bind> f)) \<Longrightarrow> handled im r ((m \<bind> g) \<bind> f)"
  by simp

lemma handled_reply_pod [handled_intros]:
  assumes "replier_ok r" "\<And>r'. replies r r' \<Longrightarrow> handled im r (f r')"
  shows "handled im r (reply_pod put r x \<bind> f)"
  using reply_pod_safe [OF assms(1), of put x] assms(2) by auto

subsection \<open>The handlers without extra conditions\<close>

lemma those_Some_iff: "(\<exists>ys. those xs = Some ys) \<longleftrightarrow> None \<notin> set xs"
  by (induction xs) (auto split: option.splits)

lemma forget_items_Some:
  assumes "off + count * 16 \<le> length body"
  shows "\<exists>items. forget_items body off count = Some items"
proof -
  have "\<exists>x. load get_fuse_forget_one body (off + i * 16) = Some x" if "i < count" for i
  proof (rule forget_one.load_in_bounds)
    from that have "i * 16 + 16 \<le> count * 16" by simp
    with assms show "off + i * 16 + 16 \<le> length body" by simp
  qed
  then show ?thesis unfolding forget_items_def those_Some_iff by fastforce
qed

lemma handled_forget_items [handled_intros]:
  assumes "off + count * 16 \<le> length body" "\<And>items. handled im r (f items)"
  shows "handled im r (forget_items body off count \<bind> f)"
  using forget_items_Some [OF assms(1)] assms(2) by auto

lemma handled_init_result [handled_intros]:
  assumes "\<And>e info s. handled im r (a e info s)" "\<And>u info s. handled im r (b u info s)"
  shows "handled im r (case res of (Inl e, info, s) \<Rightarrow> a e info s | (Inr u, info, s) \<Rightarrow> b u info s)"
  using assms by (auto split: prod.splits sum.splits)

lemma handled_init: "replier_ok r \<Longrightarrow> handled im r (handle_init F im h body r)"
  unfolding handle_init_def Let_def by (intro handled_intros handled_Some) simp_all

lemma handled_lookup_root: "replier_ok r \<Longrightarrow> handled im r (handle_lookup_root F im h body r)"
  unfolding handle_lookup_root_def by (intro handled_intros)

lemma handled_lookupx: "replier_ok r \<Longrightarrow> handled im r (handle_lookupx F im h body r)"
  unfolding handle_lookupx_def by (intro handled_intros) auto

lemma handled_forget: "handled im r (handle_forget F im h body r)"
  unfolding handle_forget_def by (intro handled_intros) auto

lemma handled_batch_forget: "handled im r (handle_batch_forget F im h body r)"
  unfolding handle_batch_forget_def Let_def by (intro handled_intros) auto

lemma handled_statx: "replier_ok r \<Longrightarrow> handled im r (handle_statx F im h body r)"
  unfolding handle_statx_def by (intro handled_intros)

lemma handled_setstatx: "replier_ok r \<Longrightarrow> handled im r (handle_setstatx F im h body r)"
  unfolding handle_setstatx_def Let_def by (intro handled_intros) auto

lemma handled_mkobjx: "replier_ok r \<Longrightarrow> handled im r (handle_mkobjx F im h body r)"
  unfolding handle_mkobjx_def Let_def by (intro handled_intros) auto

lemma handled_unlink: "handled im r (handle_unlink F is_rmdir im h body r)"
  unfolding handle_unlink_def by (intro handled_intros) auto

lemma handled_rename2: "handled im r (handle_rename2 F im h body r)"
  unfolding handle_rename2_def Let_def by (intro handled_intros) auto

lemma handled_link: "handled im r (handle_link F im h body r)"
  unfolding handle_link_def Let_def by (intro handled_intros) auto

lemma handled_open: "replier_ok r \<Longrightarrow> handled im r (handle_open F im h body r)"
  unfolding handle_open_def by (intro handled_intros) auto

lemma handled_release: "handled im r (handle_release F im h body r)"
  unfolding handle_release_def by (intro handled_intros) auto

lemma handled_write: "replier_ok r \<Longrightarrow> handled im r (handle_write F im h body r)"
  unfolding handle_write_def Let_def by (intro handled_intros) auto

lemma handled_readlink: "replier_ok r \<Longrightarrow> handled im r (handle_readlink F im h body r)"
  unfolding handle_readlink_def by (intro handled_intros)

lemma handled_statfs: "replier_ok r \<Longrightarrow> handled im r (handle_statfs F im h body r)"
  unfolding handle_statfs_def by (intro handled_intros)

lemma handled_fallocate: "handled im r (handle_fallocate F im h body r)"
  unfolding handle_fallocate_def by (intro handled_intros) auto

lemma handled_opendir: "replier_ok r \<Longrightarrow> handled im r (handle_opendir F im h body r)"
  unfolding handle_opendir_def by (intro handled_intros)

lemma handled_releasedir: "handled im r (handle_releasedir F im h body r)"
  unfolding handle_releasedir_def by (intro handled_intros) auto

lemma handled_setxattr: "handled im r (handle_setxattr F im h body r)"
  unfolding handle_setxattr_def Let_def by (intro handled_intros) auto

lemma handled_removexattr:
  "ext_bytes h \<le> length body \<Longrightarrow> handled im r (handle_removexattr F im h body r)"
  unfolding handle_removexattr_def Let_def by (intro handled_intros) auto

subsection \<open>The handlers that hand out memory\<close>

context filesystem_contract
begin

lemma handled_read: "replier_ok r \<Longrightarrow> handled im r (handle_read F im h body r)"
  unfolding handle_read_def Let_def
  by (intro handled_intros) (auto simp: replier_ok_def dest!: read_span)

lemma handled_getxattr: "replier_ok r \<Longrightarrow> handled im r (handle_getxattr F im h body r)"
  unfolding handle_getxattr_def Let_def
  by (intro handled_intros) (auto simp: replier_ok_def dest!: getxattr_span)

lemma handled_listxattr: "replier_ok r \<Longrightarrow> handled im r (handle_listxattr F im h body r)"
  unfolding handle_listxattr_def Let_def
  by (intro handled_intros) (auto simp: replier_ok_def dest!: listxattr_span)

lemma readdir_fills:
  obtains rv w s' where "fs_readdir F s c n fh off (DirentWriter_init span) = Some (rv, w, s')"
    and "length (dw_buf w) = length span" "bytes_written w \<le> length span"
proof -
  have ok: "dw_ok (DirentWriter_init span)" by (simp add: dw_ok_def DirentWriter_init_def)
  from readdir_adds [OF ok] obtain rv w s'
    where res: "fs_readdir F s c n fh off (DirentWriter_init span) = Some (rv, w, s')"
      and reach: "dw_reach (DirentWriter_init span) w" by blast
  from dw_reach_ok [OF reach ok] have "length (dw_buf w) = length span" "bytes_written w \<le> length span"
    by (simp_all add: DirentWriter_init_def dw_ok_def bytes_written_def)
  with res that show thesis by blast
qed

lemma handled_readdir: "replier_ok r \<Longrightarrow> handled im r (handle_readdir F im h body r)"
  unfolding handle_readdir_def Let_def
proof (intro handled_intros)
  fix inn :: fuse_read_in and span :: "byte list"
  let ?cap = "min (unat (rdi_size inn)) (r_cap r)"
  assume ok: "replier_ok r" and span: "length span = ?cap"
  obtain rv w s' where "fs_readdir F (im_fs im) (make_ctx h) (ih_nodeid h) (rdi_fh inn)
      (rdi_offset inn) (DirentWriter_init span) = Some (rv, w, s')"
    and "length (dw_buf w) = length span" "bytes_written w \<le> length span"
    by (rule readdir_fills)
  with ok span show "handled im r (fs_readdir F (im_fs im) (make_ctx h) (ih_nodeid h) (rdi_fh inn)
      (rdi_offset inn) (DirentWriter_init span) \<bind> (\<lambda>(rv, w, s).
        case rv of
          Inl e \<Rightarrow> Some (im\<lparr>im_fs := s\<rparr>,
            reply_error (r\<lparr>r_out := dw_buf w @ drop ?cap (r_out r)\<rparr>) e)
        | Inr u \<Rightarrow> Some (im\<lparr>im_fs := s\<rparr>, r\<lparr>r_out := dw_buf w @ drop ?cap (r_out r), r_neg_err := 0,
            r_len := bytes_written w\<rparr>)))"
    by (auto simp: handled_def replies_def replier_ok_def split: sum.splits)
qed (auto simp: replier_ok_def)

end

end
