(* ===== verification/Dispatch.thy ===== *)
theory Dispatch
  imports Handlers_Safe
begin

text \<open>
  \<open>Session::Impl::dispatch\<close> and \<open>handle_compound\<close> of \<open>src/handlers.cpp\<close>. The two call each
  other in the source; the guard on nested compounds keeps the recursion one level deep.
  The model follows it: \<open>dispatch_with\<close> is the switch with the compound handler as an
  argument, \<open>handle_compound\<close> dispatches its sub-requests through the switch (its own
  branch is behind the guard) and \<open>dispatch\<close> closes the knot; \<open>compound_step_dispatch\<close>
  recovers the source's equation.
\<close>

subsection \<open>The switch\<close>

definition dispatch_with :: "'s handler \<Rightarrow> 's Filesystem \<Rightarrow> 's handler" where
  "dispatch_with compound F im h body r = (case opcode_of (ih_opcode h) of
     Some FUSE_INIT \<Rightarrow> handle_init F im h body r
   | Some FUSE_LOOKUP_ROOT \<Rightarrow> handle_lookup_root F im h body r
   | Some FUSE_LOOKUPX \<Rightarrow> handle_lookupx F im h body r
   | Some FUSE_FORGET \<Rightarrow> handle_forget F im h body r
   | Some FUSE_BATCH_FORGET \<Rightarrow> handle_batch_forget F im h body r
   | Some FUSE_STATX \<Rightarrow> handle_statx F im h body r
   | Some FUSE_SETSTATX \<Rightarrow> handle_setstatx F im h body r
   | Some FUSE_MKOBJX \<Rightarrow> handle_mkobjx F im h body r
   | Some FUSE_UNLINK \<Rightarrow> handle_unlink F False im h body r
   | Some FUSE_RMDIR \<Rightarrow> handle_unlink F True im h body r
   | Some FUSE_RENAME2 \<Rightarrow> handle_rename2 F im h body r
   | Some FUSE_LINK \<Rightarrow> handle_link F im h body r
   | Some FUSE_READ \<Rightarrow> handle_read F im h body r
   | Some FUSE_WRITE \<Rightarrow> handle_write F im h body r
   | Some FUSE_READLINK \<Rightarrow> handle_readlink F im h body r
   | Some FUSE_STATFS \<Rightarrow> handle_statfs F im h body r
   | Some FUSE_FALLOCATE \<Rightarrow> handle_fallocate F im h body r
   | Some FUSE_OPEN \<Rightarrow> handle_open F im h body r
   | Some FUSE_RELEASE \<Rightarrow> handle_release F im h body r
   | Some FUSE_OPENDIR \<Rightarrow> handle_opendir F im h body r
   | Some FUSE_RELEASEDIR \<Rightarrow> handle_releasedir F im h body r
   | Some FUSE_READDIR \<Rightarrow> handle_readdir F im h body r
   | Some FUSE_GETXATTR \<Rightarrow> handle_getxattr F im h body r
   | Some FUSE_SETXATTR \<Rightarrow> handle_setxattr F im h body r
   | Some FUSE_LISTXATTR \<Rightarrow> handle_listxattr F im h body r
   | Some FUSE_REMOVEXATTR \<Rightarrow> handle_removexattr F im h body r
   | Some FUSE_COMPOUND \<Rightarrow> compound im h body r
   | _ \<Rightarrow> Some (im, reply_error r ENOSYS))"

subsection \<open>Compound requests\<close>

text \<open>
  The loop's variables: the session, the read offset \<open>p\<close> into the body, the reply memory
  with the write offset \<open>out_p\<close>, and the node ids produced so far.
\<close>

record 's compound_state =
  cs_im :: "'s Impl"
  cs_p :: nat
  cs_out :: "byte list"
  cs_out_p :: nat
  cs_produced :: "u64 list"

definition with_dep :: "u64 list \<Rightarrow> fuse_compound_req_in \<Rightarrow> fuse_in_header \<Rightarrow> fuse_in_header" where
  "with_dep produced sub_req sub_h =
     (if cri_dep_index sub_req \<noteq> FUSE_COMPOUND_NO_DEP \<and>
         unat (cri_dep_index sub_req) < length produced
      then sub_h\<lparr>ih_nodeid := produced ! unat (cri_dep_index sub_req)\<rparr> else sub_h)"

definition produces_entry :: "u32 \<Rightarrow> bool" where
  "produces_entry opcode \<longleftrightarrow> opcode = opcode_val FUSE_LOOKUPX \<or> opcode = opcode_val FUSE_MKOBJX \<or>
     opcode = opcode_val FUSE_LOOKUP_ROOT"

definition produced_nodeid :: "u32 \<Rightarrow> Replier \<Rightarrow> u64 option" where
  "produced_nodeid opcode sub_r =
     (if r_neg_err sub_r = 0 \<and> r_len sub_r \<ge> 8 \<and> produces_entry opcode
      then load get64 (r_out sub_r) 0 else Some 0)"

definition reply_len :: "Replier \<Rightarrow> nat" where
  "reply_len r = (if r_neg_err r \<noteq> 0 then 0 else r_len r)"

definition sub_out_header :: "fuse_in_header \<Rightarrow> Replier \<Rightarrow> fuse_out_header" where
  "sub_out_header sub_h sub_r =
     \<lparr>oh_len = word_of_nat (16 + reply_len sub_r), oh_error = r_neg_err sub_r,
      oh_unique = ih_unique sub_h\<rparr>"

text \<open>
  One iteration of the loop: \<^term>\<open>Some None\<close> is the early return with \<open>EINVAL\<close>.
\<close>

definition compound_step ::
    "'s handler \<Rightarrow> byte list \<Rightarrow> nat \<Rightarrow> 's compound_state \<Rightarrow> 's compound_state option option" where
  "compound_step disp body cap st =
     (if length body - cs_p st < 44 \<or> cs_out_p st + 16 > cap then Some None
      else do {
        sub_req \<leftarrow> load get_fuse_compound_req_in body (cs_p st);
        sub_h \<leftarrow> load get_fuse_in_header body (cs_p st + 4);
        let p = cs_p st + 44;
        if unat (ih_len sub_h) < 40 \<or> length body - p < unat (ih_len sub_h) - 40 then Some None
        else do {
          let sub_len = unat (ih_len sub_h) - 40;
          let sub_h = with_dep (cs_produced st) sub_req sub_h;
          sub_body \<leftarrow> slice body p sub_len;
          let sub_r = \<lparr>r_out = drop (cs_out_p st + 16) (cs_out st), r_cap = cap - cs_out_p st - 16,
                       r_len = 0, r_neg_err = 0, r_unique = ih_unique sub_h\<rparr>;
          (im, sub_r) \<leftarrow>
            (if ih_opcode sub_h = opcode_val FUSE_COMPOUND
             then Some (cs_im st, reply_error sub_r EOPNOTSUPP)
             else disp (cs_im st) sub_h sub_body sub_r);
          prod \<leftarrow> produced_nodeid (ih_opcode sub_h) sub_r;
          let oh = sub_out_header sub_h sub_r;
          out \<leftarrow> store (take (cs_out_p st + 16) (cs_out st) @ r_out sub_r) (cs_out_p st)
            (put_fuse_out_header oh);
          Some (Some \<lparr>cs_im = im, cs_p = p + sub_len, cs_out = out,
                      cs_out_p = cs_out_p st + unat (oh_len oh),
                      cs_produced = cs_produced st @ [prod]\<rparr>)}})"

lemma compound_step_progress:
  assumes "compound_step disp body cap st = Some (Some st')"
  shows "cs_p st + 44 \<le> cs_p st'" "cs_p st' \<le> length body"
  using assms by (auto simp: compound_step_def Let_def bind_eq_Some_conv split: if_splits)

text \<open>The flag of the result tells a finished loop from the early return.\<close>

function compound_loop ::
    "'s handler \<Rightarrow> byte list \<Rightarrow> nat \<Rightarrow> 's compound_state \<Rightarrow> ('s compound_state \<times> bool) option" where
  "compound_loop disp body cap st =
     (if cs_p st < length body
      then do {
        res \<leftarrow> compound_step disp body cap st;
        case res of
          None \<Rightarrow> Some (st, False)
        | Some st' \<Rightarrow> compound_loop disp body cap st'}
      else Some (st, True))"
  by pat_completeness auto
termination
proof (relation "measure (\<lambda>(disp, body, cap, st). length body - cs_p st)")
  fix disp :: "'s handler" and body cap and st st' :: "'s compound_state" and res
  assume "cs_p st < length body" "compound_step disp body cap st = Some res" "res = Some st'"
  with compound_step_progress [of disp body cap st st']
  show "((disp, body, cap, st'), disp, body, cap, st)
      \<in> measure (\<lambda>(disp, body, cap, st). length body - cs_p st)" by simp
qed simp

declare compound_loop.simps [simp del]

definition handle_compound_with :: "'s handler \<Rightarrow> 's handler" where
  "handle_compound_with disp im h body r =
     (if length body < 16 \<or> r_cap r < 16 then invalid im r
      else do {
        out \<leftarrow> store (r_out r) 0 (zeros 16);
        (st, finished) \<leftarrow> compound_loop disp body (r_cap r)
          \<lparr>cs_im = im, cs_p = 16, cs_out = out, cs_out_p = 16, cs_produced = []\<rparr>;
        let r = r\<lparr>r_out := cs_out st\<rparr>;
        if finished then Some (cs_im st, r\<lparr>r_neg_err := 0, r_len := cs_out_p st\<rparr>)
        else Some (cs_im st, reply_error r EINVAL)})"

definition handle_compound :: "'s Filesystem \<Rightarrow> 's handler" where
  "handle_compound F =
     handle_compound_with (dispatch_with (\<lambda>im h body r. Some (im, reply_error r EOPNOTSUPP)) F)"

definition dispatch :: "'s Filesystem \<Rightarrow> 's handler" where
  "dispatch F = dispatch_with (handle_compound F) F"

text \<open>The source's equation: sub-requests go through \<open>dispatch\<close> itself.\<close>

lemma dispatch_with_other:
  assumes "ih_opcode h \<noteq> opcode_val FUSE_COMPOUND"
  shows "dispatch_with c F im h body r = dispatch_with c' F im h body r"
proof (cases "opcode_of (ih_opcode h)")
  case None
  then show ?thesis by (simp add: dispatch_with_def)
next
  case (Some op)
  with assms have "op \<noteq> FUSE_COMPOUND" by (auto simp: opcode_of_Some)
  with Some show ?thesis by (cases op) (simp_all add: dispatch_with_def)
qed

lemma ih_opcode_with_dep [simp]:
  "ih_opcode (with_dep produced q h) = ih_opcode h" "ih_unique (with_dep produced q h) = ih_unique h"
  "ih_len (with_dep produced q h) = ih_len h"
  "ext_bytes (with_dep produced q h) = ext_bytes h"
  by (simp_all add: with_dep_def ext_bytes_def)

lemma compound_step_dispatch:
  "compound_step (dispatch_with c F) body cap st = compound_step (dispatch_with c' F) body cap st"
  unfolding compound_step_def Let_def
  by (intro if_cong Option.bind_cong refl) (simp add: dispatch_with_other [of _ c F _ _ _ c'])

lemma compound_loop_dispatch:
  "compound_loop (dispatch_with c F) body cap st = compound_loop (dispatch_with c' F) body cap st"
proof (induction "dispatch_with c F" body cap st rule: compound_loop.induct)
  case (1 body cap st)
  show ?case
    using 1 by (subst (1 2) compound_loop.simps)
      (auto simp: compound_step_dispatch [of c F _ _ _ c'] intro!: Option.bind_cong split: option.splits)
qed

lemma handle_compound_dispatch: "handle_compound F = handle_compound_with (dispatch F)"
proof -
  let ?guarded = "\<lambda>im h body r. Some (im, reply_error r EOPNOTSUPP)"
  have loop: "compound_loop (dispatch_with ?guarded F) = compound_loop (dispatch F)"
    unfolding dispatch_def by (intro ext) (rule compound_loop_dispatch)
  have "handle_compound_with (dispatch_with ?guarded F) = handle_compound_with (dispatch F)"
    unfolding handle_compound_with_def by (intro ext) (simp only: loop)
  then show ?thesis by (simp only: handle_compound_def)
qed

subsection \<open>Memory safety of dispatch\<close>

text \<open>
  The sub-requests the loop walks over, as a pure parse of the body; and the condition
  under which no handler reads outside its body: a \<open>REMOVEXATTR\<close>, at the top level or in a
  compound, has an extension blob no longer than its body.
\<close>

definition next_sub :: "byte list \<Rightarrow> nat \<Rightarrow> (fuse_compound_req_in \<times> fuse_in_header \<times> byte list) option" where
  "next_sub body p =
     (if length body - p < 44 then None
      else do {
        q \<leftarrow> load get_fuse_compound_req_in body p;
        h \<leftarrow> load get_fuse_in_header body (p + 4);
        if unat (ih_len h) < 40 \<or> length body - (p + 44) < unat (ih_len h) - 40 then None
        else Some (q, h, take (unat (ih_len h) - 40) (drop (p + 44) body))})"

function subrequests :: "byte list \<Rightarrow> nat \<Rightarrow> (fuse_compound_req_in \<times> fuse_in_header \<times> byte list) list" where
  "subrequests body p = (case next_sub body p of
     None \<Rightarrow> []
   | Some (q, h, b) \<Rightarrow> (q, h, b) # subrequests body (p + 44 + length b))"
  by pat_completeness auto
termination
  by (relation "measure (\<lambda>(body, p). length body - p)")
    (auto simp: next_sub_def bind_eq_Some_conv split: if_splits)

declare subrequests.simps [simp del]

definition ext_ok :: "fuse_in_header \<Rightarrow> byte list \<Rightarrow> bool" where
  "ext_ok h body \<longleftrightarrow> ih_opcode h = opcode_val FUSE_REMOVEXATTR \<longrightarrow> ext_bytes h \<le> length body"

definition request_ok :: "fuse_in_header \<Rightarrow> byte list \<Rightarrow> bool" where
  "request_ok h body \<longleftrightarrow> ext_ok h body \<and>
     (ih_opcode h = opcode_val FUSE_COMPOUND \<longrightarrow> (\<forall>(q, h, b) \<in> set (subrequests body 16). ext_ok h b))"

lemma ext_ok_with_dep [simp]: "ext_ok (with_dep produced q h) b = ext_ok h b"
  by (simp add: ext_ok_def)

context filesystem_contract
begin

lemma handled_dispatch_with:
  assumes "replier_ok r" "ext_ok h body"
    and "ih_opcode h = opcode_val FUSE_COMPOUND \<Longrightarrow> handled im r (compound im h body r)"
  shows "handled im r (dispatch_with compound F im h body r)"
proof (cases "opcode_of (ih_opcode h)")
  case None
  then show ?thesis by (simp add: dispatch_with_def handled_intros)
next
  case (Some op)
  note handlers = handled_init handled_lookup_root handled_lookupx handled_forget
    handled_batch_forget handled_statx handled_setstatx handled_mkobjx handled_unlink
    handled_rename2 handled_link handled_open handled_release handled_write handled_readlink
    handled_statfs handled_fallocate handled_opendir handled_releasedir handled_setxattr
    handled_read handled_getxattr handled_listxattr handled_readdir
  from Some assms(2,3) have "op = FUSE_REMOVEXATTR \<Longrightarrow> ext_bytes h \<le> length body"
    and "op = FUSE_COMPOUND \<Longrightarrow> handled im r (compound im h body r)"
    by (simp_all add: ext_ok_def opcode_of_Some)
  with Some assms(1) show ?thesis
    by (cases op) (simp_all add: dispatch_with_def handlers handled_removexattr handled_intros)
qed

lemma handled_sub_dispatch:
  assumes "replier_ok sub_r" "ext_ok h b"
  shows "handled im sub_r
    (if ih_opcode h = opcode_val FUSE_COMPOUND then Some (im, reply_error sub_r EOPNOTSUPP)
     else dispatch F im h b sub_r)"
  using assms by (auto simp: dispatch_def intro: handled_dispatch_with handled_intros)

end

lemma unat_word_of_nat_le: "unat (word_of_nat n :: 'a::len word) \<le> n"
  by (metis mod_less_eq_dividend unat_of_nat)

lemma produced_nodeid_Some:
  assumes "replier_ok sub_r" "replies sub_r sub_r'"
  shows "\<exists>x. produced_nodeid opcode sub_r' = Some x"
proof (cases "r_len sub_r' \<ge> 8")
  case True
  with assms have "0 + 8 \<le> length (r_out sub_r')" by (simp add: replier_ok_def replies_def)
  from consumes_load(1) [OF consumes_get(4) this] show ?thesis by (simp add: produced_nodeid_def)
qed (simp add: produced_nodeid_def)

text \<open>One sub-reply on the wire: an out header and the payload.\<close>

definition sub_frame :: "fuse_in_header \<Rightarrow> i32 \<Rightarrow> byte list \<Rightarrow> byte list" where
  "sub_frame h e pl =
     put_fuse_out_header \<lparr>oh_len = word_of_nat (16 + length pl), oh_error = e, oh_unique = ih_unique h\<rparr>
     @ pl"

text \<open>
  \<open>extends st q h b st'\<close>: what a successful iteration over the sub-request \<open>(q, h, b)\<close> does:
  it consumes exactly that request, keeps the buffer size and everything already written,
  stays within the buffer, appends one node id and, when sizes fit 32 bits, one frame.
\<close>

definition extends ::
    "nat \<Rightarrow> 's compound_state \<Rightarrow> fuse_in_header \<Rightarrow> byte list \<Rightarrow> 's compound_state \<Rightarrow> bool" where
  "extends cap st h b st' \<longleftrightarrow>
     cs_p st' = cs_p st + 44 + length b \<and> length (cs_out st') = cap \<and> cs_out_p st' \<le> cap \<and>
     session_frame (cs_im st) (cs_im st') \<and>
     length (cs_produced st') = Suc (length (cs_produced st)) \<and>
     (cap < 2 ^ 32 \<longrightarrow> (\<exists>e pl. (e \<noteq> 0 \<longrightarrow> pl = []) \<and>
        take (cs_out_p st') (cs_out st') = take (cs_out_p st) (cs_out st) @ sub_frame h e pl))"

lemma compound_step_tail:
  assumes ok: "replier_ok sub_r" "replies sub_r sub_r'" "session_frame (cs_im st) im'"
    and sub_r: "r_cap sub_r = cap - cs_out_p st - 16"
    and out: "length (cs_out st) = cap" "cs_out_p st + 16 \<le> cap"
    and st': "cs_p st' = cs_p st + 44 + length b" "cs_im st' = im'"
      "length (cs_produced st') = Suc (length (cs_produced st))"
      "store (take (cs_out_p st + 16) (cs_out st) @ r_out sub_r') (cs_out_p st)
         (put_fuse_out_header (sub_out_header h sub_r')) = Some (cs_out st')"
      "cs_out_p st' = cs_out_p st + unat (oh_len (sub_out_header h sub_r'))"
  shows "extends cap st h b st'"
proof -
  let ?o = "cs_out_p st" and ?n = "reply_len sub_r'"
  let ?hd = "put_fuse_out_header (sub_out_header h sub_r')"
  from ok sub_r out have len: "length (r_out sub_r') = cap - ?o - 16" and n: "?n \<le> cap - ?o - 16"
    by (simp_all add: replier_ok_def replies_def reply_len_def)
  have cs_out: "cs_out st' = take ?o (cs_out st) @ ?hd @ r_out sub_r'"
    using st'(4) out len by (simp add: store_def)
  have le: "unat (word_of_nat (16 + ?n) :: u32) \<le> 16 + ?n"
    by (rule unat_word_of_nat_le)
  have "\<exists>e pl. (e \<noteq> 0 \<longrightarrow> pl = []) \<and>
      take (cs_out_p st') (cs_out st') = take ?o (cs_out st) @ sub_frame h e pl" if "cap < 2 ^ 32"
  proof (intro exI conjI)
    show "r_neg_err sub_r' \<noteq> 0 \<longrightarrow> take ?n (r_out sub_r') = []" by (simp add: reply_len_def)
    have "unat (word_of_nat (16 + ?n) :: u32) = 16 + ?n"
      using that n out by (simp only: unat_of_nat) simp
    moreover have "length (take ?n (r_out sub_r')) = ?n" using n len by simp
    ultimately show "take (cs_out_p st') (cs_out st') =
        take ?o (cs_out st) @ sub_frame h (r_neg_err sub_r') (take ?n (r_out sub_r'))"
      using out st'(5) by (simp add: cs_out sub_out_header_def sub_frame_def)
  qed
  moreover have "cs_out_p st' \<le> cap"
    using le n out st'(5) by (simp add: sub_out_header_def)
  moreover have "length (cs_out st') = cap" using cs_out out len by simp
  ultimately show ?thesis using ok(3) st'(1-3) by (simp add: extends_def)
qed

lemma extends_with_dep [simp]: "extends cap st (with_dep produced q h) b st' = extends cap st h b st'"
  by (simp add: extends_def sub_frame_def)

lemma next_sub_Some:
  assumes "load get_fuse_compound_req_in body p = Some q" "load get_fuse_in_header body (p + 4) = Some h"
    and "\<not> length body - p < 44"
    and "\<not> (unat (ih_len h) < 40 \<or> length body - (p + 44) < unat (ih_len h) - 40)"
  shows "next_sub body p = Some (q, h, take (unat (ih_len h) - 40) (drop (p + 44) body))"
  unfolding next_sub_def using assms by simp

context filesystem_contract
begin

lemma compound_step_extends:
  assumes out: "length (cs_out st) = cap"
    and ext: "\<forall>(q, h, b) \<in> set (subrequests body (cs_p st)). ext_ok h b"
  shows "compound_step (dispatch F) body cap st = Some None \<or>
    (\<exists>st' q h b. compound_step (dispatch F) body cap st = Some (Some st') \<and>
       next_sub body (cs_p st) = Some (q, h, b) \<and> extends cap st h b st')"
proof (cases "length body - cs_p st < 44 \<or> cs_out_p st + 16 > cap")
  case True
  then show ?thesis by (simp add: compound_step_def)
next
  case room: False
  then have "cs_p st + 4 \<le> length body" "cs_p st + 4 + 40 \<le> length body" by auto
  with compound_req_in.load_in_bounds in_header.load_in_bounds obtain q h where
    ld: "load get_fuse_compound_req_in body (cs_p st) = Some q"
      "load get_fuse_in_header body (cs_p st + 4) = Some h" by blast
  show ?thesis
  proof (cases "unat (ih_len h) < 40 \<or> length body - (cs_p st + 44) < unat (ih_len h) - 40")
    case True
    with room ld show ?thesis by (simp add: compound_step_def Let_def)
  next
    case len: False
    let ?n = "unat (ih_len h) - 40" and ?h = "with_dep (cs_produced st) q h"
    let ?b = "take ?n (drop (cs_p st + 44) body)"
    let ?sub_r = "\<lparr>r_out = drop (cs_out_p st + 16) (cs_out st), r_cap = cap - cs_out_p st - 16,
      r_len = 0, r_neg_err = 0, r_unique = ih_unique h\<rparr>"
    from room have "\<not> length body - cs_p st < 44" by simp
    from next_sub_Some [OF ld this len] have sub: "next_sub body (cs_p st) = Some (q, h, ?b)" .
    with ext have "ext_ok ?h ?b" by (simp add: subrequests.simps [of body "cs_p st"])
    moreover have ok: "replier_ok ?sub_r" using out by (simp add: replier_ok_def)
    ultimately obtain im' sub_r' where disp: "(if ih_opcode ?h = opcode_val FUSE_COMPOUND
          then Some (cs_im st, reply_error ?sub_r EOPNOTSUPP)
          else dispatch F (cs_im st) ?h ?b ?sub_r) = Some (im', sub_r')"
        and rep: "replies ?sub_r sub_r'" "session_frame (cs_im st) im'"
      using handled_sub_dispatch [of ?sub_r ?h ?b "cs_im st"] unfolding handled_def by blast
    obtain prod where prod: "produced_nodeid (ih_opcode ?h) sub_r' = Some prod"
      using produced_nodeid_Some [OF ok rep(1)] by blast
    obtain out' where st: "store (take (cs_out_p st + 16) (cs_out st) @ r_out sub_r') (cs_out_p st)
        (put_fuse_out_header (sub_out_header ?h sub_r')) = Some out'"
      using room out by (simp add: store_def)
    let ?st' = "\<lparr>cs_im = im', cs_p = cs_p st + 44 + ?n, cs_out = out',
      cs_out_p = cs_out_p st + unat (oh_len (sub_out_header ?h sub_r')),
      cs_produced = cs_produced st @ [prod]\<rparr>"
    from room len have sl: "slice body (cs_p st + 44) ?n = Some ?b" by (intro slice_Some) auto
    have "compound_step (dispatch F) body cap st = Some (Some ?st')"
      using room len ld sl disp prod st unfolding compound_step_def Let_def
      by (cases "ih_opcode h = opcode_val FUSE_COMPOUND") simp_all
    moreover have "extends cap st ?h ?b ?st'"
      by (rule compound_step_tail [OF ok rep]) (use room out len st in auto)
    ultimately show ?thesis using sub by auto
  qed
qed

end

text \<open>The reply area of a finished compound: one frame per sub-request, in order.\<close>

definition framed :: "(fuse_compound_req_in \<times> fuse_in_header \<times> byte list) list \<Rightarrow> (i32 \<times> byte list) list
    \<Rightarrow> byte list" where
  "framed subs rs = concat (map2 (\<lambda>(q, h, b) (e, pl). sub_frame h e pl) subs rs)"

definition frames_ok :: "(fuse_compound_req_in \<times> fuse_in_header \<times> byte list) list
    \<Rightarrow> (i32 \<times> byte list) list \<Rightarrow> bool" where
  "frames_ok subs rs \<longleftrightarrow> length rs = length subs \<and> (\<forall>(e, pl) \<in> set rs. e \<noteq> 0 \<longrightarrow> pl = [])"

lemma frames_Cons:
  assumes "frames_ok subs rs" "e \<noteq> 0 \<longrightarrow> pl = []"
  shows "frames_ok ((q, h, b) # subs) ((e, pl) # rs)"
    "framed ((q, h, b) # subs) ((e, pl) # rs) = sub_frame h e pl @ framed subs rs"
  using assms by (simp_all add: frames_ok_def framed_def)

lemma subrequests_end: "length body \<le> p \<Longrightarrow> subrequests body p = []"
  by (simp add: subrequests.simps [of body p] next_sub_def)

definition loop_ends :: "byte list \<Rightarrow> nat \<Rightarrow> 's compound_state \<Rightarrow> 's compound_state \<Rightarrow> bool \<Rightarrow> bool" where
  "loop_ends body cap st st' finished \<longleftrightarrow>
     length (cs_out st') = cap \<and> cs_out_p st' \<le> cap \<and> session_frame (cs_im st) (cs_im st') \<and>
     (finished \<and> cap < 2 ^ 32 \<longrightarrow> (\<exists>rs. frames_ok (subrequests body (cs_p st)) rs \<and>
        take (cs_out_p st') (cs_out st') =
          take (cs_out_p st) (cs_out st) @ framed (subrequests body (cs_p st)) rs))"

lemma loop_ends_refl:
  assumes "length (cs_out st) = cap" "cs_out_p st \<le> cap" "finished \<Longrightarrow> length body \<le> cs_p st"
  shows "loop_ends body cap st st finished"
  using assms by (auto simp: loop_ends_def subrequests_end frames_ok_def framed_def)

lemma loop_ends_step:
  assumes step: "next_sub body (cs_p st) = Some (q, h, b)" "extends cap st h b st1"
    and rest: "loop_ends body cap st1 st' finished"
  shows "loop_ends body cap st st' finished"
proof -
  have subs: "subrequests body (cs_p st) = (q, h, b) # subrequests body (cs_p st1)"
    using step by (simp add: subrequests.simps [of body "cs_p st"] extends_def)
  have "\<exists>rs. frames_ok (subrequests body (cs_p st)) rs \<and> take (cs_out_p st') (cs_out st') =
      take (cs_out_p st) (cs_out st) @ framed (subrequests body (cs_p st)) rs"
    if fin: "finished" "cap < 2 ^ 32"
  proof -
    from step(2) fin obtain e pl where e: "e \<noteq> 0 \<longrightarrow> pl = []"
      "take (cs_out_p st1) (cs_out st1) = take (cs_out_p st) (cs_out st) @ sub_frame h e pl"
      unfolding extends_def by blast
    from rest fin obtain rs where rs: "frames_ok (subrequests body (cs_p st1)) rs"
      "take (cs_out_p st') (cs_out st') =
         take (cs_out_p st1) (cs_out st1) @ framed (subrequests body (cs_p st1)) rs"
      unfolding loop_ends_def by blast
    show ?thesis
      unfolding subs using frames_Cons [OF rs(1) e(1), of q h b] e(2) rs(2)
      by (intro exI [of _ "(e, pl) # rs"]) simp
  qed
  with step(2) rest show ?thesis
    unfolding loop_ends_def extends_def by (auto intro: session_frame_trans)
qed

context filesystem_contract
begin

lemma compound_loop_ends:
  assumes "length (cs_out st) = cap" "cs_out_p st \<le> cap"
    and "\<forall>(q, h, b) \<in> set (subrequests body (cs_p st)). ext_ok h b"
  shows "\<exists>st' finished. compound_loop (dispatch F) body cap st = Some (st', finished) \<and>
    loop_ends body cap st st' finished"
  using assms
proof (induction "dispatch F" body cap st rule: compound_loop.induct)
  case (1 body cap st)
  show ?case
  proof (cases "cs_p st < length body")
    case False
    with 1(2,3) loop_ends_refl [of st cap True body] show ?thesis
      by (intro exI [of _ st] exI [of _ True]) (subst compound_loop.simps, simp)
  next
    case more: True
    consider (stop) "compound_step (dispatch F) body cap st = Some None"
      | (step) st1 q h b where "compound_step (dispatch F) body cap st = Some (Some st1)"
          "next_sub body (cs_p st) = Some (q, h, b)" "extends cap st h b st1"
      using compound_step_extends [OF 1(2,4)] by blast
    then show ?thesis
    proof cases
      case stop
      with more 1(2,3) loop_ends_refl [of st cap False body] show ?thesis
        by (intro exI [of _ st] exI [of _ False]) (subst compound_loop.simps, simp)
    next
      case step
      have "\<forall>(q, h, b) \<in> set (subrequests body (cs_p st1)). ext_ok h b"
        using 1(4) step(2,3) by (simp add: subrequests.simps [of body "cs_p st"] extends_def)
      with 1(1) [OF more step(1) refl] step(3) obtain st' finished where
        "compound_loop (dispatch F) body cap st1 = Some (st', finished)"
        "loop_ends body cap st1 st' finished"
        unfolding extends_def by blast
      with more step loop_ends_step [OF step(2,3)] show ?thesis
        by (subst compound_loop.simps) auto
    qed
  qed
qed

lemma compound_result:
  assumes ok: "replier_ok r" and "16 \<le> length body" "16 \<le> r_cap r"
    and ext: "\<forall>(q, h, b) \<in> set (subrequests body 16). ext_ok h b"
  shows "\<exists>im' r'. handle_compound F im h body r = Some (im', r') \<and> replies r r' \<and>
    session_frame im im' \<and>
    (r_neg_err r' = 0 \<and> r_cap r < 2 ^ 32 \<longrightarrow> (\<exists>rs. frames_ok (subrequests body 16) rs \<and>
       reply_bytes r' = zeros 16 @ framed (subrequests body 16) rs))"
proof -
  let ?out = "zeros 16 @ drop 16 (r_out r)"
  let ?st = "\<lparr>cs_im = im, cs_p = 16, cs_out = ?out, cs_out_p = 16, cs_produced = []\<rparr>"
  have "length (cs_out ?st) = r_cap r" "cs_out_p ?st \<le> r_cap r"
    "\<forall>(q, h, b) \<in> set (subrequests body (cs_p ?st)). ext_ok h b"
    using assms by (simp_all add: replier_ok_def)
  from compound_loop_ends [OF this] obtain st' finished where
    loop: "compound_loop (dispatch F) body (r_cap r) ?st = Some (st', finished)"
      and ends: "loop_ends body (r_cap r) ?st st' finished" by blast
  let ?r = "r\<lparr>r_out := cs_out st'\<rparr>"
  have "handle_compound F im h body r = Some (cs_im st',
      if finished then ?r\<lparr>r_neg_err := 0, r_len := cs_out_p st'\<rparr> else reply_error ?r EINVAL)"
    using assms loop by (simp add: handle_compound_dispatch handle_compound_with_def store_def replier_ok_def)
  moreover have "session_frame im (cs_im st')" using ends by (simp add: loop_ends_def)
  moreover have "replies r (if finished then ?r\<lparr>r_neg_err := 0, r_len := cs_out_p st'\<rparr>
      else reply_error ?r EINVAL)"
    using ends ok by (simp add: loop_ends_def replies_def replier_ok_def)
  moreover have "\<exists>rs. frames_ok (subrequests body 16) rs \<and>
      take (cs_out_p st') (cs_out st') = zeros 16 @ framed (subrequests body 16) rs"
    if "finished" "r_cap r < 2 ^ 32"
    using ends that by (simp add: loop_ends_def)
  ultimately show ?thesis
    by (cases finished) (simp_all add: reply_bytes_def errno_defs)
qed

lemma handled_compound:
  assumes "replier_ok r" "\<forall>(q, h, b) \<in> set (subrequests body 16). ext_ok h b"
  shows "handled im r (handle_compound F im h body r)"
proof (cases "length body < 16 \<or> r_cap r < 16")
  case True
  then show ?thesis
    by (simp add: handle_compound_def handle_compound_with_def handled_intros)
next
  case False
  with compound_result [OF assms(1), of body im h] assms(2) show ?thesis
    unfolding handled_def by auto
qed

lemma handled_dispatch:
  assumes "replier_ok r" "request_ok h body"
  shows "handled im r (dispatch F im h body r)"
  unfolding dispatch_def using assms
  by (intro handled_dispatch_with) (simp_all add: request_ok_def handled_compound)

end

end
