(* ===== verification/Requests.thy ===== *)
theory Requests
  imports Dispatch
begin

text \<open>
  What the dispatcher promises, stated without offsets: a request as the kernel means it
  (datatype \<open>request\<close>), its bytes (\<open>encode\<close>, the layouts of \<open>include/fex/fuse_uapi.h\<close>
  and of the comments in \<open>src/handlers.cpp\<close>), and its effect (\<open>perform\<close>: which callback
  runs with which arguments, and the bytes of the answer). The refinement theorem says
  that dispatching the encoding performs the request: the decoding offsets, the scans for
  terminators, the splitting of name pairs and the reply assembly of all handlers but
  \<open>INIT\<close> and \<open>COMPOUND\<close> are inside it.
\<close>

subsection \<open>Requests and their encoding\<close>

datatype request =
    LookupRoot
  | Lookupx "byte list"
  | Forget fuse_forget_in
  | BatchForget "fuse_forget_one list"
  | Statx fuse_statx_in
  | Setstatx fuse_setstatx_in
  | Mkobjx u32 fuse_statx "byte list" "byte list"
  | Unlink "byte list"
  | Rmdir "byte list"
  | Rename2 fuse_rename2_in "byte list" "byte list"
  | Link fuse_link_in "byte list"
  | Open fuse_open_in
  | Release fuse_release_in
  | Read fuse_read_in
  | Write fuse_write_in "byte list"
  | Readlink
  | Statfs
  | Fallocate fuse_fallocate_in
  | Opendir
  | Releasedir fuse_release_in
  | Readdir fuse_read_in
  | Getxattr fuse_getxattr_in "byte list"
  | Setxattr fuse_setxattr_in "byte list" "byte list"
  | Listxattr fuse_getxattr_in
  | Removexattr "byte list"

fun request_opcode :: "request \<Rightarrow> fuse_opcode" where
  "request_opcode LookupRoot = FUSE_LOOKUP_ROOT"
| "request_opcode (Lookupx _) = FUSE_LOOKUPX"
| "request_opcode (Forget _) = FUSE_FORGET"
| "request_opcode (BatchForget _) = FUSE_BATCH_FORGET"
| "request_opcode (Statx _) = FUSE_STATX"
| "request_opcode (Setstatx _) = FUSE_SETSTATX"
| "request_opcode (Mkobjx _ _ _ _) = FUSE_MKOBJX"
| "request_opcode (Unlink _) = FUSE_UNLINK"
| "request_opcode (Rmdir _) = FUSE_RMDIR"
| "request_opcode (Rename2 _ _ _) = FUSE_RENAME2"
| "request_opcode (Link _ _) = FUSE_LINK"
| "request_opcode (Open _) = FUSE_OPEN"
| "request_opcode (Release _) = FUSE_RELEASE"
| "request_opcode (Read _) = FUSE_READ"
| "request_opcode (Write _ _) = FUSE_WRITE"
| "request_opcode Readlink = FUSE_READLINK"
| "request_opcode Statfs = FUSE_STATFS"
| "request_opcode (Fallocate _) = FUSE_FALLOCATE"
| "request_opcode Opendir = FUSE_OPENDIR"
| "request_opcode (Releasedir _) = FUSE_RELEASEDIR"
| "request_opcode (Readdir _) = FUSE_READDIR"
| "request_opcode (Getxattr _ _) = FUSE_GETXATTR"
| "request_opcode (Setxattr _ _ _) = FUSE_SETXATTR"
| "request_opcode (Listxattr _) = FUSE_LISTXATTR"
| "request_opcode (Removexattr _) = FUSE_REMOVEXATTR"

definition cstr :: "byte list \<Rightarrow> byte list" where
  "cstr name = name @ [0]"

fun encode :: "request \<Rightarrow> byte list" where
  "encode (Lookupx name) = cstr name"
| "encode (Forget i) = put_fuse_forget_in i"
| "encode (BatchForget items) =
     put_fuse_batch_forget_in \<lparr>bfi_count = word_of_nat (length items)\<rparr>
     @ concat (map put_fuse_forget_one items)"
| "encode (Statx i) = put_fuse_statx_in i"
| "encode (Setstatx i) = put_fuse_setstatx_in i"
| "encode (Mkobjx flags sx name target) =
     put_fuse_mkobjx_in \<lparr>mki_namesize = word_of_nat (length name + 1), mki_flags = flags, mki_stat = sx\<rparr>
     @ cstr name @ (if is_symlink_mode (sx_mode sx) then cstr target else [])"
| "encode (Unlink name) = cstr name"
| "encode (Rmdir name) = cstr name"
| "encode (Rename2 i oldname newname) = put_fuse_rename2_in i @ cstr oldname @ cstr newname"
| "encode (Link i name) = put_fuse_link_in i @ cstr name"
| "encode (Open i) = put_fuse_open_in i"
| "encode (Release i) = put_fuse_release_in i"
| "encode (Read i) = put_fuse_read_in i"
| "encode (Write i data) = put_fuse_write_in i @ data"
| "encode (Fallocate i) = put_fuse_fallocate_in i"
| "encode (Releasedir i) = put_fuse_release_in i"
| "encode (Readdir i) = put_fuse_read_in i"
| "encode (Getxattr i name) = put_fuse_getxattr_in i @ cstr name"
| "encode (Setxattr i name val) = put_fuse_setxattr_in i @ cstr name @ val"
| "encode (Listxattr i) = put_fuse_getxattr_in i"
| "encode (Removexattr name) = cstr name"
| "encode _ = []"

text \<open>
  Names carry no NUL and counts fit their fields. \<open>ext_aware\<close>: the handler looks for its
  arguments behind the extension blob (or has none).
\<close>

fun wf_request :: "request \<Rightarrow> bool" where
  "wf_request (Lookupx name) = (0 \<notin> set name)"
| "wf_request (BatchForget items) = (length items < 2 ^ 32)"
| "wf_request (Mkobjx flags sx name target) =
     (0 \<notin> set name \<and> 0 \<notin> set target \<and> length name + 1 < 2 ^ 32)"
| "wf_request (Unlink name) = (0 \<notin> set name)"
| "wf_request (Rmdir name) = (0 \<notin> set name)"
| "wf_request (Rename2 i oldname newname) = (0 \<notin> set oldname \<and> 0 \<notin> set newname)"
| "wf_request (Link i name) = (0 \<notin> set name)"
| "wf_request (Write i data) = (unat (wri_size i) = length data)"
| "wf_request (Getxattr i name) = (0 \<notin> set name)"
| "wf_request (Setxattr i name val) = (0 \<notin> set name \<and> unat (sai_size i) = length val)"
| "wf_request (Removexattr name) = (0 \<notin> set name)"
| "wf_request _ = True"

fun ext_aware :: "request \<Rightarrow> bool" where
  "ext_aware (Lookupx _) = False"
| "ext_aware (BatchForget _) = False"
| "ext_aware (Setstatx _) = False"
| "ext_aware (Mkobjx _ _ _ _) = False"
| "ext_aware (Unlink _) = False"
| "ext_aware (Rmdir _) = False"
| "ext_aware _ = True"

subsection \<open>The effect of a request\<close>

definition answer_pod :: "('b \<Rightarrow> byte list) \<Rightarrow> ('a \<Rightarrow> 'b) \<Rightarrow> ('s, 'a) outcome \<Rightarrow> ((Errc + byte list) \<times> 's) option" where
  "answer_pod put f rv = Some (map_prod (map_sum id (\<lambda>v. put (f v))) id rv)"

definition answer_unit :: "('s, unit) outcome \<Rightarrow> ((Errc + byte list) \<times> 's) option" where
  "answer_unit rv = Some (map_prod (map_sum id (\<lambda>u. [])) id rv)"

definition answer_span :: "nat \<Rightarrow> (Errc + nat) \<times> byte list \<times> 's \<Rightarrow> ((Errc + byte list) \<times> 's) option" where
  "answer_span want res = (case res of (rv, buf, s) \<Rightarrow> Some (map_sum id (\<lambda>n. take (min n want) buf) rv, s))"

text \<open>\<open>out\<close> is the reply buffer: a read fills its first bytes.\<close>

fun perform :: "'s Filesystem \<Rightarrow> fuse_in_header \<Rightarrow> 's \<Rightarrow> byte list \<Rightarrow> request \<Rightarrow> ((Errc + byte list) \<times> 's) option" where
  "perform F h s out LookupRoot =
     answer_pod put_fuse_entryx_out lookup_out (fs_lookup_root F s (make_ctx h))"
| "perform F h s out (Lookupx name) =
     answer_pod put_fuse_entryx_out lookup_out (fs_lookupx F s (make_ctx h) (ih_nodeid h) name)"
| "perform F h s out (Forget i) = Some (Inr [], fs_forget F s (ih_nodeid h) (fgi_nlookup i))"
| "perform F h s out (BatchForget items) =
     Some (Inr [], fs_forget_multi F s (map (\<lambda>x. (fgo_nodeid x, fgo_nlookup x)) items))"
| "perform F h s out (Statx i) =
     answer_pod put_fuse_statx_out (\<lambda>v. pack_statx v one_second) (fs_statx F s (make_ctx h) (ih_nodeid h))"
| "perform F h s out (Setstatx i) =
     answer_pod put_fuse_statx_out (\<lambda>v. pack_statx v one_second)
       (fs_setstatx F s (make_ctx h) (ih_nodeid h) (ssi_fh i) (unpack_statx (ssi_stat i) SetStatxIn_zero))"
| "perform F h s out (Mkobjx flags sx name target) =
     answer_pod put_fuse_entryx_out (entryx_out 0)
       (fs_mkobjx F s (make_ctx h) (ih_nodeid h)
          \<lparr>mi_stat = mkobjx_stat sx, mi_flags = flags, mi_name = name,
           mi_link_target = (if is_symlink_mode (sx_mode sx) then target else [])\<rparr>)"
| "perform F h s out (Unlink name) = answer_unit (fs_unlink F s (make_ctx h) (ih_nodeid h) name)"
| "perform F h s out (Rmdir name) = answer_unit (fs_rmdir F s (make_ctx h) (ih_nodeid h) name)"
| "perform F h s out (Rename2 i oldname newname) =
     answer_unit (fs_rename F s (make_ctx h) (ih_nodeid h) oldname (rni_newdir i) newname (rni_flags i))"
| "perform F h s out (Link i name) =
     answer_unit (fs_link F s (make_ctx h) (lni_oldnodeid i) (ih_nodeid h) name)"
| "perform F h s out (Open i) =
     answer_pod put_fuse_open_out (\<lambda>v. open_out (oo_open_flags v) v)
       (fs_open F s (make_ctx h) (ih_nodeid h) (opi_flags i))"
| "perform F h s out (Release i) =
     answer_unit (fs_release F s (make_ctx h) (ih_nodeid h) (rli_fh i) (rli_flags i))"
| "perform F h s out (Read i) =
     (let want = min (unat (rdi_size i)) (length out) in
      answer_span want
        (fs_read F s (make_ctx h) (ih_nodeid h) (rdi_fh i) (rdi_offset i) (take want out)))"
| "perform F h s out (Write i data) =
     answer_pod put_fuse_write_out write_out
       (fs_write F s (make_ctx h) (ih_nodeid h) (wri_fh i) (wri_offset i) data)"
| "perform F h s out Readlink = answer_pod id id (fs_readlink F s (make_ctx h) (ih_nodeid h))"
| "perform F h s out Statfs =
     answer_pod put_fuse_kstatfs statfs_out (fs_statfs F s (make_ctx h) (ih_nodeid h))"
| "perform F h s out (Fallocate i) =
     answer_unit (fs_fallocate F s (make_ctx h) (ih_nodeid h) (fai_fh i) (fai_mode i) (fai_offset i)
       (fai_length i))"
| "perform F h s out Opendir =
     answer_pod put_fuse_open_out (\<lambda>v. open_out (oo_open_flags v OR FOPEN_CACHE_DIR) v)
       (fs_opendir F s (make_ctx h) (ih_nodeid h))"
| "perform F h s out (Releasedir i) =
     answer_unit (fs_releasedir F s (make_ctx h) (ih_nodeid h) (rli_fh i))"
| "perform F h s out (Readdir i) =
     (case fs_readdir F s (make_ctx h) (ih_nodeid h) (rdi_fh i) (rdi_offset i)
             (DirentWriter_init (take (min (unat (rdi_size i)) (length out)) out)) of
        None \<Rightarrow> None
      | Some (rv, w, s) \<Rightarrow> Some (map_sum id (\<lambda>u. take (bytes_written w) (dw_buf w)) rv, s))"
| "perform F h s out (Getxattr i name) =
     (if gai_size i = 0
      then answer_pod put_fuse_getxattr_out getxattr_out
             (drop_span (fs_getxattr F s (make_ctx h) (ih_nodeid h) name []))
      else let want = min (unat (gai_size i)) (length out) in
           answer_span want (fs_getxattr F s (make_ctx h) (ih_nodeid h) name (take want out)))"
| "perform F h s out (Setxattr i name val) =
     answer_unit (fs_setxattr F s (make_ctx h) (ih_nodeid h) name val (sai_flags i))"
| "perform F h s out (Listxattr i) =
     (if gai_size i = 0
      then answer_pod put_fuse_getxattr_out getxattr_out
             (drop_span (fs_listxattr F s (make_ctx h) (ih_nodeid h) []))
      else let want = min (unat (gai_size i)) (length out) in
           answer_span want (fs_listxattr F s (make_ctx h) (ih_nodeid h) (take want out)))"
| "perform F h s out (Removexattr name) =
     answer_unit (fs_removexattr F s (make_ctx h) (ih_nodeid h) name)"

text \<open>The reply carries the answer; one that does not fit the buffer becomes \<open>EIO\<close>.\<close>

fun answers :: "Replier \<Rightarrow> Replier \<Rightarrow> Errc + byte list \<Rightarrow> bool" where
  "answers r r' (Inl e) \<longleftrightarrow> r_neg_err r' = - e \<and> reply_bytes r' = []"
| "answers r r' (Inr bs) \<longleftrightarrow>
     (if length bs \<le> r_cap r then r_neg_err r' = 0 \<and> reply_bytes r' = bs
      else r_neg_err r' = - EIO \<and> reply_bytes r' = [])"

definition serves :: "'s Impl \<Rightarrow> Replier \<Rightarrow> ('s Impl \<times> Replier) option \<Rightarrow>
    ((Errc + byte list) \<times> 's) option \<Rightarrow> bool" where
  "serves im r res pv \<longleftrightarrow> (\<exists>rv s r'. pv = Some (rv, s) \<and> res = Some (im\<lparr>im_fs := s\<rparr>, r') \<and>
     replies r r' \<and> answers r r' rv)"

lemma serves_error:
  "serves im r (Some (im\<lparr>im_fs := s\<rparr>, reply_error r e)) (Some (Inl e, s))"
  by (auto simp: serves_def reply_bytes_def)

lemma serves_ok: "serves im r (Some (im\<lparr>im_fs := s\<rparr>, reply_ok r)) (Some (Inr [], s))"
  by (auto simp: serves_def)

lemma serves_finish_unit: "serves im r (finish_unit im r rv) (answer_unit rv)"
  by (cases rv; cases "fst rv") (auto simp: finish_unit_def answer_unit_def serves_error serves_ok)

lemma serves_finish_pod:
  assumes "replier_ok r"
  shows "serves im r (finish_pod put f im r rv) (answer_pod put f rv)"
proof (cases rv)
  case (Pair x s)
  show ?thesis
  proof (cases x)
    case (Inl e)
    with Pair show ?thesis by (simp add: finish_pod_def answer_pod_def serves_error)
  next
    case (Inr v)
    obtain r' where r': "reply_pod put r (f v) = Some r'" "replies r r'"
      using reply_pod_safe [OF assms, of put "f v"] by blast
    have "answers r r' (Inr (put (f v)))"
    proof (cases "length (put (f v)) \<le> r_cap r")
      case True
      with reply_pod_fits [OF assms True r'(1)] show ?thesis by simp
    next
      case False
      with r'(1) show ?thesis
        by (auto simp: reply_pod_def reply_payload_too_big reply_bytes_def errno_defs)
    qed
    with Pair Inr r' show ?thesis
      by (auto simp: finish_pod_def answer_pod_def serves_def)
  qed
qed

lemma serves_finish_span:
  assumes "replier_ok r" "want \<le> r_cap r" "length buf = want"
  shows "serves im r (finish_span im r want (rv, buf, s)) (answer_span want (rv, buf, s))"
  using assms
  by (cases rv) (auto simp: finish_span_def answer_span_def serves_def reply_bytes_def replies_def
      replier_ok_def)

text \<open>Reading a terminated name behind a prefix.\<close>

lemma scan_cstr:
  assumes "0 \<notin> set name" "off = length pre" "length name < maxlen"
  shows "strnlen (pre @ cstr name @ post) off maxlen = Some (length name)"
  using strnlen_name [OF assms, of post] by (simp add: cstr_def)

lemma slice_app: "off = length pre \<Longrightarrow> n = length bs \<Longrightarrow> slice (pre @ bs @ post) off n = Some bs"
  by simp

lemma slice_cstr: "off = length pre \<Longrightarrow> n = length name \<Longrightarrow> slice (pre @ cstr name @ post) off n = Some name"
  by (simp add: cstr_def)

lemma length_cstr [simp]: "length (cstr name) = length name + 1" "cstr name \<noteq> []"
  by (simp_all add: cstr_def)

lemma in_arg_blob: "sz \<le> n \<Longrightarrow> in_arg sz h (ext_bytes h + n) = Some (ext_bytes h)"
  by (simp add: in_arg_def)

subsection \<open>Every handler serves its request\<close>

named_theorems serves_intros "a handler serves the request it decodes"

lemmas get_put_in = forget_in.get_put statx_in.get_put open_in.get_put release_in.get_put
  fallocate_in.get_put read_in.get_put getxattr_in.get_put setstatx_in.get_put

lemma serves_fixed_args [serves_intros]:
  assumes "replier_ok r" "length blob = ext_bytes h"
  shows "serves im r (handle_forget F im h (blob @ encode (Forget fi)) r)
      (perform F h (im_fs im) out (Forget fi))"
    and "serves im r (handle_statx F im h (blob @ encode (Statx si)) r)
      (perform F h (im_fs im) out (Statx si))"
    and "serves im r (handle_open F im h (blob @ encode (Open oi)) r)
      (perform F h (im_fs im) out (Open oi))"
    and "serves im r (handle_release F im h (blob @ encode (Release li)) r)
      (perform F h (im_fs im) out (Release li))"
    and "serves im r (handle_fallocate F im h (blob @ encode (Fallocate ai)) r)
      (perform F h (im_fs im) out (Fallocate ai))"
    and "serves im r (handle_releasedir F im h (blob @ encode (Releasedir li)) r)
      (perform F h (im_fs im) out (Releasedir li))"
  using assms
  by (simp_all add: handler_defs in_arg_blob load_def get_put_in serves_ok serves_finish_unit serves_finish_pod)

lemma serves_no_args [serves_intros]:
  assumes "replier_ok r"
  shows "serves im r (handle_lookup_root F im h body r) (perform F h (im_fs im) out LookupRoot)"
    and "serves im r (handle_readlink F im h body r) (perform F h (im_fs im) out Readlink)"
    and "serves im r (handle_statfs F im h body r) (perform F h (im_fs im) out Statfs)"
    and "serves im r (handle_opendir F im h body r) (perform F h (im_fs im) out Opendir)"
  using assms by (simp_all add: handler_defs serves_finish_pod)

lemma serves_one_name [serves_intros]:
  assumes "replier_ok r" "0 \<notin> set name"
  shows "serves im r (handle_lookupx F im h (encode (Lookupx name)) r)
      (perform F h (im_fs im) out (Lookupx name))"
    and "serves im r (handle_unlink F False im h (encode (Unlink name)) r)
      (perform F h (im_fs im) out (Unlink name))"
    and "serves im r (handle_unlink F True im h (encode (Rmdir name)) r)
      (perform F h (im_fs im) out (Rmdir name))"
  using assms scan_cstr [of name 0 "[]" "Suc (length name)" "[]"] slice_cstr [of 0 "[]" _ name "[]"]
  by (simp_all add: handler_defs serves_finish_unit serves_finish_pod)

lemma serves_link [serves_intros]:
  assumes "replier_ok r" "length blob = ext_bytes h" "0 \<notin> set name"
  shows "serves im r (handle_link F im h (blob @ encode (Link i name)) r)
    (perform F h (im_fs im) out (Link i name))"
  using assms scan_cstr [of name "ext_bytes h + 8" "blob @ put_fuse_link_in i" "Suc (length name)" "[]"]
    slice_cstr [of "ext_bytes h + 8" "blob @ put_fuse_link_in i" "length name" name "[]"]
  by (simp add: handle_link_def Let_def link_in.load_put serves_finish_unit)

lemma serves_rename2 [serves_intros]:
  assumes "replier_ok r" "length blob = ext_bytes h" "0 \<notin> set oldname" "0 \<notin> set newname"
  shows "serves im r (handle_rename2 F im h (blob @ encode (Rename2 i oldname newname)) r)
    (perform F h (im_fs im) out (Rename2 i oldname newname))"
proof -
  let ?pre = "blob @ put_fuse_rename2_in i" and ?pre2 = "blob @ put_fuse_rename2_in i @ cstr oldname"
  let ?off = "ext_bytes h + 16"
  let ?body = "blob @ put_fuse_rename2_in i @ cstr oldname @ cstr newname"
  have "load get_fuse_rename2_in ?body (ext_bytes h) = Some i"
    using assms(2) by (intro rename2_in.load_put) simp
  moreover have "strnlen ?body ?off (length oldname + length newname + 2) = Some (length oldname)"
    using scan_cstr [OF assms(3), of ?off ?pre "length oldname + length newname + 2" "cstr newname"]
      assms(2) by simp
  moreover have "strnlen ?body (?off + length oldname + 1) (length newname + 1) = Some (length newname)"
    using scan_cstr [OF assms(4), of "?off + length oldname + 1" ?pre2 "length newname + 1" "[]"]
      assms(2) by simp
  moreover have "slice ?body ?off (length oldname) = Some oldname"
    using slice_cstr [of ?off ?pre "length oldname" oldname "cstr newname"] assms(2) by simp
  moreover have "slice ?body (?off + length oldname + 1) (length newname) = Some newname"
    using slice_cstr [of "?off + length oldname + 1" ?pre2 "length newname" newname "[]"] assms(2) by simp
  ultimately show ?thesis
    using assms(2) by (simp add: handle_rename2_def Let_def serves_finish_unit)
qed

lemma serves_removexattr [serves_intros]:
  assumes "replier_ok r" "length blob = ext_bytes h" "0 \<notin> set name"
  shows "serves im r (handle_removexattr F im h (blob @ encode (Removexattr name)) r)
    (perform F h (im_fs im) out (Removexattr name))"
  using assms scan_cstr [of name "ext_bytes h" blob "Suc (length name)" "[]"]
    slice_cstr [of "ext_bytes h" blob "length name" name "[]"]
  by (simp add: handle_removexattr_def Let_def serves_finish_unit)

lemma serves_write [serves_intros]:
  assumes "replier_ok r" "length blob = ext_bytes h" "unat (wri_size i) = length data"
  shows "serves im r (handle_write F im h (blob @ encode (Write i data)) r)
    (perform F h (im_fs im) out (Write i data))"
  using assms by (simp add: handle_write_def Let_def write_in.load_put serves_finish_pod)

lemma serves_setxattr [serves_intros]:
  assumes "replier_ok r" "length blob = ext_bytes h" "0 \<notin> set name" "unat (sai_size i) = length val"
  shows "serves im r (handle_setxattr F im h (blob @ encode (Setxattr i name val)) r)
    (perform F h (im_fs im) out (Setxattr i name val))"
proof -
  let ?body = "blob @ put_fuse_setxattr_in i @ cstr name @ val"
  let ?off = "ext_bytes h + 16"
  have "load get_fuse_setxattr_in ?body (ext_bytes h) = Some i"
    using assms(2) by (intro setxattr_in.load_put) simp
  moreover have "strnlen ?body ?off (length name + length val + 1) = Some (length name)"
    using scan_cstr [OF assms(3), of ?off "blob @ put_fuse_setxattr_in i" "length name + length val + 1" val]
      assms(2) by simp
  moreover have "slice ?body ?off (length name) = Some name"
    using slice_cstr [of ?off "blob @ put_fuse_setxattr_in i" "length name" name val] assms(2) by simp
  moreover have "slice ?body (?off + length name + 1) (length val) = Some val"
    using slice_app [of "?off + length name + 1" "blob @ put_fuse_setxattr_in i @ cstr name" "length val"
        val "[]"] assms(2) by simp
  ultimately show ?thesis
    using assms(2,4) by (simp add: handle_setxattr_def Let_def serves_finish_unit)
qed

lemma serves_setstatx [serves_intros]:
  assumes "replier_ok r" "ext_bytes h = 0"
  shows "serves im r (handle_setstatx F im h (encode (Setstatx i)) r)
    (perform F h (im_fs im) out (Setstatx i))"
proof -
  have "load get_fuse_statx (put_fuse_setstatx_in i) 16 = Some (ssi_stat i)"
    using statx.load_put [of 16 "put64 (ssi_fh i) @ put32 (ssi_flags i) @ zeros 4" "ssi_stat i" "[]"]
    by (simp add: put_fuse_setstatx_in_def)
  moreover have "load get_fuse_setstatx_in (put_fuse_setstatx_in i) 0 = Some i"
    using setstatx_in.load_put_0 [of i "[]"] by simp
  moreover have "unpack_statx sx (SetStatxIn_zero\<lparr>si_mask := m\<rparr>) = unpack_statx sx SetStatxIn_zero" for sx m
    by (simp add: unpack_statx_def)
  ultimately show ?thesis
    using assms by (simp add: handle_setstatx_def in_arg_def serves_finish_pod)
qed

lemma serves_mkobjx [serves_intros]:
  assumes "replier_ok r" "ext_bytes h = 0" "0 \<notin> set name" "0 \<notin> set target" "length name + 1 < 2 ^ 32"
  shows "serves im r (handle_mkobjx F im h (encode (Mkobjx flags sx name target)) r)
    (perform F h (im_fs im) out (Mkobjx flags sx name target))"
proof -
  let ?i = "\<lparr>mki_namesize = word_of_nat (length name + 1), mki_flags = flags, mki_stat = sx\<rparr>"
  let ?tail = "if is_symlink_mode (sx_mode sx) then cstr target else []"
  let ?body = "put_fuse_mkobjx_in ?i @ cstr name @ ?tail"
  have size: "unat (word_of_nat (length name + 1) :: u32) = length name + 1"
    using assms(5) by (simp only: unat_of_nat) simp
  have "load get_fuse_mkobjx_in ?body 0 = Some ?i"
    by (rule mkobjx_in.load_put_0)
  moreover have "load get_fuse_statx ?body 64 = Some sx"
    using statx.load_put [of 64 "put32 (mki_namesize ?i) @ put32 flags @ zeros 56" sx "cstr name @ ?tail"]
    by (simp add: put_fuse_mkobjx_in_def)
  moreover have "strnlen ?body (320 + (length name + 1)) (Suc (length target)) = Some (length target)"
      "slice ?body (320 + (length name + 1)) (length target) = Some target"
    if "is_symlink_mode (sx_mode sx)"
    using that scan_cstr [OF assms(4), of "320 + (length name + 1)" "put_fuse_mkobjx_in ?i @ cstr name" "Suc (length target)" "[]"]
      slice_cstr [of "320 + (length name + 1)" "put_fuse_mkobjx_in ?i @ cstr name" "length target" target "[]"]
    by simp_all
  moreover have "slice ?body 320 (length name) = Some name"
    using slice_cstr [of 320 "put_fuse_mkobjx_in ?i" "length name" name ?tail] by simp
  ultimately show ?thesis
    using assms(1,2) size by (simp add: handle_mkobjx_def Let_def serves_finish_pod)
qed

lemma forget_items_Suc:
  "forget_items body off (Suc n) = (case load get_fuse_forget_one body off of
     None \<Rightarrow> None
   | Some x \<Rightarrow> map_option ((#) (fgo_nodeid x, fgo_nlookup x)) (forget_items body (off + 16) n))"
  by (simp add: forget_items_def upt_conv_Cons map_Suc_upt [symmetric] ac_simps comp_def
      del: upt_Suc split: option.split)

lemma forget_items_encode:
  assumes "length pre = off"
  shows "forget_items (pre @ concat (map put_fuse_forget_one items)) off (length items) =
    Some (map (\<lambda>x. (fgo_nodeid x, fgo_nlookup x)) items)"
  using assms
proof (induction items arbitrary: pre off)
  case Nil
  then show ?case by (simp add: forget_items_def)
next
  case (Cons x items)
  have "load get_fuse_forget_one (pre @ concat (map put_fuse_forget_one (x # items))) off = Some x"
    using Cons.prems forget_one.load_put [of off pre x "concat (map put_fuse_forget_one items)"] by simp
  with Cons.IH [of "pre @ put_fuse_forget_one x" "off + 16"] Cons.prems show ?case
    by (simp add: forget_items_Suc)
qed

lemma serves_batch_forget [serves_intros]:
  assumes "ext_bytes h = 0" "length items < 2 ^ 32"
  shows "serves im r (handle_batch_forget F im h (encode (BatchForget items)) r)
    (perform F h (im_fs im) out (BatchForget items))"
proof -
  let ?hd = "put_fuse_batch_forget_in \<lparr>bfi_count = word_of_nat (length items)\<rparr>"
  let ?body = "?hd @ concat (map put_fuse_forget_one items)"
  have count: "unat (word_of_nat (length items) :: u32) = length items"
    using assms(2) by (simp only: unat_of_nat) simp
  have len: "length (concat (map put_fuse_forget_one items)) = length items * 16"
    by (induction items) simp_all
  have "load get_fuse_batch_forget_in ?body 0 = Some \<lparr>bfi_count = word_of_nat (length items)\<rparr>"
    by (rule batch_forget_in.load_put_0)
  moreover have "forget_items ?body 8 (length items) =
      Some (map (\<lambda>x. (fgo_nodeid x, fgo_nlookup x)) items)"
    by (rule forget_items_encode) simp
  ultimately show ?thesis
    using assms(1) count len
    by (simp add: handle_batch_forget_def in_arg_def serves_ok del: length_concat)
qed

context filesystem_contract
begin

lemma serves_read [serves_intros]:
  assumes "replier_ok r" "length blob = ext_bytes h"
  shows "serves im r (handle_read F im h (blob @ encode (Read i)) r)
    (perform F h (im_fs im) (r_out r) (Read i))"
proof -
  let ?want = "min (unat (rdi_size i)) (r_cap r)"
  obtain rv buf s where res: "fs_read F (im_fs im) (make_ctx h) (ih_nodeid h) (rdi_fh i) (rdi_offset i)
      (take ?want (r_out r)) = (rv, buf, s)" by (metis prod_cases3)
  have "length buf = ?want" using read_span [OF res] assms(1) by (simp add: replier_ok_def)
  with res assms serves_finish_span [OF assms(1), of ?want buf im rv s] show ?thesis
    by (simp add: handle_read_def in_arg_blob load_def get_put_in replier_ok_def)
qed

lemma serves_getxattr [serves_intros]:
  assumes "replier_ok r" "length blob = ext_bytes h" "0 \<notin> set name"
  shows "serves im r (handle_getxattr F im h (blob @ encode (Getxattr i name)) r)
    (perform F h (im_fs im) (r_out r) (Getxattr i name))"
proof -
  let ?want = "min (unat (gai_size i)) (r_cap r)"
  obtain rv buf s where res: "fs_getxattr F (im_fs im) (make_ctx h) (ih_nodeid h) name
      (take ?want (r_out r)) = (rv, buf, s)" by (metis prod_cases3)
  have "length buf = ?want" using getxattr_span [OF res] assms(1) by (simp add: replier_ok_def)
  with res assms serves_finish_span [OF assms(1), of ?want buf im rv s]
    scan_cstr [OF assms(3), of "ext_bytes h + 8" "blob @ put_fuse_getxattr_in i" "Suc (length name)" "[]"]
    slice_cstr [of "ext_bytes h + 8" "blob @ put_fuse_getxattr_in i" "length name" name "[]"]
  show ?thesis
    by (simp add: handle_getxattr_def Let_def getxattr_in.load_put replier_ok_def serves_finish_pod)
qed

lemma serves_listxattr [serves_intros]:
  assumes "replier_ok r" "length blob = ext_bytes h"
  shows "serves im r (handle_listxattr F im h (blob @ encode (Listxattr i)) r)
    (perform F h (im_fs im) (r_out r) (Listxattr i))"
proof -
  let ?want = "min (unat (gai_size i)) (r_cap r)"
  obtain rv buf s where res: "fs_listxattr F (im_fs im) (make_ctx h) (ih_nodeid h)
      (take ?want (r_out r)) = (rv, buf, s)" by (metis prod_cases3)
  have "length buf = ?want" using listxattr_span [OF res] assms(1) by (simp add: replier_ok_def)
  with res assms serves_finish_span [OF assms(1), of ?want buf im rv s] show ?thesis
    by (simp add: handle_listxattr_def in_arg_blob load_def get_put_in replier_ok_def serves_finish_pod)
qed

lemma serves_readdir [serves_intros]:
  assumes "replier_ok r" "length blob = ext_bytes h"
  shows "serves im r (handle_readdir F im h (blob @ encode (Readdir i)) r)
    (perform F h (im_fs im) (r_out r) (Readdir i))"
proof -
  let ?cap = "min (unat (rdi_size i)) (r_cap r)"
  obtain rv w s' where res: "fs_readdir F (im_fs im) (make_ctx h) (ih_nodeid h) (rdi_fh i)
      (rdi_offset i) (DirentWriter_init (take ?cap (r_out r))) = Some (rv, w, s')"
    and w: "length (dw_buf w) = length (take ?cap (r_out r))" "bytes_written w \<le> length (take ?cap (r_out r))"
    by (rule readdir_fills)
  let ?r = "r\<lparr>r_out := dw_buf w @ drop ?cap (r_out r)\<rparr>"
  have reply: "handle_readdir F im h (blob @ encode (Readdir i)) r =
      Some (im\<lparr>im_fs := s'\<rparr>, case rv of Inl e \<Rightarrow> reply_error ?r e
        | Inr u \<Rightarrow> ?r\<lparr>r_neg_err := 0, r_len := bytes_written w\<rparr>)"
    using res assms
    by (simp add: handle_readdir_def in_arg_blob load_def get_put_in replier_ok_def split: sum.split)
  show ?thesis
    unfolding reply using res w assms
    by (cases rv) (auto simp: serves_def replies_def replier_ok_def reply_bytes_def)
qed

text \<open>The dispatcher picks the handler of the request's opcode.\<close>

lemma serves_dispatch:
  assumes "replier_ok r" "wf_request q" "length blob = ext_bytes h" "blob \<noteq> [] \<longrightarrow> ext_aware q"
    and "ih_opcode h = opcode_val (request_opcode q)"
  shows "serves im r (dispatch F im h (blob @ encode q) r) (perform F h (im_fs im) (r_out r) q)"
proof -
  have "opcode_of (ih_opcode h) = Some (request_opcode q)" using assms(5) by simp
  moreover have "blob = [] \<and> ext_bytes h = 0" if "\<not> ext_aware q" using that assms(3,4) by auto
  ultimately show ?thesis
    using assms(1-3)
    by (cases q) (auto simp: dispatch_def dispatch_with_def simp del: encode.simps perform.simps
        intro!: serves_intros)
qed

end

end
