(* ===== verification/Compound.thy ===== *)
theory Compound
  imports Requests
begin

text \<open>
  What a compound request means: its sub-requests performed one after the other, each on
  the state the previous one left, with the node id of a dependent sub-request replaced by
  the one its predecessor produced, and one framed answer per sub-request. The function
  \<open>compound_spec\<close> says this over the requests themselves; the theorem of this theory is that
  the byte-level loop of \<open>handle_compound\<close> computes it.
\<close>

subsection \<open>The specification\<close>

fun answer_of :: "nat \<Rightarrow> Errc + byte list \<Rightarrow> i32 \<times> byte list" where
  "answer_of cap (Inl e) = (- e, [])"
| "answer_of cap (Inr bs) = (if length bs \<le> cap then (0, bs) else (- EIO, []))"

lemma answers_answer_of: "answers r r' rv \<longleftrightarrow> (r_neg_err r', reply_bytes r') = answer_of (r_cap r) rv"
  by (cases rv) auto

text \<open>The node id at the head of an entry answer; 0 for every other answer.\<close>

definition entry_nodeid :: "u32 \<Rightarrow> i32 \<times> byte list \<Rightarrow> u64" where
  "entry_nodeid opcode ans =
     (if fst ans = 0 \<and> length (snd ans) \<ge> 8 \<and> produces_entry opcode then le_dec (take 8 (snd ans)) else 0)"

text \<open>Requests whose callback does not get a span of the reply buffer.\<close>

fun no_span :: "request \<Rightarrow> bool" where
  "no_span (Read i) = False"
| "no_span (Readdir i) = False"
| "no_span (Getxattr i name) = (gai_size i = 0)"
| "no_span (Listxattr i) = (gai_size i = 0)"
| "no_span _ = True"

type_synonym sub = "fuse_compound_req_in \<times> fuse_in_header \<times> byte list \<times> request"

fun encode_sub :: "sub \<Rightarrow> byte list" where
  "encode_sub (q, h, blob, req) = put_fuse_compound_req_in q @ put_fuse_in_header h @ blob @ encode req"

fun sub_ok :: "sub \<Rightarrow> bool" where
  "sub_ok (q, h, blob, req) \<longleftrightarrow> wf_request req \<and> no_span req \<and>
     length blob = ext_bytes h \<and> (blob \<noteq> [] \<longrightarrow> ext_aware req) \<and>
     ih_opcode h = opcode_val (request_opcode req) \<and>
     unat (ih_len h) = 40 + length blob + length (encode req)"

text \<open>
  A sub-request may name an earlier one by its position; it is then performed on the node
  that one produced. A position at or after its own binds nothing.
\<close>

definition bind_node :: "u64 list \<Rightarrow> fuse_compound_req_in \<Rightarrow> fuse_in_header \<Rightarrow> fuse_in_header" where
  "bind_node produced q h =
     (case drop (unat (cri_dep_index q)) produced of
        [] \<Rightarrow> h
      | n # _ \<Rightarrow> if cri_dep_index q = FUSE_COMPOUND_NO_DEP then h else h\<lparr>ih_nodeid := n\<rparr>)"

lemma bind_node_with_dep [simp]: "bind_node produced q h = with_dep produced q h"
proof (cases "unat (cri_dep_index q) < length produced")
  case True
  then show ?thesis by (simp add: bind_node_def with_dep_def Cons_nth_drop_Suc [symmetric])
qed (simp add: bind_node_def with_dep_def)

text \<open>
  \<open>used\<close> bytes of the reply buffer are taken. A sub-request that finds no room for its
  header fails the whole compound; what ran before it has run.
\<close>

fun compound_spec :: "'s Filesystem \<Rightarrow> nat \<Rightarrow> 's \<Rightarrow> u64 list \<Rightarrow> nat \<Rightarrow> sub list \<Rightarrow> byte list option \<times> 's" where
  "compound_spec F cap s produced used [] = (Some [], s)"
| "compound_spec F cap s produced used ((q, h, blob, req) # subs) =
     (if used + 16 > cap then (None, s)
      else case perform F (bind_node produced q h) s [] req of
        None \<Rightarrow> (None, s)
      | Some (rv, s') \<Rightarrow>
          (let ans = answer_of (cap - used - 16) rv;
               (rest, s'') = compound_spec F cap s' (produced @ [entry_nodeid (ih_opcode h) ans])
                 (used + 16 + length (snd ans)) subs
           in (map_option (\<lambda>fs. sub_frame h (fst ans) (snd ans) @ fs) rest, s'')))"

subsection \<open>One step\<close>

lemma perform_no_span: "no_span req \<Longrightarrow> perform F h s out req = perform F h s [] req"
  by (cases req) (simp_all add: Let_def)

lemma with_dep_serves:
  "ext_bytes (with_dep produced q h) = ext_bytes h" "ih_opcode (with_dep produced q h) = ih_opcode h"
  by simp_all

lemma load_get64: "8 \<le> length mem \<Longrightarrow> load get64 mem 0 = Some (le_dec (take 8 mem))"
  by (simp add: load_def get64_def get_word_def)

lemma answer_len:
  assumes "replier_ok r" "replies r r'" "answers r r' rv"
  shows "reply_len r' = length (snd (answer_of (r_cap r) rv))"
    and "r_neg_err r' = fst (answer_of (r_cap r) rv)"
    and "take (reply_len r') (r_out r') = snd (answer_of (r_cap r) rv)"
proof -
  from assms(3) have eq: "answer_of (r_cap r) rv = (r_neg_err r', reply_bytes r')"
    by (simp add: answers_answer_of)
  have "r_len r' \<le> length (r_out r')" using assms(1,2) by (simp add: replies_def replier_ok_def)
  with eq show "reply_len r' = length (snd (answer_of (r_cap r) rv))"
    "r_neg_err r' = fst (answer_of (r_cap r) rv)"
    "take (reply_len r') (r_out r') = snd (answer_of (r_cap r) rv)"
    by (simp_all add: reply_len_def reply_bytes_def)
qed

lemma produced_nodeid_answer:
  assumes "replier_ok r" "replies r r'" "answers r r' rv"
  shows "produced_nodeid opcode r' = Some (entry_nodeid opcode (answer_of (r_cap r) rv))"
proof -
  note ans = answer_len [OF assms]
  show ?thesis
  proof (cases "r_neg_err r' = 0 \<and> r_len r' \<ge> 8 \<and> produces_entry opcode")
    case True
    then have len: "reply_len r' = r_len r'" by (simp add: reply_len_def)
    have "8 \<le> length (r_out r')" using True assms(1,2) by (simp add: replies_def replier_ok_def)
    moreover have "take 8 (snd (answer_of (r_cap r) rv)) = take 8 (r_out r')"
      using True by (simp add: ans(3) [symmetric] len min_absorb1)
    ultimately show ?thesis
      using True ans len by (simp add: produced_nodeid_def entry_nodeid_def load_get64)
  next
    case False
    then have "\<not> (fst (answer_of (r_cap r) rv) = 0 \<and> length (snd (answer_of (r_cap r) rv)) \<ge> 8 \<and>
        produces_entry opcode)"
      by (auto simp: ans(1,2) [symmetric] reply_len_def)
    with False show ?thesis by (auto simp: produced_nodeid_def entry_nodeid_def)
  qed
qed

lemma request_opcode_not_compound: "opcode_val (request_opcode req) \<noteq> opcode_val FUSE_COMPOUND"
  by (cases req) simp_all

lemma dispatch_compound:
  "ih_opcode h = opcode_val FUSE_COMPOUND \<Longrightarrow> dispatch F im h body r = handle_compound F im h body r"
  by (simp add: dispatch_def dispatch_with_def del: opcode_val.simps)

definition sub_done :: "'s compound_state \<Rightarrow> nat \<Rightarrow> fuse_in_header \<Rightarrow> i32 \<times> byte list \<Rightarrow> 's \<Rightarrow>
    's compound_state \<Rightarrow> bool" where
  "sub_done st cap h ans s st' \<longleftrightarrow>
     cs_im st' = (cs_im st)\<lparr>im_fs := s\<rparr> \<and> cs_p st' = cs_p st + 4 + unat (ih_len h) \<and>
     length (cs_out st') = cap \<and> cs_produced st' = cs_produced st @ [entry_nodeid (ih_opcode h) ans] \<and>
     cs_out_p st' = cs_out_p st + 16 + length (snd ans) \<and> cs_out_p st' \<le> cap \<and>
     take (cs_out_p st') (cs_out st') = take (cs_out_p st) (cs_out st) @ sub_frame h (fst ans) (snd ans)"

lemma sub_written:
  assumes ok: "replier_ok r" "replies r r'" "answers r r' rv"
    and r: "r_cap r = cap - cs_out_p st - 16"
    and out: "length (cs_out st) = cap" "cs_out_p st + 16 \<le> cap" "cap < 2 ^ 32"
    and st': "cs_im st' = (cs_im st)\<lparr>im_fs := s\<rparr>" "cs_p st' = cs_p st + 4 + unat (ih_len h)"
      "cs_produced st' = cs_produced st @ [entry_nodeid (ih_opcode h) (answer_of (r_cap r) rv)]"
      "store (take (cs_out_p st + 16) (cs_out st) @ r_out r') (cs_out_p st)
         (put_fuse_out_header (sub_out_header h' r')) = Some (cs_out st')"
      "cs_out_p st' = cs_out_p st + unat (oh_len (sub_out_header h' r'))"
    and h': "ih_unique h' = ih_unique h"
  shows "sub_done st cap h (answer_of (r_cap r) rv) s st'"
proof -
  note ans = answer_len [OF ok]
  let ?o = "cs_out_p st" and ?n = "reply_len r'"
  from ok(1,2) r out have len: "length (r_out r') = cap - ?o - 16" and n: "?n \<le> cap - ?o - 16"
    by (simp_all add: replier_ok_def replies_def reply_len_def)
  have cs_out: "cs_out st' = take ?o (cs_out st) @ put_fuse_out_header (sub_out_header h' r') @ r_out r'"
    using st'(4) out len by (simp add: store_def)
  have size: "unat (word_of_nat (16 + ?n) :: u32) = 16 + ?n"
    using n out by (simp only: unat_of_nat) simp
  have frame: "sub_frame h (fst (answer_of (r_cap r) rv)) (snd (answer_of (r_cap r) rv)) =
      put_fuse_out_header (sub_out_header h' r') @ take ?n (r_out r')"
    unfolding sub_frame_def sub_out_header_def ans(1,2) [symmetric] ans(3) h' ..
  have "take (cs_out_p st') (cs_out st') = take ?o (cs_out st) @
      put_fuse_out_header (sub_out_header h' r') @ take ?n (r_out r')"
    using size out st'(5) by (simp add: cs_out sub_out_header_def)
  with frame size n len out st' ans(1) show ?thesis
    by (simp add: sub_done_def cs_out sub_out_header_def)
qed

context filesystem_contract
begin

lemma compound_step_performs:
  assumes sub: "sub_ok (q, h, blob, req)"
    and body: "body = pre @ encode_sub (q, h, blob, req) @ post" "cs_p st = length pre"
    and out: "length (cs_out st) = cap" "cs_out_p st + 16 \<le> cap" "cap < 2 ^ 32"
  shows "\<exists>rv s st'. perform F (with_dep (cs_produced st) q h) (im_fs (cs_im st)) [] req = Some (rv, s) \<and>
    compound_step (dispatch F) body cap st = Some (Some st') \<and>
    sub_done st cap h (answer_of (cap - cs_out_p st - 16) rv) s st'"
proof -
  let ?h = "with_dep (cs_produced st) q h" and ?n = "unat (ih_len h) - 40"
  let ?r = "\<lparr>r_out = drop (cs_out_p st + 16) (cs_out st), r_cap = cap - cs_out_p st - 16,
      r_len = 0, r_neg_err = 0, r_unique = ih_unique h\<rparr>"
  have ld: "load get_fuse_compound_req_in body (cs_p st) = Some q"
      "load get_fuse_in_header body (cs_p st + 4) = Some h"
    using body compound_req_in.load_put [of "cs_p st" pre q "put_fuse_in_header h @ blob @ encode req @ post"]
      in_header.load_put [of "cs_p st + 4" "pre @ put_fuse_compound_req_in q" h "blob @ encode req @ post"]
    by simp_all
  have len: "length body = cs_p st + 4 + unat (ih_len h) + length post" "40 \<le> unat (ih_len h)"
    using sub body by simp_all
  have sl: "slice body (cs_p st + 44) ?n = Some (blob @ encode req)"
    using sub body slice_app [of "cs_p st + 44" "pre @ put_fuse_compound_req_in q @ put_fuse_in_header h"
        ?n "blob @ encode req" post] by simp
  have op: "ih_opcode h \<noteq> opcode_val FUSE_COMPOUND" using sub request_opcode_not_compound by simp
  have ok: "replier_ok ?r" using out by (simp add: replier_ok_def)
  have "serves (cs_im st) ?r (dispatch F (cs_im st) ?h (blob @ encode req) ?r)
      (perform F ?h (im_fs (cs_im st)) (r_out ?r) req)"
    using sub by (intro serves_dispatch ok) simp_all
  then obtain rv s r' where pf: "perform F ?h (im_fs (cs_im st)) (r_out ?r) req = Some (rv, s)"
    and disp: "dispatch F (cs_im st) ?h (blob @ encode req) ?r = Some ((cs_im st)\<lparr>im_fs := s\<rparr>, r')"
    and rep: "replies ?r r'" "answers ?r r' rv" unfolding serves_def by blast
  note prod = produced_nodeid_answer [OF ok rep, of "ih_opcode h"]
  obtain out' where st: "store (take (cs_out_p st + 16) (cs_out st) @ r_out r') (cs_out_p st)
      (put_fuse_out_header (sub_out_header ?h r')) = Some out'"
    using out by (simp add: store_def)
  let ?st' = "\<lparr>cs_im = (cs_im st)\<lparr>im_fs := s\<rparr>, cs_p = cs_p st + 44 + ?n, cs_out = out',
      cs_out_p = cs_out_p st + unat (oh_len (sub_out_header ?h r')),
      cs_produced = cs_produced st @ [entry_nodeid (ih_opcode h) (answer_of (r_cap ?r) rv)]\<rparr>"
  have step: "compound_step (dispatch F) body cap st = Some (Some ?st')"
    using out(2) len ld sl op disp prod st unfolding compound_step_def Let_def by simp
  have fin: "sub_done st cap h (answer_of (r_cap ?r) rv) s ?st'"
    by (rule sub_written [OF ok rep _ out, where h' = ?h]) (use len st in simp_all)
  have "no_span req" using sub by simp
  then have "perform F ?h (im_fs (cs_im st)) [] req = Some (rv, s)"
    using pf perform_no_span [of req F ?h "im_fs (cs_im st)" "r_out ?r"] by metis
  with step fin show ?thesis by auto
qed

end

subsection \<open>The loop\<close>

definition loop_result :: "'s compound_state \<Rightarrow> nat \<Rightarrow> byte list option \<times> 's \<Rightarrow> 's compound_state \<Rightarrow>
    bool \<Rightarrow> bool" where
  "loop_result st cap spec st' finished \<longleftrightarrow>
     length (cs_out st') = cap \<and> cs_out_p st' \<le> cap \<and> cs_im st' = (cs_im st)\<lparr>im_fs := snd spec\<rparr> \<and>
     finished = (fst spec \<noteq> None) \<and>
     (\<forall>fs. fst spec = Some fs \<longrightarrow> take (cs_out_p st') (cs_out st') = take (cs_out_p st) (cs_out st) @ fs)"

lemma loop_result_step:
  assumes sub: "sub_done st cap h ans s st1"
    and rest: "loop_result st1 cap (rest, s'') st' finished"
  shows "loop_result st cap (map_option (\<lambda>fs. sub_frame h (fst ans) (snd ans) @ fs) rest, s'') st' finished"
  using assms by (auto simp: loop_result_def sub_done_def)

lemma length_encode_sub: "sub_ok (q, h, blob, req) \<Longrightarrow> length (encode_sub (q, h, blob, req)) = 4 + unat (ih_len h)"
  by simp

context filesystem_contract
begin

lemma compound_loop_performs:
  assumes "\<forall>sub \<in> set subs. sub_ok sub" "body = pre @ concat (map encode_sub subs)" "cs_p st = length pre"
    and "length (cs_out st) = cap" "cs_out_p st \<le> cap" "cap < 2 ^ 32"
  shows "\<exists>st' finished. compound_loop (dispatch F) body cap st = Some (st', finished) \<and>
    loop_result st cap
      (compound_spec F cap (im_fs (cs_im st)) (cs_produced st) (cs_out_p st) subs) st' finished"
  using assms
proof (induction subs arbitrary: pre st)
  case Nil
  then show ?case
    by (intro exI [of _ st] exI [of _ True]) (subst compound_loop.simps, simp add: loop_result_def)
next
  case (Cons sub subs)
  obtain q h blob req where sub: "sub = (q, h, blob, req)" by (cases sub)
  let ?post = "concat (map encode_sub subs)"
  from Cons.prems(1) sub have ok: "sub_ok (q, h, blob, req)" by simp
  from Cons.prems(2) sub have body: "body = pre @ encode_sub (q, h, blob, req) @ ?post" by simp
  have more: "cs_p st < length body" using body Cons.prems(3) by simp
  show ?case
  proof (cases "cs_out_p st + 16 > cap")
    case True
    then have "compound_step (dispatch F) body cap st = Some None" by (simp add: compound_step_def)
    with more True Cons.prems(4,5) show ?thesis
      by (intro exI [of _ st] exI [of _ False])
        (subst compound_loop.simps, simp add: sub loop_result_def)
  next
    case False
    then have room: "cs_out_p st + 16 \<le> cap" by simp
    from compound_step_performs [OF ok body Cons.prems(3,4) room Cons.prems(6)] obtain rv s st1 where
      pf: "perform F (with_dep (cs_produced st) q h) (im_fs (cs_im st)) [] req = Some (rv, s)"
      and step: "compound_step (dispatch F) body cap st = Some (Some st1)"
      and fin: "sub_done st cap h (answer_of (cap - cs_out_p st - 16) rv) s st1" by blast
    have body1: "body = (pre @ encode_sub (q, h, blob, req)) @ ?post" using body by simp
    have st1: "cs_p st1 = length (pre @ encode_sub (q, h, blob, req))"
      using fin length_encode_sub [OF ok] Cons.prems(3) by (simp add: sub_done_def del: encode_sub.simps)
    have rest_ok: "\<forall>sub \<in> set subs. sub_ok sub" "length (cs_out st1) = cap" "cs_out_p st1 \<le> cap"
      using fin Cons.prems(1) by (simp_all add: sub_done_def)
    from Cons.IH [OF rest_ok(1) body1 st1 rest_ok(2,3) Cons.prems(6)] obtain st' finished where loop: "compound_loop (dispatch F) body cap st1 = Some (st', finished)"
      and rest: "loop_result st1 cap (compound_spec F cap (im_fs (cs_im st1)) (cs_produced st1)
        (cs_out_p st1) subs) st' finished" by blast
    let ?ans = "answer_of (cap - cs_out_p st - 16) rv"
    obtain res s'' where spec: "compound_spec F cap (im_fs (cs_im st1)) (cs_produced st1)
        (cs_out_p st1) subs = (res, s'')" by (cases "compound_spec F cap (im_fs (cs_im st1)) (cs_produced st1)
        (cs_out_p st1) subs")
    have "compound_spec F cap (im_fs (cs_im st)) (cs_produced st) (cs_out_p st) (sub # subs) =
        (map_option (\<lambda>fs. sub_frame h (fst ?ans) (snd ?ans) @ fs) res, s'')"
      using pf False fin spec by (simp add: sub sub_done_def Let_def)
    with loop_result_step [OF fin, of res s'' st' finished] rest spec loop step more show ?thesis
      by (intro exI [of _ st'] exI [of _ finished]) (subst compound_loop.simps, simp)
  qed
qed

lemma compound_performs:
  assumes ok: "replier_ok r" "16 \<le> r_cap r" "r_cap r < 2 ^ 32" and subs: "\<forall>sub \<in> set subs. sub_ok sub"
    and op: "ih_opcode h = opcode_val FUSE_COMPOUND"
  shows "\<exists>r'. dispatch F im h (zeros 16 @ concat (map encode_sub subs)) r =
      Some (im\<lparr>im_fs := snd (compound_spec F (r_cap r) (im_fs im) [] 16 subs)\<rparr>, r') \<and>
    (case fst (compound_spec F (r_cap r) (im_fs im) [] 16 subs) of
       None \<Rightarrow> r_neg_err r' = - EINVAL \<and> reply_bytes r' = []
     | Some fs \<Rightarrow> r_neg_err r' = 0 \<and> reply_bytes r' = zeros 16 @ fs)"
proof -
  let ?body = "zeros 16 @ concat (map encode_sub subs)"
  let ?st = "\<lparr>cs_im = im, cs_p = 16, cs_out = zeros 16 @ drop 16 (r_out r), cs_out_p = 16, cs_produced = []\<rparr>"
  have "cs_p ?st = length (zeros 16)" "length (cs_out ?st) = r_cap r" "cs_out_p ?st \<le> r_cap r"
    using ok by (simp_all add: replier_ok_def)
  from compound_loop_performs [OF subs refl this ok(3)] obtain st' finished where
    loop: "compound_loop (dispatch F) ?body (r_cap r) ?st = Some (st', finished)"
    and res: "loop_result ?st (r_cap r) (compound_spec F (r_cap r) (im_fs im) [] 16 subs) st' finished"
    by auto
  let ?r = "r\<lparr>r_out := cs_out st'\<rparr>"
  have "dispatch F im h ?body r = Some (cs_im st',
      if finished then ?r\<lparr>r_neg_err := 0, r_len := cs_out_p st'\<rparr> else reply_error ?r EINVAL)"
    unfolding dispatch_compound [OF op] using ok loop
    by (simp add: handle_compound_dispatch handle_compound_with_def store_def replier_ok_def)
  with res show ?thesis
    by (cases finished) (auto simp: loop_result_def reply_bytes_def)
qed

end

end
