(* ===== verification/Protocol.thy ===== *)
theory Protocol
  imports Compound
begin

text \<open>
  The properties of the request dispatcher: memory safety, refinement of the request
  semantics, compounds, refused requests, the \<open>INIT\<close> negotiation, and the round trips of
  the replies the kernel decodes. Concrete runs use the journal daemon.
\<close>

subsection \<open>Concrete values for the runs\<close>

definition sample_header :: "fuse_opcode \<Rightarrow> nat \<Rightarrow> u64 \<Rightarrow> fuse_in_header" where
  "sample_header op len nodeid =
     \<lparr>ih_len = word_of_nat (40 + len), ih_opcode = opcode_val op, ih_unique = 77, ih_nodeid = nodeid,
      ih_uid = 1000, ih_gid = 100, ih_pid = 4242, ih_total_extlen = 0\<rparr>"

definition sample_impl :: "journal Impl" where
  "sample_impl = Impl_new SessionOptions_default []"

definition sample_replier :: "nat \<Rightarrow> Replier" where
  "sample_replier n = \<lparr>r_out = zeros n, r_cap = n, r_len = 0, r_neg_err = 0, r_unique = 77\<rparr>"

lemma sample_header_simps [simp]:
  "ih_opcode (sample_header op len n) = opcode_val op" "ih_total_extlen (sample_header op len n) = 0"
  "ext_bytes (sample_header op len n) = 0" "ih_nodeid (sample_header op len n) = n"
  by (simp_all add: sample_header_def ext_bytes_def)

lemma sample_replier_simps [simp]:
  "replier_ok (sample_replier n)" "r_cap (sample_replier n) = n" "r_out (sample_replier n) = zeros n"
  by (simp_all add: sample_replier_def replier_ok_def)

lemma sample_impl_simps [simp]: "im_fs sample_impl = []" "im_init_done sample_impl = False"
  "im_opts sample_impl = SessionOptions_default"
  by (simp_all add: sample_impl_def Impl_new_def)

lemma journal_fs_simps [simp]:
  "fs_rename journal_fs s c od on nd nn fl = (Inr (), s @ [(od, on, nd, nn, fl)])"
  "fs_lookupx journal_fs s c p name = (Inr (entry_of (10 + word_of_nat (length name))), s)"
  "fs_lookup_root journal_fs s c = (Inr (entry_of NodeId_root), s)"
  "fs_statx journal_fs s c n = (Inr (StatxOut_zero\<lparr>so_ino := n\<rparr>), s)"
  "fs_init journal_fs s info = (Inr (), info, s)"
  by (simp_all add: journal_fs_def Filesystem_base_def default_init_def)

subsection \<open>Requests are performed\<close>





subsection \<open>Compounds\<close>

text \<open>
  C2. A compound of well-formed requests is performed as the sequence of its sub-requests:
  each runs on the state its predecessors left, a dependent one on the node id produced by
  the sub-request it names, and the reply is the compound header followed by one frame per
  sub-request, in order, with its request id, error and payload. The compound fails with
  \<open>EINVAL\<close> only when the reply buffer has no room for the next frame header.
\<close>

theorem compound_is_sequence:
  assumes "filesystem_contract F" "replier_ok r" "16 \<le> r_cap r" "r_cap r < 2 ^ 32"
    and "\<forall>sub \<in> set subs. sub_ok sub" "ih_opcode h = opcode_val FUSE_COMPOUND"
  shows "\<exists>r'. dispatch F im h (zeros 16 @ concat (map encode_sub subs)) r =
      Some (im\<lparr>im_fs := snd (compound_spec F (r_cap r) (im_fs im) [] 16 subs)\<rparr>, r') \<and>
    (case fst (compound_spec F (r_cap r) (im_fs im) [] 16 subs) of
       None \<Rightarrow> r_neg_err r' = - EINVAL \<and> reply_bytes r' = []
     | Some fs \<Rightarrow> r_neg_err r' = 0 \<and> reply_bytes r' = zeros 16 @ fs)"
  by (rule filesystem_contract.compound_performs [OF assms])

lemma entry_nodeid_entryx:
  "produces_entry opcode \<Longrightarrow> entry_nodeid opcode (0, put_fuse_entryx_out x) = ex_nodeid x"
  by (simp add: entry_nodeid_def put_fuse_entryx_out_def put64_def le_dec_le_enc_full)

definition sample_statx_in :: fuse_statx_in where
  "sample_statx_in = \<lparr>sxi_getattr_flags = 0, sxi_fh = 0, sxi_sx_flags = 0, sxi_sx_mask = 0x7ff\<rparr>"

text \<open>\<open>LOOKUPX "a"\<close> below the root, then \<open>STATX\<close> of whatever that found.\<close>

definition sample_subs :: "sub list" where
  "sample_subs =
     [(\<lparr>cri_dep_index = FUSE_COMPOUND_NO_DEP\<rparr>, sample_header FUSE_LOOKUPX 2 1, [], Lookupx [97]),
      (\<lparr>cri_dep_index = 0\<rparr>, sample_header FUSE_STATX 24 0, [], Statx sample_statx_in)]"

theorem compound_is_sequence_witness:
  "\<exists>r'. dispatch journal_fs sample_impl (sample_header FUSE_COMPOUND 0 0)
      (zeros 16 @ concat (map encode_sub sample_subs)) (sample_replier 1000) = Some (sample_impl, r') \<and>
    reply_bytes r' = zeros 16 @
      sub_frame (sample_header FUSE_LOOKUPX 2 1) 0 (put_fuse_entryx_out (lookup_out (entry_of 11))) @
      sub_frame (sample_header FUSE_STATX 24 0) 0
        (put_fuse_statx_out (pack_statx (StatxOut_zero\<lparr>so_ino := 11\<rparr>) one_second))"
proof -
  let ?spec = "compound_spec journal_fs 1000 [] [] 16 sample_subs"
  have node: "ex_nodeid (lookup_out (entry_of n)) = n" for n
    by (simp add: lookup_out_def entryx_out_def entry_of_def split_def Let_def)
  have spec: "?spec = (Some (sub_frame (sample_header FUSE_LOOKUPX 2 1) 0
        (put_fuse_entryx_out (lookup_out (entry_of 11))) @
      sub_frame (sample_header FUSE_STATX 24 0) 0
        (put_fuse_statx_out (pack_statx (StatxOut_zero\<lparr>so_ino := 11\<rparr>) one_second))), [])"
    by (simp add: sample_subs_def answer_pod_def entry_nodeid_entryx produces_entry_def node with_dep_def
        FUSE_COMPOUND_NO_DEP_def Let_def)
  have "\<forall>sub \<in> set sample_subs. sub_ok sub"
    by (simp add: sample_subs_def sample_header_def ext_bytes_def)
  then have "\<exists>r'. dispatch journal_fs sample_impl (sample_header FUSE_COMPOUND 0 0)
      (zeros 16 @ concat (map encode_sub sample_subs)) (sample_replier 1000) =
        Some (sample_impl\<lparr>im_fs := snd ?spec\<rparr>, r') \<and>
      (case fst ?spec of None \<Rightarrow> r_neg_err r' = - EINVAL \<and> reply_bytes r' = []
       | Some fs \<Rightarrow> r_neg_err r' = 0 \<and> reply_bytes r' = zeros 16 @ fs)"
    using compound_is_sequence [OF journal.filesystem_contract_axioms, of "sample_replier 1000" sample_subs
        "sample_header FUSE_COMPOUND 0 0" sample_impl] by simp
  then show ?thesis unfolding spec by (auto simp: sample_impl_def Impl_new_def)
qed

text \<open>
  C21. Whatever bytes a compound carries: if it is answered without an error, the reply
  consists of the zeroed compound header and, in order, one frame per sub-request the body
  parses into, with that sub-request's id; a failed sub-request has an empty payload. So
  the kernel can walk the reply by the frame lengths.
\<close>

theorem compound_reply_framed:
  assumes "filesystem_contract F" "replier_ok r" "16 \<le> length body" "16 \<le> r_cap r" "r_cap r < 2 ^ 32"
    and "\<forall>(q, h, b) \<in> set (subrequests body 16). ext_ok h b"
    and "handle_compound F im h body r = Some (im', r')" "r_neg_err r' = 0"
  shows "\<exists>rs. length rs = length (subrequests body 16) \<and> (\<forall>(e, pl) \<in> set rs. e \<noteq> 0 \<longrightarrow> pl = []) \<and>
    reply_bytes r' = zeros 16 @
      concat (map2 (\<lambda>(q, h, b) (e, pl). sub_frame h e pl) (subrequests body 16) rs)"
  using filesystem_contract.compound_result [OF assms(1-4,6), of im h] assms(5,7,8)
  by (auto simp: frames_ok_def framed_def)

theorem compound_reply_framed_witness:
  "\<exists>r'. handle_compound journal_fs sample_impl (sample_header FUSE_COMPOUND 0 0) (zeros 16) (sample_replier 64) =
      Some (sample_impl, r') \<and> reply_bytes r' = zeros 16"
proof -
  have subs: "subrequests (zeros 16) 16 = []" by (simp add: subrequests_end)
  let ?r' = "(sample_replier 64)\<lparr>r_out := zeros 16 @ drop 16 (zeros 64), r_neg_err := 0, r_len := 16\<rparr>"
  have run: "handle_compound journal_fs sample_impl (sample_header FUSE_COMPOUND 0 0) (zeros 16) (sample_replier 64) =
      Some (sample_impl, ?r')"
    by (simp add: handle_compound_def handle_compound_with_def compound_loop.simps)
  have "reply_bytes ?r' = zeros 16"
    using compound_reply_framed [OF journal.filesystem_contract_axioms, of "sample_replier 64" "zeros 16"
        sample_impl "sample_header FUSE_COMPOUND 0 0" sample_impl ?r'] run
    by (simp add: subs)
  with run show ?thesis by blast
qed

text \<open>
  A compound inside a compound is not dispatched: its frame carries \<open>EOPNOTSUPP\<close> and no
  payload, the daemon's state is untouched, and it produces no node id.
\<close>

theorem nested_compound_refused:
  assumes "body = pre @ put_fuse_compound_req_in q @ put_fuse_in_header h @ sub @ post"
    and "cs_p st = length pre" "ih_opcode h = opcode_val FUSE_COMPOUND" "unat (ih_len h) = 40 + length sub"
    and "length (cs_out st) = cap" "cs_out_p st + 16 \<le> cap"
  shows "\<exists>st'. compound_step (dispatch F) body cap st = Some (Some st') \<and> cs_im st' = cs_im st \<and>
    cs_produced st' = cs_produced st @ [0] \<and> cs_p st' = length body - length post \<and>
    take (cs_out_p st') (cs_out st') = take (cs_out_p st) (cs_out st) @ sub_frame h (- EOPNOTSUPP) []"
proof -
  have ld: "load get_fuse_compound_req_in body (cs_p st) = Some q"
      "load get_fuse_in_header body (cs_p st + 4) = Some h"
    using assms(1,2) compound_req_in.load_put [of "cs_p st" pre q "put_fuse_in_header h @ sub @ post"]
      in_header.load_put [of "cs_p st + 4" "pre @ put_fuse_compound_req_in q" h "sub @ post"]
    by simp_all
  have sl: "slice body (cs_p st + 44) (length sub) = Some sub"
    using assms(1,2) slice_app [of "cs_p st + 44" "pre @ put_fuse_compound_req_in q @ put_fuse_in_header h"
        "length sub" sub post] by simp
  have len: "length body = cs_p st + 44 + length sub + length post" using assms(1,2) by simp
  show ?thesis
    using assms(3-6) ld sl len
    by (simp add: compound_step_def Let_def produced_nodeid_def sub_out_header_def reply_len_def
        store_def sub_frame_def errno_defs)
qed

theorem nested_compound_refused_witness:
  "\<exists>st'. compound_step (dispatch journal_fs)
      (zeros 16 @ put_fuse_compound_req_in \<lparr>cri_dep_index = 0\<rparr> @
         put_fuse_in_header (sample_header FUSE_COMPOUND 1 9) @ [0])
      64 \<lparr>cs_im = sample_impl, cs_p = 16, cs_out = zeros 64, cs_out_p = 16, cs_produced = []\<rparr> = Some (Some st') \<and>
    cs_im st' = sample_impl \<and> cs_produced st' = [0] \<and> cs_p st' = 61"
  using nested_compound_refused [of "zeros 16 @ put_fuse_compound_req_in \<lparr>cri_dep_index = 0\<rparr> @
         put_fuse_in_header (sample_header FUSE_COMPOUND 1 9) @ [0]" "zeros 16" "\<lparr>cri_dep_index = 0\<rparr>"
      "sample_header FUSE_COMPOUND 1 9" "[0]" "[]"
      "\<lparr>cs_im = sample_impl, cs_p = 16, cs_out = zeros 64, cs_out_p = 16, cs_produced = []\<rparr>" 64 journal_fs]
  by (auto simp: sample_header_def)

subsection \<open>Refused requests\<close>

definition supported_opcodes :: "fuse_opcode list" where
  "supported_opcodes =
     [FUSE_INIT, FUSE_LOOKUP_ROOT, FUSE_LOOKUPX, FUSE_FORGET, FUSE_BATCH_FORGET, FUSE_STATX, FUSE_SETSTATX,
      FUSE_MKOBJX, FUSE_UNLINK, FUSE_RMDIR, FUSE_RENAME2, FUSE_LINK, FUSE_READ, FUSE_WRITE, FUSE_READLINK,
      FUSE_STATFS, FUSE_FALLOCATE, FUSE_OPEN, FUSE_RELEASE, FUSE_OPENDIR, FUSE_RELEASEDIR, FUSE_READDIR,
      FUSE_GETXATTR, FUSE_SETXATTR, FUSE_LISTXATTR, FUSE_REMOVEXATTR, FUSE_COMPOUND]"

text \<open>
  An opcode outside the supported set, known to the protocol or not, is answered with
  \<open>ENOSYS\<close>, without calling the daemon and without touching the reply buffer.
\<close>

theorem unsupported_opcode_refused:
  assumes "\<forall>op \<in> set supported_opcodes. ih_opcode h \<noteq> opcode_val op"
  shows "dispatch F im h body r = Some (im, r\<lparr>r_neg_err := - ENOSYS, r_len := 0\<rparr>)"
proof (cases "opcode_of (ih_opcode h)")
  case None
  then show ?thesis by (simp add: dispatch_def dispatch_with_def reply_error_def neg_errno_def)
next
  case (Some op)
  with assms have "op \<notin> set supported_opcodes" using opcode_of_Some by blast
  with Some show ?thesis
    by (cases op) (simp_all add: supported_opcodes_def dispatch_def dispatch_with_def reply_error_def neg_errno_def)
qed

theorem unsupported_opcode_refused_witness:
  "dispatch journal_fs sample_impl (sample_header FUSE_GETATTR 0 1) [] (sample_replier 4) =
     Some (sample_impl, (sample_replier 4)\<lparr>r_neg_err := - ENOSYS, r_len := 0\<rparr>)"
  using unsupported_opcode_refused [of "sample_header FUSE_GETATTR 0 1" journal_fs sample_impl "[]" "sample_replier 4"]
  by (simp add: supported_opcodes_def)

text \<open>The size of the fixed arguments a handler needs before it looks at anything else.\<close>

fun arg_size :: "fuse_opcode \<Rightarrow> nat" where
  "arg_size FUSE_INIT = 64"
| "arg_size FUSE_LOOKUPX = 1"
| "arg_size FUSE_FORGET = 8"
| "arg_size FUSE_BATCH_FORGET = 8"
| "arg_size FUSE_STATX = 24"
| "arg_size FUSE_SETSTATX = 272"
| "arg_size FUSE_MKOBJX = 320"
| "arg_size FUSE_UNLINK = 1"
| "arg_size FUSE_RMDIR = 1"
| "arg_size FUSE_RENAME2 = 18"
| "arg_size FUSE_LINK = 9"
| "arg_size FUSE_OPEN = 8"
| "arg_size FUSE_RELEASE = 24"
| "arg_size FUSE_READ = 40"
| "arg_size FUSE_WRITE = 40"
| "arg_size FUSE_FALLOCATE = 32"
| "arg_size FUSE_RELEASEDIR = 24"
| "arg_size FUSE_READDIR = 40"
| "arg_size FUSE_GETXATTR = 9"
| "arg_size FUSE_SETXATTR = 17"
| "arg_size FUSE_LISTXATTR = 8"
| "arg_size FUSE_COMPOUND = 16"
| "arg_size _ = 0"

text \<open>
  C33. A request whose body is shorter than its fixed arguments is answered with \<open>EINVAL\<close>,
  without calling the daemon.
\<close>

theorem short_request_refused:
  assumes "ih_opcode h = opcode_val op" "length body < arg_size op"
  shows "dispatch F im h body r = Some (im, r\<lparr>r_neg_err := - EINVAL, r_len := 0\<rparr>)"
proof -
  have "opcode_of (ih_opcode h) = Some op" using assms(1) by simp
  with assms(2) show ?thesis
    by (cases op) (simp_all add: dispatch_def dispatch_with_def handler_defs in_arg_def invalid_def
        handle_compound_def handle_compound_with_def Let_def reply_error_def neg_errno_def)
qed

theorem short_request_refused_witness:
  "dispatch journal_fs sample_impl (sample_header FUSE_RENAME2 17 5) (zeros 17) (sample_replier 4) =
     Some (sample_impl, (sample_replier 4)\<lparr>r_neg_err := - EINVAL, r_len := 0\<rparr>)"
  using short_request_refused [of "sample_header FUSE_RENAME2 17 5" FUSE_RENAME2 "zeros 17" journal_fs sample_impl
      "sample_replier 4"]
  by simp

text \<open>Where the (first) name of a request starts, given the extension length.\<close>

fun name_offset :: "fuse_opcode \<Rightarrow> nat \<Rightarrow> nat option" where
  "name_offset FUSE_LOOKUPX ext = Some 0"
| "name_offset FUSE_UNLINK ext = Some 0"
| "name_offset FUSE_RMDIR ext = Some 0"
| "name_offset FUSE_RENAME2 ext = Some (ext + 16)"
| "name_offset FUSE_LINK ext = Some (ext + 8)"
| "name_offset FUSE_GETXATTR ext = Some (ext + 8)"
| "name_offset FUSE_SETXATTR ext = Some (ext + 16)"
| "name_offset FUSE_REMOVEXATTR ext = Some ext"
| "name_offset _ ext = None"

lemma scan_unterminated:
  assumes "off \<le> length body" "0 \<notin> set (drop off body)"
  shows "strnlen body off (length body - off) = Some (length body - off)"
  using assms by (intro strnlen_unterminated) simp_all

text \<open>
  A name without a terminating NUL in the body is answered with \<open>EINVAL\<close>: the scan stops
  at the end of the body and the daemon is not called.
\<close>

theorem unterminated_name_refused:
  assumes op: "ih_opcode h = opcode_val op" "name_offset op (ext_bytes h) = Some off"
    and name: "off \<le> length body" "0 \<notin> set (drop off body)"
  shows "dispatch F im h body r = Some (im, r\<lparr>r_neg_err := - EINVAL, r_len := 0\<rparr>)"
proof -
  note scan = scan_unterminated [OF name]
  have ld: "\<exists>x. load get_fuse_rename2_in body (ext_bytes h) = Some x" if "ext_bytes h + 16 \<le> length body"
    using that by (rule rename2_in.load_in_bounds)
  have ld2: "\<exists>x. load get_fuse_link_in body (ext_bytes h) = Some x"
      "\<exists>x. load get_fuse_getxattr_in body (ext_bytes h) = Some x" if "ext_bytes h + 8 \<le> length body"
    using that link_in.load_in_bounds getxattr_in.load_in_bounds by blast+
  have ld3: "\<exists>x. load get_fuse_setxattr_in body (ext_bytes h) = Some x" if "ext_bytes h + 16 \<le> length body"
    using that by (rule setxattr_in.load_in_bounds)
  have "opcode_of (ih_opcode h) = Some op" using op(1) by simp
  with op(2) name(1) scan ld ld2 ld3 show ?thesis
    by (cases op) (auto simp: dispatch_def dispatch_with_def handler_defs invalid_def Let_def
        reply_error_def neg_errno_def simp del: opcode_val.simps)
qed

theorem unterminated_name_refused_witness:
  "dispatch journal_fs sample_impl (sample_header FUSE_RENAME2 18 5)
      (put_fuse_rename2_in \<lparr>rni_newdir = 7, rni_flags = 1\<rparr> @ [97, 98]) (sample_replier 4) =
     Some (sample_impl, (sample_replier 4)\<lparr>r_neg_err := - EINVAL, r_len := 0\<rparr>)"
  using unterminated_name_refused [of "sample_header FUSE_RENAME2 18 5" FUSE_RENAME2 16
      "put_fuse_rename2_in \<lparr>rni_newdir = 7, rni_flags = 1\<rparr> @ [97, 98]" journal_fs sample_impl "sample_replier 4"]
  by simp

text \<open>Requests that announce more data than they carry.\<close>

fun overstated :: "request \<Rightarrow> bool" where
  "overstated (Write i data) = (length data < unat (wri_size i))"
| "overstated (Setxattr i name val) = (0 \<notin> set name \<and> length val < unat (sai_size i))"
| "overstated _ = False"

text \<open>
  A \<open>WRITE\<close> or \<open>SETXATTR\<close> that announces more data than its body carries is answered
  with \<open>EINVAL\<close>, without calling the daemon.
\<close>

theorem overstated_data_refused:
  assumes "length blob = ext_bytes h" "ih_opcode h = opcode_val (request_opcode q)" "overstated q"
  shows "dispatch F im h (blob @ encode q) r = Some (im, r\<lparr>r_neg_err := - EINVAL, r_len := 0\<rparr>)"
proof (cases q rule: overstated.cases)
  case (1 i data)
  then show ?thesis
    using assms by (simp add: dispatch_def dispatch_with_def handle_write_def Let_def write_in.load_put
        invalid_def reply_error_def neg_errno_def del: opcode_val.simps)
next
  case (2 i name val)
  with assms scan_cstr [of name "ext_bytes h + 16" "blob @ put_fuse_setxattr_in i"
        "Suc (length name + length val)" val]
  show ?thesis
    by (simp add: dispatch_def dispatch_with_def handle_setxattr_def Let_def setxattr_in.load_put
        invalid_def reply_error_def neg_errno_def del: opcode_val.simps)
qed (use assms in simp_all)

theorem overstated_data_refused_witness:
  "dispatch journal_fs sample_impl (sample_header FUSE_SETXATTR 20 5)
      (encode (Setxattr \<lparr>sai_size = 2, sai_flags = 0, sai_setxattr_flags = 0\<rparr> [97, 98] [7])) (sample_replier 4) =
     Some (sample_impl, (sample_replier 4)\<lparr>r_neg_err := - EINVAL, r_len := 0\<rparr>)"
  using overstated_data_refused [of "[]" "sample_header FUSE_SETXATTR 20 5"
      "Setxattr \<lparr>sai_size = 2, sai_flags = 0, sai_setxattr_flags = 0\<rparr> [97, 98] [7]" journal_fs sample_impl
      "sample_replier 4"]
  by simp

text \<open>
  C34. \<open>REMOVEXATTR\<close> computes the name window as \<open>body_len - ext\<close> without comparing the two:
  when the header announces an extension longer than the body, the subtraction wraps and
  the scan for the name starts behind the end of the body, an out-of-bounds read.
\<close>

theorem removexattr_overread:
  assumes "ih_opcode h = opcode_val FUSE_REMOVEXATTR" "length body < ext_bytes h"
  shows "dispatch F im h body r = None"
proof -
  have "ext_bytes h < 2 ^ 64"
    using unsigned_less [where ?'a = nat, of "ih_total_extlen h"] by (simp add: ext_bytes_def)
  then have "0 < size_sub (length body) (ext_bytes h)" using assms(2) by (simp add: size_sub_def)
  then have "strnlen body (ext_bytes h) (size_sub (length body) (ext_bytes h)) = None"
    using assms(2) by (simp add: strnlen_def)
  with assms(1) show ?thesis
    by (simp add: dispatch_def dispatch_with_def handle_removexattr_def del: opcode_val.simps)
qed

theorem removexattr_overread_witness:
  "dispatch journal_fs sample_impl ((sample_header FUSE_REMOVEXATTR 2 5)\<lparr>ih_total_extlen := 1\<rparr>) [97, 0]
     (sample_replier 4) = None"
  using removexattr_overread [of "(sample_header FUSE_REMOVEXATTR 2 5)\<lparr>ih_total_extlen := 1\<rparr>" "[97, 0]"
      journal_fs sample_impl "sample_replier 4"]
  by (simp add: ext_bytes_def)



subsection \<open>The INIT negotiation\<close>

definition kernel_flags :: "fuse_init_in \<Rightarrow> u64" where
  "kernel_flags inn = ucast (ini_flags inn) OR push_bit 32 (ucast (ini_flags2 inn))"

text \<open>
  If the kernel does not offer the io_uring transport, \<open>INIT\<close> is refused with
  \<open>EOPNOTSUPP\<close>; the daemon is not asked and the session is not initialised.
\<close>

theorem init_needs_uring:
  assumes "ih_opcode h = opcode_val FUSE_INIT" "length blob = ext_bytes h"
    and "kernel_flags inn AND FUSE_OVER_IO_URING = 0"
  shows "dispatch F im h (blob @ put_fuse_init_in inn) r = Some (im, r\<lparr>r_neg_err := - EOPNOTSUPP, r_len := 0\<rparr>)"
  using assms
  by (simp add: dispatch_def dispatch_with_def handle_init_def in_arg_blob load_def init_in.get_put
      kernel_flags_def reply_error_def neg_errno_def del: opcode_val.simps)

definition sample_init_in :: "u32 \<Rightarrow> fuse_init_in" where
  "sample_init_in flags2 = \<lparr>ini_major = 7, ini_minor = 99, ini_max_readahead = 131072, ini_flags = 0x40000001,
     ini_flags2 = flags2\<rparr>"

theorem init_needs_uring_witness:
  "dispatch journal_fs sample_impl (sample_header FUSE_INIT 64 0) (put_fuse_init_in (sample_init_in 0))
     (sample_replier 64) = Some (sample_impl, (sample_replier 64)\<lparr>r_neg_err := - EOPNOTSUPP, r_len := 0\<rparr>)"
  using init_needs_uring [of "sample_header FUSE_INIT 64 0" "[]" "sample_init_in 0" journal_fs sample_impl
      "sample_replier 64"]
  by (simp add: kernel_flags_def sample_init_in_def abi_const_defs)

lemma split_flags:
  "(ucast (ucast (x AND 0xffffffff) :: u32) :: u64) OR push_bit 32 (ucast (ucast (drop_bit 32 x) :: u32)) = (x :: u64)"
proof -
  have low: "(0xffffffff :: u64) = mask 32" by (simp add: mask_eq_exp_minus_1)
  show ?thesis unfolding low by (rule bit_word_eqI) (auto simp: bit_simps)
qed

lemma init_out_fields:
  "ucast (ino_flags (init_out inn info)) OR push_bit 32 (ucast (ino_flags2 (init_out inn info))) = ii_flags info"
  "ino_major (init_out inn info) = FUSE_KERNEL_VERSION"
  "ino_minor (init_out inn info) = min (ini_minor inn) FUSE_KERNEL_MINOR_VERSION"
  "ino_max_write (init_out inn info) = ii_max_write info" "ino_max_pages (init_out inn info) = ii_max_pages info"
  "ino_time_gran (init_out inn info) = ii_time_gran info"
  "ino_max_readahead (init_out inn info) = ini_max_readahead inn"
  by (simp_all add: init_out_def split_flags)

text \<open>
  C22. \<open>INIT\<close> with the right major version: the reply decodes to the library's version, the
  smaller of the two minor versions, the daemon's flags with the io_uring transport forced
  on, and the daemon's limits; only then is the session marked initialised.
\<close>

theorem init_negotiates:
  assumes "replier_ok r" "64 \<le> r_cap r" "ih_opcode h = opcode_val FUSE_INIT" "length blob = ext_bytes h"
    and "kernel_flags inn AND FUSE_OVER_IO_URING \<noteq> 0"
    and "fs_init F (im_fs im) (init_info (opt_uring_payload_bytes (im_opts im)) inn) = (Inr (), info, s)"
    and "ii_kernel_major info = FUSE_KERNEL_VERSION"
  shows "\<exists>r' out. dispatch F im h (blob @ put_fuse_init_in inn) r =
      Some (im\<lparr>im_fs := s, im_init_done := True\<rparr>, r') \<and> r_neg_err r' = 0 \<and>
    load get_fuse_init_out (reply_bytes r') 0 = Some out \<and> length (reply_bytes r') = 64 \<and>
    ino_major out = FUSE_KERNEL_VERSION \<and> ino_minor out = min (ini_minor inn) FUSE_KERNEL_MINOR_VERSION \<and>
    ucast (ino_flags out) OR push_bit 32 (ucast (ino_flags2 out)) = ii_flags info OR FUSE_OVER_IO_URING \<and>
    ino_max_write out = ii_max_write info \<and> ino_max_pages out = ii_max_pages info \<and>
    ino_time_gran out = ii_time_gran info \<and> ino_max_readahead out = ini_max_readahead inn"
proof -
  let ?info = "info\<lparr>ii_flags := ii_flags info OR FUSE_OVER_IO_URING\<rparr>"
  let ?out = "init_out inn ?info"
  obtain r' where r': "reply_pod put_fuse_init_out r ?out = Some r'"
    using reply_pod_safe [OF assms(1), of put_fuse_init_out ?out] by blast
  from reply_pod_fits [OF assms(1) _ r'] assms(2) have bytes: "reply_bytes r' = put_fuse_init_out ?out" "r_neg_err r' = 0"
    by simp_all
  have "dispatch F im h (blob @ put_fuse_init_in inn) r = Some (im\<lparr>im_fs := s, im_init_done := True\<rparr>, r')"
    using assms(3-7) r'
    by (simp add: dispatch_def dispatch_with_def handle_init_def in_arg_blob load_def init_in.get_put
        kernel_flags_def del: opcode_val.simps)
  moreover have "load get_fuse_init_out (reply_bytes r') 0 = Some ?out"
    unfolding bytes by (simp add: load_def init_out.get_put)
  ultimately show ?thesis
    using bytes by (intro exI [of _ r'] exI [of _ ?out]) (simp add: init_out_fields)
qed

lemma uring_offered: "kernel_flags (sample_init_in 0x200) AND FUSE_OVER_IO_URING \<noteq> 0"
  by (simp add: kernel_flags_def sample_init_in_def abi_const_defs)

theorem init_negotiates_witness:
  "\<exists>r' out. dispatch journal_fs sample_impl (sample_header FUSE_INIT 64 0)
      (put_fuse_init_in (sample_init_in 0x200)) (sample_replier 64) =
      Some (sample_impl\<lparr>im_fs := [], im_init_done := True\<rparr>, r') \<and> r_neg_err r' = 0 \<and>
    load get_fuse_init_out (reply_bytes r') 0 = Some out \<and>
    ino_major out = FUSE_KERNEL_VERSION \<and> ino_max_write out = 0x100000 \<and> ino_max_pages out = 256"
proof -
  let ?info = "init_info (2 ^ 20) (sample_init_in 0x200)"
  have "ii_kernel_major ?info = FUSE_KERNEL_VERSION" "ii_max_write ?info = 0x100000" "ii_max_pages ?info = 256"
    by (simp_all add: init_info_def sample_init_in_def InitInfo_default_def Let_def abi_const_defs)
  with init_negotiates [of "sample_replier 64" "sample_header FUSE_INIT 64 0" "[]" "sample_init_in 0x200"
      journal_fs sample_impl ?info "[]"] uring_offered
  show ?thesis by (auto simp: SessionOptions_default_def)
qed

text \<open>
  The limits offered to the daemon: for payload buffers below 4 GiB, \<open>max_write\<close> never
  exceeds the payload buffer of a ring entry and \<open>max_pages\<close> never exceeds its size rounded
  up to whole pages.
\<close>

theorem init_offer_bounds:
  assumes "payload_bytes < 2 ^ 32"
  shows "unat (ii_max_write (init_info payload_bytes inn)) \<le> min payload_bytes (2 ^ 20) \<and>
    unat (ii_max_pages (init_info payload_bytes inn)) = min 256 ((payload_bytes + 4095) div 4096)"
proof -
  have "unat (word_of_nat payload_bytes :: u32) = payload_bytes"
    using assms by (simp only: unat_of_nat) simp
  then have "unat (min (0x100000 :: u32) (word_of_nat payload_bytes)) = min (2 ^ 20) payload_bytes"
    by (simp add: min_def word_le_nat_alt)
  moreover have "unat (word_of_nat (min 256 k) :: u16) = min 256 k" for k
    by (simp only: unat_of_nat) simp
  moreover have "(payload_bytes + 4095) mod 2 ^ 64 = payload_bytes + 4095" using assms by simp
  ultimately show ?thesis
    by (simp add: init_info_def InitInfo_default_def Let_def)
qed

theorem init_offer_bounds_witness:
  "unat (ii_max_write (init_info 65536 (sample_init_in 0x200))) \<le> 65536 \<and>
    unat (ii_max_pages (init_info 65536 (sample_init_in 0x200))) = 16"
  using init_offer_bounds [of 65536 "sample_init_in 0x200"] by simp

text \<open>
  The page limit is rounded up: for a payload buffer that is not a multiple of the page
  size (below the 1 MiB default limit) the offered \<open>max_pages\<close> pages are more bytes than a
  ring entry can hold.
\<close>

theorem init_pages_exceed_payload:
  assumes "0 < payload_bytes" "payload_bytes < 2 ^ 20" "payload_bytes mod 4096 \<noteq> 0"
  shows "payload_bytes < unat (ii_max_pages (init_info payload_bytes inn)) * 4096"
proof -
  let ?n = "(payload_bytes + 4095) div 4096"
  have "?n \<le> 256" using assms(2) by simp
  moreover have "(payload_bytes + 4095) mod 2 ^ 64 = payload_bytes + 4095" using assms(2) by simp
  ultimately have "unat (ii_max_pages (init_info payload_bytes inn)) = ?n"
    by (simp add: init_info_def InitInfo_default_def Let_def unat_of_nat min_absorb2)
  moreover have "payload_bytes < ?n * 4096"
  proof -
    have "payload_bytes + 4095 = ?n * 4096 + (payload_bytes + 4095) mod 4096" by simp
    moreover have "(payload_bytes + 4095) mod 4096 < 4096" by simp
    ultimately have "payload_bytes \<le> ?n * 4096" by linarith
    moreover have "payload_bytes \<noteq> ?n * 4096" using assms(3) by (metis mod_mult_self2_is_0)
    ultimately show ?thesis by simp
  qed
  ultimately show ?thesis by simp
qed

theorem init_pages_exceed_payload_witness:
  "5000 < unat (ii_max_pages (init_info 5000 (sample_init_in 0x200))) * 4096"
  using init_pages_exceed_payload [of 5000 "sample_init_in 0x200"] by simp

text \<open>
  On a major version mismatch the reply carries the library's major version and is
  otherwise zero, and the session stays uninitialised, so the kernel can \<open>INIT\<close> again.
\<close>

theorem init_major_mismatch:
  assumes "replier_ok r" "64 \<le> r_cap r" "ih_opcode h = opcode_val FUSE_INIT" "length blob = ext_bytes h"
    and "kernel_flags inn AND FUSE_OVER_IO_URING \<noteq> 0"
    and "fs_init F (im_fs im) (init_info (opt_uring_payload_bytes (im_opts im)) inn) = (Inr (), info, s)"
    and "ii_kernel_major info \<noteq> FUSE_KERNEL_VERSION"
  shows "\<exists>r'. dispatch F im h (blob @ put_fuse_init_in inn) r = Some (im\<lparr>im_fs := s\<rparr>, r') \<and> r_neg_err r' = 0 \<and>
    load get_fuse_init_out (reply_bytes r') 0 = Some (init_out_zero\<lparr>ino_major := FUSE_KERNEL_VERSION\<rparr>)"
proof -
  let ?out = "init_out_zero\<lparr>ino_major := FUSE_KERNEL_VERSION\<rparr>"
  obtain r' where r': "reply_pod put_fuse_init_out r ?out = Some r'"
    using reply_pod_safe [OF assms(1), of put_fuse_init_out ?out] by blast
  from reply_pod_fits [OF assms(1) _ r'] assms(2) have bytes: "reply_bytes r' = put_fuse_init_out ?out" "r_neg_err r' = 0"
    by simp_all
  have "dispatch F im h (blob @ put_fuse_init_in inn) r = Some (im\<lparr>im_fs := s\<rparr>, r')"
    using assms(3-7) r'
    by (simp add: dispatch_def dispatch_with_def handle_init_def in_arg_blob load_def init_in.get_put
        kernel_flags_def del: opcode_val.simps)
  with bytes show ?thesis by (auto simp: load_def init_out.get_put)
qed

theorem init_major_mismatch_witness:
  "\<exists>r'. dispatch journal_fs sample_impl (sample_header FUSE_INIT 64 0)
      (put_fuse_init_in ((sample_init_in 0x200)\<lparr>ini_major := 8\<rparr>)) (sample_replier 64) =
      Some (sample_impl\<lparr>im_fs := []\<rparr>, r') \<and>
    load get_fuse_init_out (reply_bytes r') 0 = Some (init_out_zero\<lparr>ino_major := FUSE_KERNEL_VERSION\<rparr>)"
proof -
  let ?inn = "(sample_init_in 0x200)\<lparr>ini_major := 8\<rparr>"
  have "ii_kernel_major (init_info (2 ^ 20) ?inn) \<noteq> FUSE_KERNEL_VERSION"
    by (simp add: init_info_def InitInfo_default_def Let_def abi_const_defs)
  moreover have "kernel_flags ?inn = kernel_flags (sample_init_in 0x200)" by (simp add: kernel_flags_def)
  ultimately show ?thesis
    using init_major_mismatch [of "sample_replier 64" "sample_header FUSE_INIT 64 0" "[]" ?inn
      journal_fs sample_impl "init_info (2 ^ 20) ?inn" "[]"] uring_offered
    by (auto simp: SessionOptions_default_def)
qed

subsection \<open>Replies the kernel decodes\<close>

lemma lookup_out_fields:
  "ex_nodeid (lookup_out e) = eo_nodeid e"
  "(ex_entry_valid (lookup_out e), ex_entry_valid_nsec (lookup_out e)) = split_duration (eo_entry_valid e)"
  "ex_flags (lookup_out e) = (if eo_negative e then FUSE_ENTRYX_NEGATIVE else 0)"
  by (simp_all add: lookup_out_def entryx_out_def Let_def split_def)

lemma split_duration_total:
  assumes "split_duration d = (sec, nsec)"
  shows "uint sec * 1000000000 + uint nsec = max 0 (sint d)" "uint nsec < 1000000000"
proof -
  show "uint nsec < 1000000000" by (rule split_duration_nsec_lt [OF assms])
  show "uint sec * 1000000000 + uint nsec = max 0 (sint d)"
  proof (cases "0 \<le> sint d")
    case True
    with split_duration_nonneg [OF True assms] show ?thesis by simp
  next
    case False
    with split_duration_negative [of d] assms show ?thesis by simp
  qed
qed

text \<open>
  A successful lookup answers exactly one entry structure, which decodes to the node id
  the daemon returned, the negative flag, and a timeout that is the daemon's nanosecond
  count split into seconds and nanoseconds without loss (a negative one becomes 0).
\<close>

theorem entry_reply_decodes:
  assumes "replier_ok r" "32 \<le> r_cap r" "ih_opcode h = opcode_val FUSE_LOOKUPX" "0 \<notin> set name"
    and "fs_lookupx F (im_fs im) (make_ctx h) (ih_nodeid h) name = (Inr e, s)"
  shows "\<exists>r' x. dispatch F im h (encode (Lookupx name)) r = Some (im\<lparr>im_fs := s\<rparr>, r') \<and> r_neg_err r' = 0 \<and>
    length (reply_bytes r') = 32 \<and> load get_fuse_entryx_out (reply_bytes r') 0 = Some x \<and>
    ex_nodeid x = eo_nodeid e \<and> (ex_flags x AND FUSE_ENTRYX_NEGATIVE \<noteq> 0 \<longleftrightarrow> eo_negative e) \<and>
    uint (ex_entry_valid x) * 1000000000 + uint (ex_entry_valid_nsec x) = max 0 (sint (eo_entry_valid e)) \<and>
    uint (ex_entry_valid_nsec x) < 1000000000"
proof -
  let ?x = "lookup_out e"
  have "serves im r (handle_lookupx F im h (encode (Lookupx name)) r) (perform F h (im_fs im) (r_out r) (Lookupx name))"
    using assms(1,4) by (rule serves_one_name)
  moreover have "dispatch F im h (encode (Lookupx name)) r = handle_lookupx F im h (encode (Lookupx name)) r"
    using assms(3) by (simp add: dispatch_def dispatch_with_def del: opcode_val.simps encode.simps)
  ultimately obtain r' where "dispatch F im h (encode (Lookupx name)) r = Some (im\<lparr>im_fs := s\<rparr>, r')"
      "r_neg_err r' = 0" and bytes: "reply_bytes r' = put_fuse_entryx_out ?x"
    using assms(2,5) by (auto simp: serves_def answer_pod_def simp del: encode.simps)
  moreover have "load get_fuse_entryx_out (reply_bytes r') 0 = Some ?x"
    unfolding bytes by (simp add: load_def entryx_out.get_put)
  moreover have "ex_flags ?x AND FUSE_ENTRYX_NEGATIVE \<noteq> 0 \<longleftrightarrow> eo_negative e"
    by (simp add: lookup_out_fields abi_const_defs)
  moreover note split_duration_total [OF lookup_out_fields(2) [of e, symmetric]]
  ultimately show ?thesis
    by (intro exI [of _ r'] exI [of _ ?x]) (simp add: lookup_out_fields(1))
qed

theorem entry_reply_decodes_witness:
  "\<exists>r' x. dispatch journal_fs sample_impl (sample_header FUSE_LOOKUPX 2 1) (encode (Lookupx [97])) (sample_replier 32) =
      Some (sample_impl\<lparr>im_fs := []\<rparr>, r') \<and> load get_fuse_entryx_out (reply_bytes r') 0 = Some x \<and> ex_nodeid x = 11 \<and>
    uint (ex_entry_valid x) * 1000000000 + uint (ex_entry_valid_nsec x) = 1500000000"
  using entry_reply_decodes [of "sample_replier 32" "sample_header FUSE_LOOKUPX 2 1" "[97]" journal_fs sample_impl
      "entry_of 11" "[]"]
  by (auto simp: entry_of_def)

text \<open>The attributes the kernel reads off a statx reply.\<close>

definition stat_of_wire :: "fuse_statx \<Rightarrow> StatxOut" where
  "stat_of_wire w =
     \<lparr>so_mask = sx_mask w, so_blksize = sx_blksize w, so_attributes = sx_attributes w, so_nlink = sx_nlink w,
      so_uid = sx_uid w, so_gid = sx_gid w, so_mode = sx_mode w, so_ino = sx_ino w, so_size = sx_size w,
      so_blocks = sx_blocks w, so_attributes_mask = sx_attributes_mask w, so_atime = unpack_time (sx_atime w),
      so_btime = unpack_time (sx_btime w), so_ctime = unpack_time (sx_ctime w),
      so_mtime = unpack_time (sx_mtime w), so_rdev_major = sx_rdev_major w, so_rdev_minor = sx_rdev_minor w,
      so_dev_major = sx_dev_major w, so_dev_minor = sx_dev_minor w\<rparr>"

lemma unpack_pack_time [simp]: "unpack_time (pack_time t) = t"
  by (simp add: unpack_time_def pack_time_def)

lemma pack_statx_fields:
  "stat_of_wire (sxo_stat (pack_statx v one_second)) = v" "sxo_attr_valid (pack_statx v one_second) = 1"
  "sxo_attr_valid_nsec (pack_statx v one_second) = 0"
  by (simp_all add: pack_statx_def stat_of_wire_def split_duration_def one_second_def)

text \<open>
  C25. A successful \<open>STATX\<close> answers one structure that decodes to every attribute the daemon
  returned, valid for one second.
\<close>

theorem statx_reply_decodes:
  assumes "replier_ok r" "288 \<le> r_cap r" "ih_opcode h = opcode_val FUSE_STATX" "length blob = ext_bytes h"
    and "fs_statx F (im_fs im) (make_ctx h) (ih_nodeid h) = (Inr v, s)"
  shows "\<exists>r' x. dispatch F im h (blob @ encode (Statx i)) r = Some (im\<lparr>im_fs := s\<rparr>, r') \<and> r_neg_err r' = 0 \<and>
    length (reply_bytes r') = 288 \<and> load get_fuse_statx_out (reply_bytes r') 0 = Some x \<and>
    stat_of_wire (sxo_stat x) = v \<and> sxo_attr_valid x = 1 \<and> sxo_attr_valid_nsec x = 0"
proof -
  let ?x = "pack_statx v one_second"
  have "serves im r (handle_statx F im h (blob @ encode (Statx i)) r) (perform F h (im_fs im) (r_out r) (Statx i))"
    using assms(1,4) by (rule serves_fixed_args)
  moreover have "dispatch F im h (blob @ encode (Statx i)) r = handle_statx F im h (blob @ encode (Statx i)) r"
    using assms(3) by (simp add: dispatch_def dispatch_with_def del: opcode_val.simps encode.simps)
  ultimately obtain r' where "dispatch F im h (blob @ encode (Statx i)) r = Some (im\<lparr>im_fs := s\<rparr>, r')"
      "r_neg_err r' = 0" and bytes: "reply_bytes r' = put_fuse_statx_out ?x"
    using assms(2,5) by (auto simp: serves_def answer_pod_def simp del: encode.simps)
  moreover have "load get_fuse_statx_out (reply_bytes r') 0 = Some ?x"
    unfolding bytes by (simp add: load_def statx_out.get_put)
  ultimately show ?thesis
    by (intro exI [of _ r'] exI [of _ ?x]) (simp add: pack_statx_fields)
qed

theorem statx_reply_decodes_witness:
  "\<exists>r' x. dispatch journal_fs sample_impl (sample_header FUSE_STATX 24 9) (encode (Statx sample_statx_in))
      (sample_replier 288) = Some (sample_impl\<lparr>im_fs := []\<rparr>, r') \<and>
    load get_fuse_statx_out (reply_bytes r') 0 = Some x \<and> stat_of_wire (sxo_stat x) = StatxOut_zero\<lparr>so_ino := 9\<rparr>"
  using statx_reply_decodes [of "sample_replier 288" "sample_header FUSE_STATX 24 9" "[]" journal_fs sample_impl
      "StatxOut_zero\<lparr>so_ino := 9\<rparr>" "[]" sample_statx_in]
  by auto

text \<open>A daemon that lists a fixed directory.\<close>

definition listing_fs :: "dirent list \<Rightarrow> journal Filesystem" where
  "listing_fs es = journal_fs\<lparr>fs_readdir := \<lambda>s c n fh off w.
     map_option (\<lambda>(w', rest). (Inr (), w', s)) (add_all w es)\<rparr>"

lemma add_all_reach:
  assumes "dw_ok w"
  shows "\<exists>w' rest. add_all w es = Some (w', rest) \<and> dw_reach w w'"
  using assms
proof (induction es arbitrary: w)
  case Nil
  then show ?case by (auto intro: dw_refl)
next
  case (Cons e es)
  obtain b w1 where add: "DirentWriter_add w (d_name e) (d_ino e) (d_off e) (d_type e) = Some (b, w1)" "dw_ok w1"
    using DirentWriter_add_safe [OF Cons.prems] by blast
  then have step: "dw_reach w w1" by (auto intro: dw_reach.intros)
  with add Cons.IH [of w1] show ?case by (cases b) (auto intro: dw_reach_trans)
qed

interpretation listing: filesystem_contract "listing_fs es"
proof unfold_locales
  fix w s c n fh off
  assume "dw_ok w"
  then show "\<exists>rv w' s'. fs_readdir (listing_fs es) s c n fh off w = Some (rv, w', s') \<and> dw_reach w w'"
    using add_all_reach [of w es] by (auto simp: listing_fs_def)
qed (auto simp: listing_fs_def journal_fs_def Filesystem_base_def)

text \<open>
  C20. The directory stream: if \<open>readdir\<close> adds its entries until one does not fit, walking the
  reply with the record alignment of the protocol yields exactly the added entries, names,
  inode numbers, offsets and types included, and the first entry left out really did not
  fit in what the kernel asked for.
\<close>

theorem readdir_reply_parses:
  assumes "filesystem_contract F" "replier_ok r" "ih_opcode h = opcode_val FUSE_READDIR"
    and "length blob = ext_bytes h" "\<forall>e \<in> set es. name_fits e"
    and "\<forall>w. fs_readdir F (im_fs im) (make_ctx h) (ih_nodeid h) (rdi_fh i) (rdi_offset i) w =
      map_option (\<lambda>(w', rest). (Inr (), w', s)) (add_all w es)"
  shows "\<exists>r' new rest. dispatch F im h (blob @ encode (Readdir i)) r = Some (im\<lparr>im_fs := s\<rparr>, r') \<and>
    r_neg_err r' = 0 \<and> es = new @ rest \<and> parse_dirents (reply_bytes r') = Some new \<and>
    (case rest of [] \<Rightarrow> True
     | e # _ \<Rightarrow> min (unat (rdi_size i)) (r_cap r) < length (reply_bytes r') + length (dirent_bytes e))"
proof -
  let ?buf = "take (min (unat (rdi_size i)) (r_cap r)) (r_out r)"
  obtain w new rest where w: "add_all (DirentWriter_init ?buf) es = Some (w, rest)" "es = new @ rest"
      "dw_holds w new" "length (dw_buf w) = length (dw_buf (DirentWriter_init ?buf))"
      "case rest of [] \<Rightarrow> True | e # _ \<Rightarrow> length (dw_buf w) < dw_pos w + length (dirent_bytes e)"
    using add_all_holds [OF dw_holds_init, of ?buf es] by auto
  have len: "length (dw_buf w) = min (unat (rdi_size i)) (r_cap r)"
    using w(4) assms(2) by (simp add: DirentWriter_init_def replier_ok_def)
  have "serves im r (dispatch F im h (blob @ encode (Readdir i)) r) (perform F h (im_fs im) (r_out r) (Readdir i))"
    using assms(3,4) by (intro filesystem_contract.serves_dispatch [OF assms(1,2)]) simp_all
  then obtain r' where disp: "dispatch F im h (blob @ encode (Readdir i)) r = Some (im\<lparr>im_fs := s\<rparr>, r')"
      and ans: "answers r r' (Inr (take (bytes_written w) (dw_buf w)))"
    using assms(2,6) w(1) by (auto simp: serves_def replier_ok_def)
  have pos: "dw_pos w \<le> length (dw_buf w)" "take (dw_pos w) (dw_buf w) = concat (map dirent_bytes new)"
    using w(3) by (simp_all add: dw_holds_def dw_ok_def)
  have "length (take (dw_pos w) (dw_buf w)) \<le> r_cap r" using pos(1) len by simp
  with ans have bytes: "r_neg_err r' = 0" "reply_bytes r' = take (dw_pos w) (dw_buf w)"
    unfolding answers.simps bytes_written_def by simp_all
  have "parse_dirents (reply_bytes r') = Some new"
    unfolding bytes(2) pos(2) using assms(5) w(2) by (intro parse_dirents_concat) simp
  moreover have "length (reply_bytes r') = dw_pos w" unfolding bytes(2) using pos(1) by simp
  ultimately show ?thesis
    using disp w(2,5) bytes(1) len
    by - (rule exI [of _ r'], rule exI [of _ new], rule exI [of _ rest], simp split: list.splits)
qed

definition sample_entries :: "dirent list" where
  "sample_entries = [\<lparr>d_name = [46], d_ino = 1, d_off = 1, d_type = 4\<rparr>,
     \<lparr>d_name = [97, 98], d_ino = 9, d_off = 2, d_type = 8\<rparr>]"

definition sample_read_in :: "u32 \<Rightarrow> fuse_read_in" where
  "sample_read_in n = \<lparr>rdi_fh = 3, rdi_offset = 0, rdi_size = n, rdi_read_flags = 0,
     rdi_lock_owner = 0, rdi_flags = 0\<rparr>"

theorem readdir_reply_parses_witness:
  "\<exists>r' new rest. dispatch (listing_fs sample_entries) sample_impl (sample_header FUSE_READDIR 40 1)
      (encode (Readdir (sample_read_in 40))) (sample_replier 4096) = Some (sample_impl\<lparr>im_fs := []\<rparr>, r') \<and>
    sample_entries = new @ rest \<and> parse_dirents (reply_bytes r') = Some new"
proof -
  have "\<exists>r' new rest. dispatch (listing_fs sample_entries) sample_impl (sample_header FUSE_READDIR 40 1)
      ([] @ encode (Readdir (sample_read_in 40))) (sample_replier 4096) = Some (sample_impl\<lparr>im_fs := []\<rparr>, r') \<and>
    r_neg_err r' = 0 \<and> sample_entries = new @ rest \<and> parse_dirents (reply_bytes r') = Some new \<and>
    (case rest of [] \<Rightarrow> True
     | e # _ \<Rightarrow> min (unat (rdi_size (sample_read_in 40))) (r_cap (sample_replier 4096))
         < length (reply_bytes r') + length (dirent_bytes e))"
    by (rule readdir_reply_parses [OF listing.filesystem_contract_axioms])
      (simp_all add: sample_entries_def name_fits_def listing_fs_def)
  then show ?thesis by auto
qed

end
