(* ===== verification/Passthrough.thy ===== *)
theory Passthrough
  imports Protocol "HOL-Library.Multiset"
begin

text \<open>
  The passthrough daemon of \<open>examples/passthrough.cpp\<close>: the inode table, the file and
  directory handle tables, and every callback of \<open>PassthroughFs\<close>.

  The operating system is a parameter. The daemon's state carries the log of the system
  calls it has made, with their results (\<^term>\<open>Inl e\<close>: failed with \<open>errno = e\<close>), and an
  \<open>os\<close> answers a call from the log before it; so an \<open>os\<close> is any deterministic or recorded
  behaviour of the kernel and of every other process. \<open>os_stat\<close>, \<open>os_statvfs\<close>, \<open>os_data\<close> and
  \<open>os_dirent\<close> are what a call leaves in the caller's buffer.

  A \<open>DIR*\<close> is its descriptor. The paths \<open>/proc/self/fd/<N>\<close> are \<open>Proc_self_fd N\<close>. The constants
  of the C library are those of Linux on x86-64. Callbacks are atomic steps here, and
  programs of smaller steps in \<open>Passthrough_Threads\<close>; the trace output is left out.
\<close>

unbundle bit_operations_syntax

subsection \<open>System calls\<close>

record timespec =
  tv_sec :: i64
  tv_nsec :: i64

record stat =
  st_dev :: u64
  st_ino :: u64
  st_mode :: u32
  st_nlink :: u64
  st_uid :: u32
  st_gid :: u32
  st_rdev :: u64
  st_size :: i64
  st_blksize :: i64
  st_blocks :: i64
  st_atim :: timespec
  st_mtim :: timespec
  st_ctim :: timespec

record statvfs =
  f_bsize :: u64
  f_frsize :: u64
  f_blocks :: u64
  f_bfree :: u64
  f_bavail :: u64
  f_files :: u64
  f_ffree :: u64
  f_namemax :: u64

record sys_dirent =
  sd_ino :: u64
  sd_type :: u8
  sd_name :: "byte list"

datatype path = Path "byte list" | Proc_self_fd int

datatype call =
    Openat int "byte list" u32 u32
  | Open path u32
  | Close int
  | Fstatat int
  | Fstat int
  | Fchmod int u32
  | Chmod path u32
  | Fchown int u32 u32
  | Lchown path u32 u32
  | Ftruncate int i64
  | Truncate path i64
  | Futimens int timespec timespec
  | Utimensat path timespec timespec
  | Mknodat int "byte list" u32 u64
  | Mkdirat int "byte list" u32
  | Symlinkat "byte list" int "byte list"
  | Fchownat int "byte list" u32 u32
  | Unlinkat int "byte list" bool
  | Renameat2 int "byte list" int "byte list" u32
  | Linkat int int "byte list"
  | Readlinkat int nat
  | Pread int nat i64
  | Pwrite int "byte list" i64
  | Fstatvfs int
  | Fallocate int u32 i64 i64
  | Fdopendir int
  | Closedir int
  | Seekdir int u64
  | Readdir int
  | Telldir int
  | Lgetxattr path "byte list" nat
  | Lsetxattr path "byte list" "byte list" u32
  | Llistxattr path nat
  | Lremovexattr path "byte list"

type_synonym sys_log = "(call \<times> (i32 + int)) list"

record os =
  os_call :: "sys_log \<Rightarrow> call \<Rightarrow> i32 + int"
  os_stat :: "sys_log \<Rightarrow> call \<Rightarrow> stat"
  os_statvfs :: "sys_log \<Rightarrow> call \<Rightarrow> statvfs"
  os_data :: "sys_log \<Rightarrow> call \<Rightarrow> byte list"
  os_dirent :: "sys_log \<Rightarrow> call \<Rightarrow> sys_dirent"

definition O_RDONLY :: u32 where "O_RDONLY = 0"
definition O_WRONLY :: u32 where "O_WRONLY = 1"
definition O_RDWR :: u32 where "O_RDWR = 2"
definition O_ACCMODE :: u32 where "O_ACCMODE = 3"
definition O_APPEND :: u32 where "O_APPEND = 0x400"
definition O_NONBLOCK :: u32 where "O_NONBLOCK = 0x800"
definition O_DIRECT :: u32 where "O_DIRECT = 0x4000"
definition O_DIRECTORY :: u32 where "O_DIRECTORY = 0x10000"
definition O_NOFOLLOW :: u32 where "O_NOFOLLOW = 0x20000"
definition O_NOATIME :: u32 where "O_NOATIME = 0x40000"
definition O_CLOEXEC :: u32 where "O_CLOEXEC = 0x80000"
definition O_PATH :: u32 where "O_PATH = 0x200000"
definition O_TMPFILE :: u32 where "O_TMPFILE = 0x410000"

lemmas open_flag_defs = O_RDONLY_def O_WRONLY_def O_RDWR_def O_ACCMODE_def O_APPEND_def O_NONBLOCK_def
  O_DIRECT_def O_DIRECTORY_def O_NOFOLLOW_def O_NOATIME_def O_CLOEXEC_def O_PATH_def O_TMPFILE_def

definition UTIME_OMIT :: i64 where "UTIME_OMIT = 0x3ffffffe"

text \<open>The device number macros of the C library.\<close>

definition dev_major :: "u64 \<Rightarrow> u32" where
  "dev_major dev = ucast (drop_bit 8 dev AND 0xfff OR drop_bit 32 dev AND 0xfffff000)"

definition dev_minor :: "u64 \<Rightarrow> u32" where
  "dev_minor dev = ucast (dev AND 0xff OR drop_bit 12 dev AND 0xffffff00)"

definition makedev :: "u32 \<Rightarrow> u32 \<Rightarrow> u64" where
  "makedev ma mi = push_bit 32 (ucast ma AND 0xfffff000) OR push_bit 8 (ucast ma AND 0xfff) OR
     push_bit 12 (ucast mi AND 0xffffff00) OR (ucast mi AND 0xff)"

text \<open>A \<open>std::string\<close> passed through \<open>c_str()\<close> ends at its first NUL.\<close>

definition c_str :: "byte list \<Rightarrow> byte list" where
  "c_str s = takeWhile (\<lambda>b. b \<noteq> 0) s"

subsection \<open>State\<close>

record Inode =
  in_path_fd :: int
  in_nlookup :: u64

record PassthroughFs =
  pt_map :: "u64 \<rightharpoonup> Inode"
  pt_files :: "u64 \<rightharpoonup> int"
  pt_file_id :: u64
  pt_dirs :: "u64 \<rightharpoonup> int"
  pt_dir_id :: u64
  pt_log :: sys_log

definition PassthroughFs_new :: "int \<Rightarrow> sys_log \<Rightarrow> PassthroughFs" where
  "PassthroughFs_new backing log =
     \<lparr>pt_map = [NodeId_root \<mapsto> \<lparr>in_path_fd = backing, in_nlookup = 1\<rparr>],
      pt_files = Map.empty, pt_file_id = 0, pt_dirs = Map.empty, pt_dir_id = 0, pt_log = log\<rparr>"

definition sys :: "os \<Rightarrow> call \<Rightarrow> PassthroughFs \<Rightarrow> (i32 + int) \<times> PassthroughFs" where
  "sys os c s = (let r = os_call os (pt_log s) c in (r, s\<lparr>pt_log := pt_log s @ [(c, r)]\<rparr>))"

text \<open>\<open>~Fd\<close>, and calls without a result.\<close>

definition close_fd :: "os \<Rightarrow> int \<Rightarrow> PassthroughFs \<Rightarrow> PassthroughFs" where
  "close_fd os fd s = (if fd \<ge> 0 then snd (sys os (Close fd) s) else s)"

text \<open>
  \<open>::close(fd); return wrap_errno();\<close>: the error number is that of the failed call before it,
  unless \<open>close\<close> fails as well.
\<close>

definition close_errno :: "os \<Rightarrow> int \<Rightarrow> i32 \<Rightarrow> PassthroughFs \<Rightarrow> (PassthroughFs, 'a) outcome" where
  "close_errno os fd e s = (case sys os (Close fd) s of (Inl e', s) \<Rightarrow> (Inl e', s) | (Inr v, s) \<Rightarrow> (Inl e, s))"

text \<open>\<open>wrap_errno\<close>: the tail of a callback that only reports the result of one call.\<close>

definition sys_unit :: "os \<Rightarrow> call \<Rightarrow> PassthroughFs \<Rightarrow> (PassthroughFs, unit) outcome" where
  "sys_unit os c s = (case sys os c s of (Inl e, s) \<Rightarrow> (Inl e, s) | (Inr v, s) \<Rightarrow> (Inr (), s))"

subsection \<open>The inode table\<close>

definition table_get :: "PassthroughFs \<Rightarrow> NodeId \<Rightarrow> Inode option" where
  "table_get s n = pt_map s n"

text \<open>On a known inode number the new descriptor is not kept: its \<open>Fd\<close> is destroyed.\<close>

definition table_insert :: "os \<Rightarrow> int \<Rightarrow> u64 \<Rightarrow> PassthroughFs \<Rightarrow> NodeId \<times> PassthroughFs" where
  "table_insert os fd ino s = (case pt_map s ino of
     None \<Rightarrow> (ino, s\<lparr>pt_map := (pt_map s)(ino \<mapsto> \<lparr>in_path_fd = fd, in_nlookup = 1\<rparr>)\<rparr>)
   | Some i \<Rightarrow>
       (ino, close_fd os fd (s\<lparr>pt_map := (pt_map s)(ino \<mapsto> i\<lparr>in_nlookup := in_nlookup i + 1\<rparr>)\<rparr>)))"

definition forget_locked :: "os \<Rightarrow> u64 \<Rightarrow> u64 \<Rightarrow> PassthroughFs \<Rightarrow> PassthroughFs" where
  "forget_locked os key n s = (case pt_map s key of
     None \<Rightarrow> s
   | Some i \<Rightarrow>
       let nl = (if n \<ge> in_nlookup i then 0 else in_nlookup i - n) in
       if nl = 0 then close_fd os (in_path_fd i) (s\<lparr>pt_map := (pt_map s)(key := None)\<rparr>)
       else s\<lparr>pt_map := (pt_map s)(key \<mapsto> i\<lparr>in_nlookup := nl\<rparr>)\<rparr>)"

definition table_forget :: "os \<Rightarrow> PassthroughFs \<Rightarrow> NodeId \<Rightarrow> u64 \<Rightarrow> PassthroughFs" where
  "table_forget os s nid n = (if nid = NodeId_root then s else forget_locked os nid n s)"

fun forget_many :: "os \<Rightarrow> PassthroughFs \<Rightarrow> (NodeId \<times> u64) list \<Rightarrow> PassthroughFs" where
  "forget_many os s [] = s"
| "forget_many os s ((nid, n) # items) =
     (if nid = NodeId_root then forget_many os s items
      else forget_many os (forget_locked os nid n s) items)"

subsection \<open>Handles\<close>

definition file_fd :: "PassthroughFs \<Rightarrow> FileHandle \<Rightarrow> int" where
  "file_fd s fh = (if fh = 0 then -1 else case pt_files s fh of None \<Rightarrow> -1 | Some fd \<Rightarrow> fd)"

text \<open>The descriptor to use and, if it was opened for this call, the one to close afterwards.\<close>

definition io_fd :: "os \<Rightarrow> NodeId \<Rightarrow> FileHandle \<Rightarrow> u32 \<Rightarrow> PassthroughFs \<Rightarrow> (PassthroughFs, int \<times> int) outcome" where
  "io_fd os n fh mode s =
     (let fd = file_fd s fh in
      if fd \<ge> 0 then (Inr (fd, -1), s)
      else case table_get s n of
        None \<Rightarrow> (Inl ESTALE, s)
      | Some i \<Rightarrow>
          (case sys os (Open (Proc_self_fd (in_path_fd i)) (mode OR O_CLOEXEC)) s of
             (Inl e, s) \<Rightarrow> (Inl e, s)
           | (Inr t, s) \<Rightarrow> (Inr (t, t), s)))"

subsection \<open>Lookup and attributes\<close>

definition pt_init :: "PassthroughFs \<Rightarrow> InitInfo \<Rightarrow> (Errc + unit) \<times> InitInfo \<times> PassthroughFs" where
  "pt_init s info = (Inr (), info, s)"

definition one_sec :: i64 where "one_sec = 1000000000"

definition pt_lookup_root :: "PassthroughFs \<Rightarrow> Context \<Rightarrow> (PassthroughFs, EntryOut) outcome" where
  "pt_lookup_root s ctx = (Inr \<lparr>eo_nodeid = NodeId_root, eo_entry_valid = one_sec, eo_negative = False\<rparr>, s)"

text \<open>The end of \<open>lookupx\<close>: enter the object behind \<open>fd\<close>, which an \<open>Fd\<close> owns, into the table.\<close>

definition enter :: "os \<Rightarrow> int \<Rightarrow> PassthroughFs \<Rightarrow> (PassthroughFs, EntryOut) outcome" where
  "enter os fd s = (case sys os (Fstatat fd) s of
     (Inl e, s) \<Rightarrow> (Inl e, close_fd os fd s)
   | (Inr v, s') \<Rightarrow>
       (case table_insert os fd (st_ino (os_stat os (pt_log s) (Fstatat fd))) s' of (nid, s) \<Rightarrow>
         (Inr (EntryOut_default\<lparr>eo_nodeid := nid, eo_entry_valid := one_sec\<rparr>), s)))"

definition pt_lookupx :: "os \<Rightarrow> PassthroughFs \<Rightarrow> Context \<Rightarrow> NodeId \<Rightarrow> byte list \<Rightarrow>
    (PassthroughFs, EntryOut) outcome" where
  "pt_lookupx os s ctx parent name = (case table_get s parent of
     None \<Rightarrow> (Inl ESTALE, s)
   | Some p \<Rightarrow>
       (case sys os (Openat (in_path_fd p) (c_str name) (O_PATH OR O_NOFOLLOW OR O_CLOEXEC) 0) s of
          (Inl e, s) \<Rightarrow>
            if e = ENOENT then (Inr (EntryOut_default\<lparr>eo_negative := True\<rparr>), s) else (Inl e, s)
        | (Inr fd, s) \<Rightarrow> enter os fd s))"

definition pt_forget :: "os \<Rightarrow> PassthroughFs \<Rightarrow> NodeId \<Rightarrow> u64 \<Rightarrow> PassthroughFs" where
  "pt_forget os s n nlookup = table_forget os s n nlookup"

definition pt_forget_multi :: "os \<Rightarrow> PassthroughFs \<Rightarrow> (NodeId \<times> u64) list \<Rightarrow> PassthroughFs" where
  "pt_forget_multi os s items = forget_many os s items"

definition to_Timespec :: "timespec \<Rightarrow> Timespec" where
  "to_Timespec t = \<lparr>ts_sec = tv_sec t, ts_nsec = ucast (tv_nsec t)\<rparr>"

definition fill_statx :: "stat \<Rightarrow> StatxOut \<Rightarrow> StatxOut" where
  "fill_statx st out =
     out\<lparr>so_mask := statx_mask_type OR statx_mask_mode OR statx_mask_nlink OR statx_mask_uid OR statx_mask_gid OR
           statx_mask_atime OR statx_mask_mtime OR statx_mask_ctime OR statx_mask_ino OR statx_mask_size OR
           statx_mask_blocks,
         so_blksize := ucast (st_blksize st), so_nlink := ucast (st_nlink st), so_uid := st_uid st,
         so_gid := st_gid st, so_mode := ucast (st_mode st), so_ino := st_ino st, so_size := st_size st,
         so_blocks := st_blocks st, so_atime := to_Timespec (st_atim st), so_mtime := to_Timespec (st_mtim st),
         so_ctime := to_Timespec (st_ctim st), so_rdev_major := dev_major (st_rdev st),
         so_rdev_minor := dev_minor (st_rdev st), so_dev_major := dev_major (st_dev st),
         so_dev_minor := dev_minor (st_dev st)\<rparr>"

definition pt_statx :: "os \<Rightarrow> PassthroughFs \<Rightarrow> Context \<Rightarrow> NodeId \<Rightarrow> (PassthroughFs, StatxOut) outcome" where
  "pt_statx os s ctx n = (case table_get s n of
     None \<Rightarrow> (Inl ESTALE, s)
   | Some i \<Rightarrow>
       (case sys os (Fstatat (in_path_fd i)) s of
          (Inl e, s) \<Rightarrow> (Inl e, s)
        | (Inr v, s') \<Rightarrow>
            (Inr (fill_statx (os_stat os (pt_log s) (Fstatat (in_path_fd i))) StatxOut_zero), s')))"

text \<open>
  The calls \<open>setstatx\<close> makes, in order, for the requested attributes: on the descriptor if the
  file is open, on the path otherwise (the path is not built for an open file, and not used).
  The first failure ends the callback.
\<close>

definition timespec_arg :: "bool \<Rightarrow> Timespec \<Rightarrow> timespec" where
  "timespec_arg requested t =
     (if requested then \<lparr>tv_sec = ts_sec t, tv_nsec = ucast (ts_nsec t)\<rparr>
      else \<lparr>tv_sec = 0, tv_nsec = UTIME_OMIT\<rparr>)"

definition setstatx_calls :: "int \<Rightarrow> path \<Rightarrow> SetStatxIn \<Rightarrow> call list" where
  "setstatx_calls fd proc inn =
     (let has = (\<lambda>m. si_mask inn AND m \<noteq> 0) in
      (if has statx_mask_mode
       then [if fd \<ge> 0 then Fchmod fd (ucast (si_mode inn)) else Chmod proc (ucast (si_mode inn))] else []) @
      (if has (statx_mask_uid OR statx_mask_gid)
       then let u = (if has statx_mask_uid then si_uid inn else -1);
                g = (if has statx_mask_gid then si_gid inn else -1)
            in [if fd \<ge> 0 then Fchown fd u g else Lchown proc u g]
       else []) @
      (if has statx_mask_size
       then [if fd \<ge> 0 then Ftruncate fd (si_size inn) else Truncate proc (si_size inn)] else []) @
      (if has (statx_mask_atime OR statx_mask_mtime)
       then let a = timespec_arg (has statx_mask_atime) (si_atime inn);
                m = timespec_arg (has statx_mask_mtime) (si_mtime inn)
            in [if fd \<ge> 0 then Futimens fd a m else Utimensat proc a m]
       else []))"

fun sys_all :: "os \<Rightarrow> call list \<Rightarrow> PassthroughFs \<Rightarrow> (PassthroughFs, unit) outcome" where
  "sys_all os [] s = (Inr (), s)"
| "sys_all os (c # cs) s = (case sys os c s of (Inl e, s) \<Rightarrow> (Inl e, s) | (Inr v, s) \<Rightarrow> sys_all os cs s)"

definition pt_setstatx :: "os \<Rightarrow> PassthroughFs \<Rightarrow> Context \<Rightarrow> NodeId \<Rightarrow> FileHandle \<Rightarrow> SetStatxIn \<Rightarrow>
    (PassthroughFs, StatxOut) outcome" where
  "pt_setstatx os s ctx n fh inn =
     (let fd = file_fd s fh in
      case (if fd < 0 then map_option (Proc_self_fd \<circ> in_path_fd) (table_get s n) else Some (Proc_self_fd 0)) of
        None \<Rightarrow> (Inl ESTALE, s)
      | Some proc \<Rightarrow>
          (case sys_all os (setstatx_calls fd proc inn) s of
             (Inl e, s) \<Rightarrow> (Inl e, s)
           | (Inr u, s) \<Rightarrow> pt_statx os s Context_default n))"

subsection \<open>Namespace\<close>

definition S_IFMT :: u16 where "S_IFMT = 0xf000"
definition S_IFSOCK :: u16 where "S_IFSOCK = 0xc000"
definition S_IFLNK :: u16 where "S_IFLNK = 0xa000"
definition S_IFREG :: u16 where "S_IFREG = 0x8000"
definition S_IFBLK :: u16 where "S_IFBLK = 0x6000"
definition S_IFDIR :: u16 where "S_IFDIR = 0x4000"
definition S_IFCHR :: u16 where "S_IFCHR = 0x2000"
definition S_IFIFO :: u16 where "S_IFIFO = 0x1000"

lemmas mode_defs = S_IFMT_def S_IFSOCK_def S_IFLNK_def S_IFREG_def S_IFBLK_def S_IFDIR_def S_IFCHR_def S_IFIFO_def

text \<open>The call that creates the object, by its type; \<^term>\<open>None\<close> for an unknown type.\<close>

definition create_call :: "int \<Rightarrow> byte list \<Rightarrow> MkobjxIn \<Rightarrow> call option" where
  "create_call pfd nm mi =
     (let mode = so_mode (mi_stat mi); kind = mode AND S_IFMT in
      if kind = S_IFREG then Some (Mknodat pfd nm (ucast mode) 0)
      else if kind = S_IFDIR then Some (Mkdirat pfd nm (ucast (mode AND 0xfff)))
      else if kind = S_IFLNK then Some (Symlinkat (c_str (mi_link_target mi)) pfd nm)
      else if kind = S_IFCHR \<or> kind = S_IFBLK \<or> kind = S_IFIFO \<or> kind = S_IFSOCK
      then Some (Mknodat pfd nm (ucast mode)
             (makedev (so_rdev_major (mi_stat mi)) (so_rdev_minor (mi_stat mi))))
      else None)"

definition mkobjx_tmpfile :: "os \<Rightarrow> Inode \<Rightarrow> MkobjxIn \<Rightarrow> PassthroughFs \<Rightarrow> (PassthroughFs, EntryOut) outcome" where
  "mkobjx_tmpfile os p mi s =
     (case sys os (Openat (in_path_fd p) [46] (O_TMPFILE OR O_RDWR OR O_CLOEXEC)
                    (ucast (so_mode (mi_stat mi) AND 0xfff))) s of
        (Inl e, s) \<Rightarrow> (Inl e, s)
      | (Inr fd, s) \<Rightarrow>
          (case sys os (Fstat fd) s of
             (Inl e, s) \<Rightarrow> close_errno os fd e s
           | (Inr v, s') \<Rightarrow>
               let ino = st_ino (os_stat os (pt_log s) (Fstat fd)) in
               case sys os (Open (Proc_self_fd fd) (O_PATH OR O_CLOEXEC)) s' of
                 (Inl e, s) \<Rightarrow> close_errno os fd e s
               | (Inr pfd, s) \<Rightarrow>
                   (case table_insert os pfd ino (snd (sys os (Close fd) s)) of (nid, s) \<Rightarrow>
                     (Inr (EntryOut_default\<lparr>eo_nodeid := nid, eo_entry_valid := one_sec\<rparr>), s))))"

text \<open>The owner of a new object is set at best effort: \<open>EPERM\<close> is ignored.\<close>

definition set_owner :: "os \<Rightarrow> Inode \<Rightarrow> byte list \<Rightarrow> MkobjxIn \<Rightarrow> PassthroughFs \<Rightarrow> (PassthroughFs, unit) outcome" where
  "set_owner os p nm mi s =
     (if so_mode (mi_stat mi) AND S_IFMT = S_IFLNK then (Inr (), s)
      else case sys os (Fchownat (in_path_fd p) nm (so_uid (mi_stat mi)) (so_gid (mi_stat mi))) s of
          (Inl e, s) \<Rightarrow> if e \<noteq> EPERM then (Inl e, s) else (Inr (), s)
        | (Inr v, s) \<Rightarrow> (Inr (), s))"

text \<open>The end of \<open>mkobjx\<close>: as in \<open>lookupx\<close>, but with a plain descriptor.\<close>

definition enter_new :: "os \<Rightarrow> int \<Rightarrow> PassthroughFs \<Rightarrow> (PassthroughFs, EntryOut) outcome" where
  "enter_new os cfd s = (case sys os (Fstatat cfd) s of
     (Inl e, s) \<Rightarrow> close_errno os cfd e s
   | (Inr v, s') \<Rightarrow>
       (case table_insert os cfd (st_ino (os_stat os (pt_log s) (Fstatat cfd))) s' of (nid, s) \<Rightarrow>
         (Inr (EntryOut_default\<lparr>eo_nodeid := nid, eo_entry_valid := one_sec\<rparr>), s)))"

definition pt_mkobjx :: "os \<Rightarrow> PassthroughFs \<Rightarrow> Context \<Rightarrow> NodeId \<Rightarrow> MkobjxIn \<Rightarrow>
    (PassthroughFs, EntryOut) outcome" where
  "pt_mkobjx os s ctx parent mi = (case table_get s parent of
     None \<Rightarrow> (Inl ESTALE, s)
   | Some p \<Rightarrow>
       if mi_flags mi AND kMkobjxTmpfile \<noteq> 0 then mkobjx_tmpfile os p mi s
       else let nm = c_str (mi_name mi) in
         case create_call (in_path_fd p) nm mi of
           None \<Rightarrow> (Inl EINVAL, s)
         | Some c \<Rightarrow>
             (case sys os c s of
                (Inl e, s) \<Rightarrow> (Inl e, s)
              | (Inr v, s) \<Rightarrow>
                  (case set_owner os p nm mi s of
                     (Inl e, s) \<Rightarrow> (Inl e, s)
                   | (Inr u, s) \<Rightarrow>
                       (case sys os (Openat (in_path_fd p) nm (O_PATH OR O_NOFOLLOW OR O_CLOEXEC) 0) s of
                          (Inl e, s) \<Rightarrow> (Inl e, s)
                        | (Inr cfd, s) \<Rightarrow> enter_new os cfd s))))"

definition pt_unlink :: "os \<Rightarrow> PassthroughFs \<Rightarrow> Context \<Rightarrow> NodeId \<Rightarrow> byte list \<Rightarrow> (PassthroughFs, unit) outcome" where
  "pt_unlink os s ctx parent name = (case table_get s parent of
     None \<Rightarrow> (Inl ESTALE, s)
   | Some p \<Rightarrow> sys_unit os (Unlinkat (in_path_fd p) (c_str name) False) s)"

definition pt_rmdir :: "os \<Rightarrow> PassthroughFs \<Rightarrow> Context \<Rightarrow> NodeId \<Rightarrow> byte list \<Rightarrow> (PassthroughFs, unit) outcome" where
  "pt_rmdir os s ctx parent name = (case table_get s parent of
     None \<Rightarrow> (Inl ESTALE, s)
   | Some p \<Rightarrow> sys_unit os (Unlinkat (in_path_fd p) (c_str name) True) s)"

definition pt_rename :: "os \<Rightarrow> PassthroughFs \<Rightarrow> Context \<Rightarrow> NodeId \<Rightarrow> byte list \<Rightarrow> NodeId \<Rightarrow> byte list \<Rightarrow> u32 \<Rightarrow>
    (PassthroughFs, unit) outcome" where
  "pt_rename os s ctx od on nd nn flags = (case (table_get s od, table_get s nd) of
     (Some a, Some b) \<Rightarrow> sys_unit os (Renameat2 (in_path_fd a) (c_str on) (in_path_fd b) (c_str nn) flags) s
   | _ \<Rightarrow> (Inl ESTALE, s))"

definition pt_link :: "os \<Rightarrow> PassthroughFs \<Rightarrow> Context \<Rightarrow> NodeId \<Rightarrow> NodeId \<Rightarrow> byte list \<Rightarrow>
    (PassthroughFs, unit) outcome" where
  "pt_link os s ctx oldnodeid newparent newname = (case (table_get s oldnodeid, table_get s newparent) of
     (Some src, Some dst) \<Rightarrow> sys_unit os (Linkat (in_path_fd src) (in_path_fd dst) (c_str newname)) s
   | _ \<Rightarrow> (Inl ESTALE, s))"

text \<open>A call that fills a buffer of \<open>n\<close> bytes: the result and what is in the buffer then.\<close>

definition fill :: "byte list \<Rightarrow> byte list \<Rightarrow> byte list" where
  "fill buf d = take (length buf) d @ drop (length d) buf"

definition sys_read :: "os \<Rightarrow> call \<Rightarrow> byte list \<Rightarrow> PassthroughFs \<Rightarrow> (Errc + nat) \<times> byte list \<times> PassthroughFs" where
  "sys_read os c buf s = (case sys os c s of
     (Inl e, s') \<Rightarrow> (Inl e, fill buf (os_data os (pt_log s) c), s')
   | (Inr v, s') \<Rightarrow> (Inr (nat v), fill buf (os_data os (pt_log s) c), s'))"

definition pt_readlink :: "os \<Rightarrow> PassthroughFs \<Rightarrow> Context \<Rightarrow> NodeId \<Rightarrow> (PassthroughFs, byte list) outcome" where
  "pt_readlink os s ctx n = (case table_get s n of
     None \<Rightarrow> (Inl ESTALE, s)
   | Some i \<Rightarrow>
       (case sys_read os (Readlinkat (in_path_fd i) 4096) (zeros 4096) s of
          (Inl e, buf, s) \<Rightarrow> (Inl e, s)
        | (Inr r, buf, s) \<Rightarrow> (Inr (take r (buf @ zeros (r - 4096))), s)))"

subsection \<open>Data\<close>

definition pt_read :: "os \<Rightarrow> PassthroughFs \<Rightarrow> Context \<Rightarrow> NodeId \<Rightarrow> FileHandle \<Rightarrow> u64 \<Rightarrow> byte list \<Rightarrow>
    (Errc + nat) \<times> byte list \<times> PassthroughFs" where
  "pt_read os s ctx n fh off out = (case io_fd os n fh O_RDONLY s of
     (Inl e, s) \<Rightarrow> (Inl e, out, s)
   | (Inr (fd, owner), s) \<Rightarrow>
       (case sys_read os (Pread fd (length out) off) out s of (rv, buf, s) \<Rightarrow> (rv, buf, close_fd os owner s)))"

definition pt_write :: "os \<Rightarrow> PassthroughFs \<Rightarrow> Context \<Rightarrow> NodeId \<Rightarrow> FileHandle \<Rightarrow> u64 \<Rightarrow> byte list \<Rightarrow>
    (PassthroughFs, nat) outcome" where
  "pt_write os s ctx n fh off inn = (case io_fd os n fh O_WRONLY s of
     (Inl e, s) \<Rightarrow> (Inl e, s)
   | (Inr (fd, owner), s) \<Rightarrow>
       (case sys os (Pwrite fd inn off) s of
          (Inl e, s) \<Rightarrow> (Inl e, close_fd os owner s)
        | (Inr v, s) \<Rightarrow> (Inr (nat v), close_fd os owner s)))"

definition pt_statfs :: "os \<Rightarrow> PassthroughFs \<Rightarrow> Context \<Rightarrow> NodeId \<Rightarrow> (PassthroughFs, StatfsOut) outcome" where
  "pt_statfs os s ctx n = (case table_get s n of
     None \<Rightarrow> (Inl ESTALE, s)
   | Some i \<Rightarrow>
       (case sys os (Fstatvfs (in_path_fd i)) s of
          (Inl e, s) \<Rightarrow> (Inl e, s)
        | (Inr v, s') \<Rightarrow>
            let sv = os_statvfs os (pt_log s) (Fstatvfs (in_path_fd i)) in
            (Inr \<lparr>sf_blocks = f_blocks sv, sf_bfree = f_bfree sv, sf_bavail = f_bavail sv, sf_files = f_files sv,
                  sf_ffree = f_ffree sv, sf_bsize = ucast (f_bsize sv), sf_namelen = ucast (f_namemax sv),
                  sf_frsize = ucast (f_frsize sv)\<rparr>, s')))"

definition pt_fallocate :: "os \<Rightarrow> PassthroughFs \<Rightarrow> Context \<Rightarrow> NodeId \<Rightarrow> FileHandle \<Rightarrow> u32 \<Rightarrow> u64 \<Rightarrow> u64 \<Rightarrow>
    (PassthroughFs, unit) outcome" where
  "pt_fallocate os s ctx n fh mode off len = (case io_fd os n fh O_WRONLY s of
     (Inl e, s) \<Rightarrow> (Inl e, s)
   | (Inr (fd, owner), s) \<Rightarrow>
       (case sys_unit os (Fallocate fd mode off len) s of (rv, s) \<Rightarrow> (rv, close_fd os owner s)))"

subsection \<open>Open files and directories\<close>

definition kPersistent :: u32 where
  "kPersistent = O_ACCMODE OR O_APPEND OR O_NONBLOCK OR O_DIRECT OR O_NOATIME"

text \<open>\<open>emplace\<close> keeps an existing entry, and the new \<open>Fd\<close> is destroyed.\<close>

definition files_emplace :: "os \<Rightarrow> u64 \<Rightarrow> int \<Rightarrow> PassthroughFs \<Rightarrow> PassthroughFs" where
  "files_emplace os h fd s = (case pt_files s h of
     None \<Rightarrow> s\<lparr>pt_files := (pt_files s)(h \<mapsto> fd)\<rparr>
   | Some _ \<Rightarrow> close_fd os fd s)"

definition pt_open :: "os \<Rightarrow> PassthroughFs \<Rightarrow> Context \<Rightarrow> NodeId \<Rightarrow> u32 \<Rightarrow> (PassthroughFs, OpenOut) outcome" where
  "pt_open os s ctx n flags = (case table_get s n of
     None \<Rightarrow> (Inl ESTALE, s)
   | Some i \<Rightarrow>
       (case sys os (Open (Proc_self_fd (in_path_fd i)) (flags AND kPersistent OR O_CLOEXEC)) s of
          (Inl e, s) \<Rightarrow> (Inl e, s)
        | (Inr fd, s) \<Rightarrow>
            let handle = pt_file_id s + 1 in
            (Inr \<lparr>oo_fh = handle, oo_open_flags = 0\<rparr>,
             files_emplace os handle fd (s\<lparr>pt_file_id := handle\<rparr>))))"

definition pt_release :: "os \<Rightarrow> PassthroughFs \<Rightarrow> Context \<Rightarrow> NodeId \<Rightarrow> FileHandle \<Rightarrow> u32 \<Rightarrow>
    (PassthroughFs, unit) outcome" where
  "pt_release os s ctx n fh flags = (case pt_files s fh of
     None \<Rightarrow> (Inr (), s)
   | Some fd \<Rightarrow> (Inr (), close_fd os fd (s\<lparr>pt_files := (pt_files s)(fh := None)\<rparr>)))"

definition pt_opendir :: "os \<Rightarrow> PassthroughFs \<Rightarrow> Context \<Rightarrow> NodeId \<Rightarrow> (PassthroughFs, OpenOut) outcome" where
  "pt_opendir os s ctx n = (case table_get s n of
     None \<Rightarrow> (Inl ESTALE, s)
   | Some i \<Rightarrow>
       (case sys os (Open (Proc_self_fd (in_path_fd i)) (O_DIRECTORY OR O_RDONLY OR O_CLOEXEC)) s of
          (Inl e, s) \<Rightarrow> (Inl e, s)
        | (Inr fd, s) \<Rightarrow>
            (case sys os (Fdopendir fd) s of
               (Inl e, s) \<Rightarrow> close_errno os fd e s
             | (Inr v, s) \<Rightarrow>
                 let fh = pt_dir_id s + 1 in
                 (Inr \<lparr>oo_fh = fh, oo_open_flags = 0\<rparr>,
                  s\<lparr>pt_dir_id := fh, pt_dirs := (pt_dirs s)(fh \<mapsto> fd)\<rparr>))))"

definition pt_releasedir :: "os \<Rightarrow> PassthroughFs \<Rightarrow> Context \<Rightarrow> NodeId \<Rightarrow> FileHandle \<Rightarrow> (PassthroughFs, unit) outcome" where
  "pt_releasedir os s ctx n fh = (case pt_dirs s fh of
     None \<Rightarrow> (Inr (), s)
   | Some d \<Rightarrow>
       (case sys os (Closedir d) s of (r, s) \<Rightarrow> (Inr (), s\<lparr>pt_dirs := (pt_dirs s)(fh := None)\<rparr>)))"

text \<open>
  The loop over the directory stream. \<open>readdir\<close> returning a null pointer is \<^term>\<open>Inl e\<close>, with
  \<open>e = 0\<close> at the end of the directory. It ends because every entry added takes space in the
  writer.
\<close>

lemma DirentWriter_add_True:
  assumes "DirentWriter_add w name ino off dtype = Some (True, w')"
  shows "dw_pos w < dw_pos w'" "dw_pos w < length (dw_buf w)" "length (dw_buf w') = length (dw_buf w)"
proof -
  have len: "length m' = length m \<and> k + length bs \<le> length m" if "store m k bs = Some m'" for m m' :: "byte list" and k bs
    using that by (auto simp: store_def split: if_splits)
  have "24 \<le> FUSE_REC_ALIGN (24 + length name)"
    using FUSE_REC_ALIGN_bounds(1) [of "24 + length name"] by linarith
  with assms show "dw_pos w < dw_pos w'" "dw_pos w < length (dw_buf w)" "length (dw_buf w') = length (dw_buf w)"
    by (auto simp: DirentWriter_add_def Let_def bind_eq_Some_conv split: if_splits dest!: len)
qed

lemma DirentWriter_add_less:
  "DirentWriter_add w name ino off dtype = Some (True, w') \<Longrightarrow>
   length (dw_buf w') - dw_pos w' < length (dw_buf w) - dw_pos w"
  using DirentWriter_add_True [of w name ino off dtype w'] by simp

function readdir_loop :: "os \<Rightarrow> int \<Rightarrow> u64 \<Rightarrow> DirentWriter \<Rightarrow> PassthroughFs \<Rightarrow>
    ((Errc + unit) \<times> DirentWriter \<times> PassthroughFs) option" where
  "readdir_loop os d off w s = (case sys os (Readdir d) s of
     (Inl e, s) \<Rightarrow> Some (if e \<noteq> 0 then Inl e else Inr (), w, s)
   | (Inr v, s1) \<Rightarrow>
       let de = os_dirent os (pt_log s) (Readdir d) in
       case sys os (Telldir d) s1 of (r, s2) \<Rightarrow>
         let next_off = (case r of Inl e \<Rightarrow> -1 | Inr t \<Rightarrow> word_of_int t) in
         case DirentWriter_add w (c_str (sd_name de)) (sd_ino de) next_off (ucast (sd_type de)) of
           None \<Rightarrow> None
         | Some (False, w) \<Rightarrow> Some (Inr (), w, snd (sys os (Seekdir d off) s2))
         | Some (True, w) \<Rightarrow> readdir_loop os d next_off w s2)"
  by pat_completeness auto

termination
  by (relation "measure (\<lambda>(os, d, off, w, s). length (dw_buf w) - dw_pos w)")
    (auto dest!: DirentWriter_add_less)

definition pt_readdir :: "os \<Rightarrow> PassthroughFs \<Rightarrow> Context \<Rightarrow> NodeId \<Rightarrow> FileHandle \<Rightarrow> u64 \<Rightarrow> DirentWriter \<Rightarrow>
    ((Errc + unit) \<times> DirentWriter \<times> PassthroughFs) option" where
  "pt_readdir os s ctx n fh off out = (case pt_dirs s fh of
     None \<Rightarrow> Some (Inl EBADF, out, s)
   | Some d \<Rightarrow> readdir_loop os d off out (snd (sys os (Seekdir d off) s)))"

subsection \<open>Extended attributes\<close>

definition pt_getxattr :: "os \<Rightarrow> PassthroughFs \<Rightarrow> Context \<Rightarrow> NodeId \<Rightarrow> byte list \<Rightarrow> byte list \<Rightarrow>
    (Errc + nat) \<times> byte list \<times> PassthroughFs" where
  "pt_getxattr os s ctx n name out = (case table_get s n of
     None \<Rightarrow> (Inl ESTALE, out, s)
   | Some i \<Rightarrow> sys_read os (Lgetxattr (Proc_self_fd (in_path_fd i)) (c_str name) (length out)) out s)"

definition pt_setxattr :: "os \<Rightarrow> PassthroughFs \<Rightarrow> Context \<Rightarrow> NodeId \<Rightarrow> byte list \<Rightarrow> byte list \<Rightarrow> u32 \<Rightarrow>
    (PassthroughFs, unit) outcome" where
  "pt_setxattr os s ctx n name val flags = (case table_get s n of
     None \<Rightarrow> (Inl ESTALE, s)
   | Some i \<Rightarrow> sys_unit os (Lsetxattr (Proc_self_fd (in_path_fd i)) (c_str name) val flags) s)"

definition pt_listxattr :: "os \<Rightarrow> PassthroughFs \<Rightarrow> Context \<Rightarrow> NodeId \<Rightarrow> byte list \<Rightarrow>
    (Errc + nat) \<times> byte list \<times> PassthroughFs" where
  "pt_listxattr os s ctx n out = (case table_get s n of
     None \<Rightarrow> (Inl ESTALE, out, s)
   | Some i \<Rightarrow> sys_read os (Llistxattr (Proc_self_fd (in_path_fd i)) (length out)) out s)"

definition pt_removexattr :: "os \<Rightarrow> PassthroughFs \<Rightarrow> Context \<Rightarrow> NodeId \<Rightarrow> byte list \<Rightarrow> (PassthroughFs, unit) outcome" where
  "pt_removexattr os s ctx n name = (case table_get s n of
     None \<Rightarrow> (Inl ESTALE, s)
   | Some i \<Rightarrow> sys_unit os (Lremovexattr (Proc_self_fd (in_path_fd i)) (c_str name)) s)"

subsection \<open>The daemon as a file system\<close>

definition passthrough_fs :: "os \<Rightarrow> PassthroughFs Filesystem" where
  "passthrough_fs os =
     \<lparr>fs_init = pt_init, fs_destroy = default_destroy, fs_lookup_root = pt_lookup_root,
      fs_lookupx = pt_lookupx os, fs_forget = pt_forget os, fs_forget_multi = pt_forget_multi os,
      fs_statx = pt_statx os, fs_setstatx = pt_setstatx os, fs_mkobjx = pt_mkobjx os, fs_unlink = pt_unlink os,
      fs_rmdir = pt_rmdir os, fs_rename = pt_rename os, fs_link = pt_link os, fs_readlink = pt_readlink os,
      fs_open = pt_open os, fs_release = pt_release os, fs_read = pt_read os, fs_write = pt_write os,
      fs_fallocate = pt_fallocate os, fs_statfs = pt_statfs os, fs_opendir = pt_opendir os,
      fs_releasedir = pt_releasedir os, fs_readdir = pt_readdir os, fs_getxattr = pt_getxattr os,
      fs_setxattr = pt_setxattr os, fs_listxattr = pt_listxattr os, fs_removexattr = pt_removexattr os\<rparr>"

end
