(* ===== verification/Passthrough_Fds.thy ===== *)
theory Passthrough_Fds
  imports Passthrough
begin

text \<open>
  The descriptors of the passthrough daemon: at every moment the descriptors it has open are
  exactly those in its three tables plus those the running callback still holds.
\<close>

subsection \<open>Open descriptors of a log\<close>

fun opened_by :: "call \<times> (i32 + int) \<Rightarrow> int option" where
  "opened_by (Openat fd nm fl m, Inr v) = Some v"
| "opened_by (Open p fl, Inr v) = Some v"
| "opened_by _ = None"

fun closed_by :: "call \<Rightarrow> int option" where
  "closed_by (Close fd) = Some fd"
| "closed_by (Closedir d) = Some d"
| "closed_by _ = None"

definition fd_step :: "call \<times> (i32 + int) \<Rightarrow> int multiset \<Rightarrow> int multiset" where
  "fd_step x fds = (case opened_by x of Some fd \<Rightarrow> add_mset fd fds
     | None \<Rightarrow> (case closed_by (fst x) of Some fd \<Rightarrow> fds - {#fd#} | None \<Rightarrow> fds))"

definition opened :: "int multiset \<Rightarrow> sys_log \<Rightarrow> int multiset" where
  "opened fds log = fold fd_step log fds"

text \<open>Every close hits an open descriptor.\<close>

fun closes_valid :: "int multiset \<Rightarrow> sys_log \<Rightarrow> bool" where
  "closes_valid fds [] = True"
| "closes_valid fds (x # log) =
     ((case closed_by (fst x) of Some fd \<Rightarrow> fd \<in># fds | None \<Rightarrow> True) \<and> closes_valid (fd_step x fds) log)"

lemma opened_append [simp]: "opened fds (log @ [x]) = fd_step x (opened fds log)"
  by (simp add: opened_def)

lemma closes_valid_append [simp]:
  "closes_valid fds (log @ [x]) \<longleftrightarrow> closes_valid fds log \<and>
     (case closed_by (fst x) of Some fd \<Rightarrow> fd \<in># opened fds log | None \<Rightarrow> True)"
  by (induction fds log rule: closes_valid.induct) (auto simp: opened_def split: option.splits)

subsection \<open>Held descriptors\<close>

definition map_fds :: "('v \<Rightarrow> int) \<Rightarrow> ('k \<rightharpoonup> 'v) \<Rightarrow> int multiset" where
  "map_fds f m = image_mset (\<lambda>k. f (the (m k))) (mset_set (dom m))"

lemma map_fds_empty [simp]: "map_fds f Map.empty = {#}"
  by (simp add: map_fds_def)

lemma map_fds_new:
  assumes "finite (dom m)" "m k = None"
  shows "map_fds f (m(k \<mapsto> v)) = add_mset (f v) (map_fds f m)"
proof -
  have "k \<notin> dom m" using assms(2) by (simp add: domIff)
  moreover have "image_mset (\<lambda>a. f (the ((m(k \<mapsto> v)) a))) (mset_set (dom m)) = map_fds f m"
    unfolding map_fds_def by (rule image_mset_cong) (use assms in auto)
  ultimately show ?thesis using assms(1) by (simp add: map_fds_def)
qed

lemma map_fds_remove:
  assumes "finite (dom m)" "m k = Some v"
  shows "map_fds f m = add_mset (f v) (map_fds f (m(k := None)))"
proof -
  have "m = (m(k := None))(k \<mapsto> v)" using assms(2) by auto
  moreover have "finite (dom (m(k := None)))" using assms(1) by simp
  ultimately show ?thesis using map_fds_new [of "m(k := None)" k f v] by simp
qed

lemma map_fds_update:
  assumes "finite (dom m)" "m k = Some i" "f v = f i"
  shows "map_fds f (m(k \<mapsto> v)) = map_fds f m"
  using map_fds_remove [of "m(k \<mapsto> v)" k v f] map_fds_remove [OF assms(1,2), of f] assms(1,3) by simp

definition held :: "PassthroughFs \<Rightarrow> int multiset" where
  "held s = map_fds in_path_fd (pt_map s) + map_fds id (pt_files s) + map_fds id (pt_dirs s)"

subsection \<open>The invariant\<close>

text \<open>
  \<open>fds_ok T s\<close>: the tables are finite and hold the root; the descriptors open are those in the
  tables and \<open>T\<close>; and directory handles are handed out in order. The last part needs that
  the 64-bit counter has not wrapped around, which takes as many system calls: \<open>owns\<close> says
  nothing of longer logs.
\<close>

definition fds_ok :: "int multiset \<Rightarrow> PassthroughFs \<Rightarrow> bool" where
  "fds_ok T s \<longleftrightarrow>
     finite (dom (pt_map s)) \<and> finite (dom (pt_files s)) \<and> finite (dom (pt_dirs s)) \<and>
     NodeId_root \<in> dom (pt_map s) \<and> (\<forall>fd \<in># held s + T. fd \<ge> 0) \<and>
     opened {#} (pt_log s) = held s + T \<and> closes_valid {#} (pt_log s) \<and>
     unat (pt_dir_id s) \<le> length (pt_log s) \<and> (\<forall>h \<in> dom (pt_dirs s). h \<le> pt_dir_id s)"

definition owns :: "int multiset \<Rightarrow> PassthroughFs \<Rightarrow> bool" where
  "owns T s \<longleftrightarrow> (length (pt_log s) < 2 ^ 64 \<longrightarrow> fds_ok T s)"

definition pt_inv :: "PassthroughFs \<Rightarrow> bool" where
  "pt_inv s \<longleftrightarrow> owns {#} s"

text \<open>The kernel's promise: a successful call returns no negative number.\<close>

definition os_ok :: "os \<Rightarrow> bool" where
  "os_ok os \<longleftrightarrow> (\<forall>log c v. os_call os log c = Inr v \<longrightarrow> v \<ge> 0)"

lemma held_log [simp]: "held (s\<lparr>pt_log := l\<rparr>) = held s" "held (s\<lparr>pt_file_id := i\<rparr>) = held s"
  by (simp_all add: held_def)

named_theorems owns_intros "ownership of the pieces of a callback"

text \<open>Calls that neither open nor close.\<close>

fun neutral :: "call \<Rightarrow> bool" where
  "neutral (Openat fd nm fl m) = False"
| "neutral (Open p fl) = False"
| "neutral (Close fd) = False"
| "neutral (Closedir fd) = False"
| "neutral _ = True"

lemma neutral_step: "neutral c \<Longrightarrow> fd_step (c, r) fds = fds" "neutral c \<Longrightarrow> closed_by c = None"
  by (cases c; cases r; simp add: fd_step_def)+

lemma fds_ok_neutral:
  assumes "fds_ok T s" "neutral c"
  shows "fds_ok T (s\<lparr>pt_log := pt_log s @ [(c, r)]\<rparr>)"
  using assms by (simp add: fds_ok_def neutral_step)

lemma owns_sys:
  assumes "sys os c s = (r, s')" "neutral c" "owns T s"
  shows "owns T s'"
  using assms fds_ok_neutral [of T s c r] by (auto simp: owns_def sys_def Let_def)

lemma owns_open_ok:
  assumes "sys os c s = (Inr fd, s')" "opened_by (c, Inr fd) = Some fd" "os_ok os" "owns T s"
  shows "owns (add_mset fd T) s'" "fd \<ge> 0"
proof -
  have s': "s' = s\<lparr>pt_log := pt_log s @ [(c, Inr fd)]\<rparr>" and r: "os_call os (pt_log s) c = Inr fd"
    using assms(1) by (auto simp: sys_def Let_def)
  show fd: "fd \<ge> 0" using r assms(3) by (auto simp: os_ok_def)
  have "closed_by c = None" using assms(2) by (cases c) auto
  then show "owns (add_mset fd T) s'"
    using assms(2,4) fd by (auto simp: owns_def s' fds_ok_def fd_step_def)
qed

lemma owns_open_fail:
  assumes "sys os c s = (Inl e, s')" "closed_by c = None" "owns T s"
  shows "owns T s'"
proof -
  have "opened_by (c, Inl e :: i32 + int) = None" by (cases c) auto
  with assms show ?thesis by (auto simp: owns_def sys_def Let_def fds_ok_def fd_step_def)
qed

lemma owns_close:
  assumes "owns (add_mset fd T) s"
  shows "owns T (close_fd os fd s)"
  using assms by (auto simp: owns_def close_fd_def sys_def Let_def fds_ok_def fd_step_def)

lemma owns_sys_close: "owns (add_mset fd T) s \<Longrightarrow> owns T (snd (sys os (Close fd) s))"
  by (auto simp: owns_def sys_def Let_def fds_ok_def fd_step_def)

lemma owns_close_errno [owns_intros]: "owns (add_mset fd T) s \<Longrightarrow> owns T (snd (close_errno os fd e s))"
  using owns_sys_close [of fd T s os] by (auto simp: close_errno_def split: prod.split sum.split)

lemma owns_close_none: "owns T s \<Longrightarrow> owns T (close_fd os (-1) s)"
  by (simp add: close_fd_def)

lemma owns_insert:
  assumes "owns (add_mset fd T) s" "fd \<ge> 0" "table_insert os fd ino s = (nid, s')"
  shows "owns T s'"
proof (cases "pt_map s ino")
  case None
  with assms show ?thesis by (auto simp: table_insert_def owns_def fds_ok_def held_def map_fds_new)
next
  case (Some i)
  let ?s = "s\<lparr>pt_map := (pt_map s)(ino \<mapsto> i\<lparr>in_nlookup := in_nlookup i + 1\<rparr>)\<rparr>"
  have "owns (add_mset fd T) ?s"
    using assms(1) Some by (auto simp: owns_def fds_ok_def held_def map_fds_update)
  from owns_close [OF this] assms(3) Some show ?thesis by (auto simp: table_insert_def)
qed

lemma owns_forget:
  assumes "owns T s" "key \<noteq> NodeId_root"
  shows "owns T (forget_locked os key n s)"
proof (cases "pt_map s key")
  case None
  with assms show ?thesis by (simp add: forget_locked_def)
next
  case (Some i)
  let ?s = "s\<lparr>pt_map := (pt_map s)(key := None)\<rparr>"
  have "owns (add_mset (in_path_fd i) T) ?s"
    using assms Some map_fds_remove [of "pt_map s" key i in_path_fd] by (auto simp: owns_def fds_ok_def held_def)
  from owns_close [OF this] have "owns T (close_fd os (in_path_fd i) ?s)" .
  moreover have "owns T (s\<lparr>pt_map := (pt_map s)(key \<mapsto> i\<lparr>in_nlookup := nl\<rparr>)\<rparr>)" for nl
    using assms(1) Some by (auto simp: owns_def fds_ok_def held_def map_fds_update)
  ultimately show ?thesis using Some by (simp add: forget_locked_def Let_def)
qed

lemma owns_emplace:
  assumes "owns (add_mset fd T) s" "fd \<ge> 0"
  shows "owns T (files_emplace os h fd s)"
  using assms owns_close [OF assms(1)]
  by (auto simp: files_emplace_def owns_def fds_ok_def held_def map_fds_new split: option.splits)

subsection \<open>The callbacks\<close>

lemma owns_sys_unit [owns_intros]: "neutral c \<Longrightarrow> owns T s \<Longrightarrow> owns T (snd (sys_unit os c s))"
  by (auto simp: sys_unit_def split: prod.split sum.split dest: owns_sys)

lemma owns_sys_read [owns_intros]: "neutral c \<Longrightarrow> owns T s \<Longrightarrow> owns T (snd (snd (sys_read os c buf s)))"
  by (auto simp: sys_read_def split: prod.split sum.split dest: owns_sys)

lemma owns_sys_all: "\<forall>c \<in> set cs. neutral c \<Longrightarrow> owns T s \<Longrightarrow> owns T (snd (sys_all os cs s))"
proof (induction cs arbitrary: s)
  case (Cons c cs)
  obtain r s' where r: "sys os c s = (r, s')" by fastforce
  have "owns T s'" by (rule owns_sys [OF r]) (use Cons.prems in simp_all)
  with Cons r show ?case by (simp split: sum.split)
qed simp

lemma owns_enter:
  assumes "owns (add_mset fd T) s" "fd \<ge> 0"
  shows "owns T (snd (enter os fd s))"
proof -
  obtain r s' where r: "sys os (Fstatat fd) s = (r, s')" by fastforce
  then have o: "owns (add_mset fd T) s'" by (rule owns_sys) (use assms in simp_all)
  show ?thesis
    using r owns_close [OF o] owns_insert [OF o assms(2)]
    by (auto simp: enter_def split: sum.split prod.split)
qed

lemma owns_enter_new:
  assumes "owns (add_mset fd T) s" "fd \<ge> 0"
  shows "owns T (snd (enter_new os fd s))"
proof -
  obtain r s' where r: "sys os (Fstatat fd) s = (r, s')" by fastforce
  then have o: "owns (add_mset fd T) s'" by (rule owns_sys) (use assms in simp_all)
  show ?thesis
    using r owns_close_errno [OF o] owns_insert [OF o assms(2)]
    by (auto simp: enter_new_def split: sum.split prod.split)
qed

lemma owns_lookupx:
  assumes "os_ok os" "owns T s"
  shows "owns T (snd (pt_lookupx os s ctx parent name))"
proof (cases "pt_map s parent")
  case (Some p)
  let ?c = "Openat (in_path_fd p) (c_str name) (O_PATH OR O_NOFOLLOW OR O_CLOEXEC) 0"
  show ?thesis
  proof (cases "sys os ?c s")
    case (Pair r s')
    show ?thesis
    proof (cases r)
      case (Inl e)
      with Pair owns_open_fail [of os ?c s e s' T] assms(2) Some show ?thesis by (simp add: pt_lookupx_def table_get_def)
    next
      case (Inr fd)
      with Pair owns_open_ok [of os ?c s fd s' T] assms have "owns (add_mset fd T) s'" "fd \<ge> 0" by simp_all
      with Inr Pair Some show ?thesis by (simp add: pt_lookupx_def table_get_def owns_enter)
    qed
  qed
qed (use assms in \<open>simp add: pt_lookupx_def table_get_def\<close>)

text \<open>Opening through \<open>/proc/self/fd\<close> and by name, as a case rule.\<close>

lemma owns_opening:
  assumes "sys os c s = (r, s')" "\<And>v. opened_by (c, Inr v) = Some v" "os_ok os" "owns T s"
  shows "case r of Inl e \<Rightarrow> owns T s' | Inr fd \<Rightarrow> owns (add_mset fd T) s' \<and> fd \<ge> 0"
proof (cases r)
  case (Inl e)
  have "closed_by c = None" using assms(2) [of 0] by (cases c) auto
  with Inl assms owns_open_fail show ?thesis by auto
next
  case (Inr fd)
  with assms owns_open_ok show ?thesis by auto
qed

lemma owns_statx:
  assumes "owns T s"
  shows "owns T (snd (pt_statx os s ctx n))"
  using assms by (auto simp: pt_statx_def split: option.split prod.split sum.split dest: owns_sys)

lemma setstatx_calls_neutral: "c \<in> set (setstatx_calls fd proc inn) \<Longrightarrow> neutral c"
  by (auto simp: setstatx_calls_def Let_def split: if_splits)

lemma owns_setstatx:
  assumes "owns T s"
  shows "owns T (snd (pt_setstatx os s ctx n fh inn))"
proof -
  have "owns T s'" if "sys_all os (setstatx_calls fd proc inn) s = (r, s')" for fd proc r s'
    using owns_sys_all [of "setstatx_calls fd proc inn" T s os] that assms setstatx_calls_neutral by auto
  with assms show ?thesis
    by (auto simp: pt_setstatx_def Let_def split: option.split prod.split sum.split intro!: owns_statx)
qed

lemma owns_tmpfile:
  assumes "os_ok os" "owns T s"
  shows "owns T (snd (mkobjx_tmpfile os p mi s))"
proof -
  let ?c1 = "Openat (in_path_fd p) [46] (O_TMPFILE OR O_RDWR OR O_CLOEXEC) (ucast (so_mode (mi_stat mi) AND 0xfff))"
  obtain r1 s1 where c1: "sys os ?c1 s = (r1, s1)" by fastforce
  note o1 = owns_opening [OF c1 _ assms, simplified]
  show ?thesis
  proof (cases r1)
    case (Inl e)
    with o1 c1 show ?thesis by (simp add: mkobjx_tmpfile_def)
  next
    case fd: (Inr fd)
    obtain r2 s2 where c2: "sys os (Fstat fd) s1 = (r2, s2)" by fastforce
    have o2: "owns (add_mset fd T) s2" by (rule owns_sys [OF c2]) (use o1 fd in simp_all)
    obtain r3 s3 where c3: "sys os (Open (Proc_self_fd fd) (O_PATH OR O_CLOEXEC)) s2 = (r3, s3)" by fastforce
    note o3 = owns_opening [OF c3 _ assms(1) o2, simplified]
    have "owns T s4" if "r3 = Inr pfd" "table_insert os pfd ino (snd (sys os (Close fd) s3)) = (nid, s4)" for pfd ino nid s4
    proof -
      have "owns (add_mset fd (add_mset pfd T)) s3" "pfd \<ge> 0"
        using o3 that(1) by (simp_all add: add_mset_commute)
      from owns_insert [OF owns_sys_close [OF this(1)] this(2) that(2)] show ?thesis .
    qed
    with c1 fd c2 c3 o2 o3 show ?thesis
      by (auto simp: mkobjx_tmpfile_def Let_def intro!: owns_close_errno split: sum.split prod.split)
  qed
qed

lemma create_call_neutral: "create_call pfd nm mi = Some c \<Longrightarrow> neutral c"
  by (auto simp: create_call_def Let_def split: if_splits)

lemma owns_set_owner: "owns T s \<Longrightarrow> owns T (snd (set_owner os p nm mi s))"
  by (auto simp: set_owner_def split: prod.split sum.split dest: owns_sys)

lemma owns_open_enter:
  assumes "os_ok os" "owns T s"
  shows "owns T (snd (case sys os (Openat fd nm fl 0) s of
    (Inl e, s) \<Rightarrow> (Inl e, s) | (Inr cfd, s) \<Rightarrow> enter_new os cfd s))"
proof -
  obtain r s' where r: "sys os (Openat fd nm fl 0) s = (r, s')" by fastforce
  from owns_opening [OF r _ assms] r show ?thesis by (cases r) (simp_all add: owns_enter_new)
qed

lemma owns_created:
  assumes "os_ok os" "owns T s"
  shows "owns T (snd (case set_owner os p nm mi s of
      (Inl e, s) \<Rightarrow> (Inl e, s)
    | (Inr u, s) \<Rightarrow> (case sys os (Openat fd nm fl 0) s of
        (Inl e, s) \<Rightarrow> (Inl e, s) | (Inr cfd, s) \<Rightarrow> enter_new os cfd s)))"
proof -
  obtain r s' where r: "set_owner os p nm mi s = (r, s')" by fastforce
  with owns_set_owner [OF assms(2), of os p nm mi] have "owns T s'" by simp
  with owns_open_enter [OF assms(1) this] r show ?thesis by (cases r) simp_all
qed

lemma owns_mkobjx:
  assumes "os_ok os" "owns T s"
  shows "owns T (snd (pt_mkobjx os s ctx parent mi))"
proof (cases "pt_map s parent")
  case None
  with assms show ?thesis by (simp add: pt_mkobjx_def table_get_def)
next
  case (Some p)
  let ?nm = "c_str (mi_name mi)"
  show ?thesis
  proof (cases "mi_flags mi AND kMkobjxTmpfile \<noteq> 0 \<or> create_call (in_path_fd p) ?nm mi = None")
    case True
    with Some assms owns_tmpfile [OF assms, of p mi] show ?thesis by (auto simp: pt_mkobjx_def table_get_def Let_def)
  next
    case False
    then obtain c where c: "create_call (in_path_fd p) ?nm mi = Some c" by auto
    obtain r s' where r: "sys os c s = (r, s')" by fastforce
    have "owns T s'" by (rule owns_sys [OF r create_call_neutral [OF c] assms(2)])
    with owns_created [OF assms(1) this] r c False Some show ?thesis
      by (cases r) (simp_all add: pt_mkobjx_def table_get_def Let_def)
  qed
qed

lemma owns_io:
  assumes "os_ok os" "owns T s" "io_fd os n fh mode s = (r, s')"
  shows "case r of Inl e \<Rightarrow> owns T s'
    | Inr (fd, owner) \<Rightarrow> (if owner = -1 then owns T s' else owns (add_mset owner T) s' \<and> owner \<ge> 0)"
proof (cases "file_fd s fh \<ge> 0 \<or> pt_map s n = None")
  case True
  with assms show ?thesis by (auto simp: io_fd_def Let_def table_get_def split: if_splits)
next
  case False
  then obtain i where i: "pt_map s n = Some i" by auto
  obtain r1 s1 where r: "sys os (Open (Proc_self_fd (in_path_fd i)) (mode OR O_CLOEXEC)) s = (r1, s1)" by fastforce
  from owns_opening [OF r _ assms(1,2)] False i r assms(3) show ?thesis
    by (cases r1) (auto simp: io_fd_def table_get_def Let_def)
qed

lemma owns_io_close:
  assumes "if owner = -1 then owns T s else owns (add_mset owner T) s \<and> owner \<ge> 0"
  shows "owns T (close_fd os owner s)"
  using assms owns_close [of owner T s os] owns_close_none [of T s os] by (auto split: if_splits)

lemma owns_io_sys:
  assumes "if owner = -1 then owns T s else owns (add_mset owner T) s \<and> owner \<ge> 0"
    and "\<And>T. owns T s \<Longrightarrow> owns T s'"
  shows "owns T (close_fd os owner s')"
  using assms by (intro owns_io_close) (auto split: if_splits)

lemma owns_read:
  assumes "os_ok os" "owns T s"
  shows "owns T (snd (snd (pt_read os s ctx n fh off out)))"
proof -
  obtain r s' where io: "io_fd os n fh O_RDONLY s = (r, s')" by fastforce
  note o = owns_io [OF assms io]
  show ?thesis
  proof (cases r)
    case (Inr x)
    obtain fd owner where x: "x = (fd, owner)" by fastforce
    let ?c = "Pread fd (length out) off"
    obtain rv buf s2 where rd: "sys_read os ?c out s' = (rv, buf, s2)" by (rule prod_cases3)
    have step: "owns T' s2" if "owns T' s'" for T'
      using owns_sys_read [of ?c T' s' os out] that rd by simp
    have "owns T (close_fd os owner s2)"
      by (rule owns_io_sys [of owner T s' s2]) (use o Inr x step in simp_all)
    with Inr x io rd show ?thesis by (simp add: pt_read_def)
  qed (use o io in \<open>simp add: pt_read_def\<close>)
qed

lemma owns_write:
  assumes "os_ok os" "owns T s"
  shows "owns T (snd (pt_write os s ctx n fh off inn))"
proof -
  obtain r s' where io: "io_fd os n fh O_WRONLY s = (r, s')" by fastforce
  note o = owns_io [OF assms io]
  show ?thesis
  proof (cases r)
    case (Inr x)
    obtain fd owner where x: "x = (fd, owner)" by fastforce
    obtain r2 s2 where w: "sys os (Pwrite fd inn off) s' = (r2, s2)" by fastforce
    have step: "owns T' s2" if "owns T' s'" for T' by (rule owns_sys [OF w]) (use that in simp_all)
    have "owns T (close_fd os owner s2)"
      by (rule owns_io_sys [of owner T s' s2]) (use o Inr x step in simp_all)
    with Inr x io w show ?thesis by (cases r2) (simp_all add: pt_write_def)
  qed (use o io in \<open>simp add: pt_write_def\<close>)
qed

lemma owns_fallocate:
  assumes "os_ok os" "owns T s"
  shows "owns T (snd (pt_fallocate os s ctx n fh mode off len))"
proof -
  obtain r s' where io: "io_fd os n fh O_WRONLY s = (r, s')" by fastforce
  note o = owns_io [OF assms io]
  show ?thesis
  proof (cases r)
    case (Inr x)
    obtain fd owner where x: "x = (fd, owner)" by fastforce
    obtain rv s2 where fa: "sys_unit os (Fallocate fd mode off len) s' = (rv, s2)" by fastforce
    have step: "owns T' s2" if "owns T' s'" for T'
      using owns_sys_unit [of "Fallocate fd mode off len" T' s' os] that fa by simp
    have "owns T (close_fd os owner s2)"
      by (rule owns_io_sys [of owner T s' s2]) (use o Inr x step in simp_all)
    with Inr x io fa show ?thesis by (simp add: pt_fallocate_def)
  qed (use o io in \<open>simp add: pt_fallocate_def\<close>)
qed

lemma owns_open:
  assumes "os_ok os" "owns T s"
  shows "owns T (snd (pt_open os s ctx n flags))"
proof (cases "pt_map s n")
  case (Some i)
  obtain r s' where r: "sys os (Open (Proc_self_fd (in_path_fd i)) (flags AND kPersistent OR O_CLOEXEC)) s = (r, s')"
    by fastforce
  have "owns (add_mset fd T) (s'\<lparr>pt_file_id := k\<rparr>)" if "owns (add_mset fd T) s'" for fd k
    using that by (simp add: owns_def fds_ok_def)
  with owns_opening [OF r _ assms] Some r show ?thesis
    by (cases r) (simp_all add: pt_open_def table_get_def Let_def owns_emplace)
qed (use assms in \<open>simp add: pt_open_def table_get_def\<close>)

lemma owns_release:
  assumes "owns T s"
  shows "owns T (snd (pt_release os s ctx n fh flags))"
proof (cases "pt_files s fh")
  case (Some fd)
  have "owns (add_mset fd T) (s\<lparr>pt_files := (pt_files s)(fh := None)\<rparr>)"
    using assms Some map_fds_remove [of "pt_files s" fh fd id] by (auto simp: owns_def fds_ok_def held_def)
  from owns_close [OF this] Some show ?thesis by (simp add: pt_release_def)
qed (use assms in \<open>simp add: pt_release_def\<close>)

lemma owns_releasedir:
  assumes "owns T s"
  shows "owns T (snd (pt_releasedir os s ctx n fh))"
proof (cases "pt_dirs s fh")
  case (Some d)
  then show ?thesis
    using assms map_fds_remove [of "pt_dirs s" fh d id]
    by (auto simp: pt_releasedir_def sys_def Let_def owns_def fds_ok_def held_def fd_step_def)
qed (use assms in \<open>simp add: pt_releasedir_def\<close>)

text \<open>A new directory handle is new as long as the counter does not wrap around.\<close>

lemma owns_new_dir:
  assumes "owns (add_mset fd T) s" "fd \<ge> 0" "unat (pt_dir_id s) < length (pt_log s)"
  shows "owns T (s\<lparr>pt_dir_id := pt_dir_id s + 1, pt_dirs := (pt_dirs s)(pt_dir_id s + 1 \<mapsto> fd)\<rparr>)"
proof (cases "length (pt_log s) < 2 ^ 64")
  case True
  have suc: "unat (pt_dir_id s + 1) = unat (pt_dir_id s) + 1"
    using True assms(3) by (simp add: unat_plus_simple [THEN iffD1] word_le_nat_alt unat_word_ariths)
  then have lt: "pt_dir_id s < pt_dir_id s + 1" by (simp add: word_less_nat_alt)
  have ok: "fds_ok (add_mset fd T) s" using True assms(1) by (simp add: owns_def)
  then have "pt_dirs s (pt_dir_id s + 1) = None" using lt by (force simp: fds_ok_def)
  moreover have "h \<le> pt_dir_id s + 1" if "pt_dirs s h = Some x" for h x
  proof -
    have "h \<le> pt_dir_id s" using ok that by (auto simp: fds_ok_def)
    also have "\<dots> \<le> pt_dir_id s + 1" using lt by simp
    finally show ?thesis .
  qed
  ultimately show ?thesis
    using ok assms(2,3) suc by (auto simp: owns_def fds_ok_def held_def map_fds_new)
qed (simp add: owns_def)

lemma owns_opendir:
  assumes "os_ok os" "owns T s"
  shows "owns T (snd (pt_opendir os s ctx n))"
proof (cases "pt_map s n")
  case (Some i)
  let ?c = "Open (Proc_self_fd (in_path_fd i)) (O_DIRECTORY OR O_RDONLY OR O_CLOEXEC)"
  obtain r1 s1 where r1: "sys os ?c s = (r1, s1)" by fastforce
  note o1 = owns_opening [OF r1 _ assms]
  show ?thesis
  proof (cases r1)
    case (Inl e)
    with o1 r1 Some show ?thesis by (simp add: pt_opendir_def table_get_def)
  next
    case (Inr fd)
    obtain r2 s2 where r2: "sys os (Fdopendir fd) s1 = (r2, s2)" by fastforce
    have o2: "owns (add_mset fd T) s2" by (rule owns_sys [OF r2]) (use o1 Inr in simp_all)
    show ?thesis
    proof (cases r2)
      case (Inl e)
      with owns_close_errno [OF o2] r1 r2 Inr Some show ?thesis by (simp add: pt_opendir_def table_get_def)
    next
      case v: (Inr v)
      have "pt_dir_id s2 = pt_dir_id s" "length (pt_log s2) = length (pt_log s) + 2"
        using r1 r2 by (auto simp: sys_def Let_def)
      then have "length (pt_log s2) < 2 ^ 64 \<longrightarrow> unat (pt_dir_id s2) < length (pt_log s2)"
        using assms(2) by (auto simp: owns_def fds_ok_def)
      then have "owns T (s2\<lparr>pt_dir_id := pt_dir_id s2 + 1, pt_dirs := (pt_dirs s2)(pt_dir_id s2 + 1 \<mapsto> fd)\<rparr>)"
        using owns_new_dir [OF o2] o1 Inr by (cases "length (pt_log s2) < 2 ^ 64") (simp_all add: owns_def)
      with r1 r2 Inr v Some show ?thesis by (simp add: pt_opendir_def table_get_def Let_def)
    qed
  qed
qed (use assms in \<open>simp add: pt_opendir_def table_get_def\<close>)

lemma owns_readdir_loop:
  "owns T s \<Longrightarrow> readdir_loop os d off w s = Some (rv, w', s') \<Longrightarrow> owns T s'"
proof (induction os d off w s rule: readdir_loop.induct)
  case (1 os d off w s)
  obtain r1 s1 where r1: "sys os (Readdir d) s = (r1, s1)" by fastforce
  obtain r2 s2 where r2: "sys os (Telldir d) s1 = (r2, s2)" by fastforce
  obtain r3 s3 where r3: "sys os (Seekdir d off) s2 = (r3, s3)" by fastforce
  have o1: "owns T s1" by (rule owns_sys [OF r1]) (use 1 in simp_all)
  have o2: "owns T s2" by (rule owns_sys [OF r2]) (use o1 in simp_all)
  have o3: "owns T s3" by (rule owns_sys [OF r3]) (use o2 in simp_all)
  show ?case
  proof (cases r1)
    case (Inl e)
    with "1.prems" r1 o1 show ?thesis by auto
  next
    case (Inr v)
    let ?de = "os_dirent os (pt_log s) (Readdir d)" and ?next = "case r2 of Inl e \<Rightarrow> -1 | Inr t \<Rightarrow> word_of_int t"
    show ?thesis
    proof (cases "DirentWriter_add w (c_str (sd_name ?de)) (sd_ino ?de) ?next (ucast (sd_type ?de))")
      case None
      with "1.prems" r1 r2 Inr show ?thesis by simp
    next
      case (Some x)
      obtain b w1 where x: "x = (b, w1)" by fastforce
      show ?thesis
      proof (cases b)
        case True
        have step: "readdir_loop os d ?next w1 s2 = Some (rv, w', s')"
          using "1.prems"(2) r1 r2 Inr Some x True by simp
        show ?thesis
          by (rule "1.IH" [OF r1 [symmetric] Inr refl r2 [symmetric] refl Some x [symmetric] _ o2 step])
            (use True in simp)
      next
        case False
        with "1.prems"(2) r1 r2 r3 Inr Some x o3 show ?thesis by simp
      qed
    qed
  qed
qed

lemma owns_readdir:
  assumes "owns T s" "pt_readdir os s ctx n fh off out = Some (rv, w, s')"
  shows "owns T s'"
proof (cases "pt_dirs s fh")
  case (Some d)
  obtain r s1 where r: "sys os (Seekdir d off) s = (r, s1)" by fastforce
  have "owns T s1" by (rule owns_sys [OF r]) (use assms in simp_all)
  then show ?thesis using owns_readdir_loop assms(2) Some r by (simp add: pt_readdir_def)
qed (use assms in \<open>simp add: pt_readdir_def\<close>)

lemma owns_forget_many: "owns T s \<Longrightarrow> owns T (forget_many os s items)"
  by (induction os s items rule: forget_many.induct) (simp_all add: owns_forget)

end
