(* ===== verification/Uring_Worker.thy ===== *)
theory Uring_Worker
  imports Protocol
begin

text \<open>
  The per-queue ring worker: \<open>src/uring_worker.hpp\<close> and \<open>src/uring_worker.cpp\<close>.

  liburing and the kernel are the environment. What they decide is an input: whether an
  \<open>mmap\<close> or \<open>io_uring_get_sqe\<close> succeeds, the return codes of \<open>io_uring_queue_init_params\<close>
  and \<open>io_uring_submit\<close>, and the completions that \<open>io_uring_wait_cqe\<close> delivers, each with the
  bytes the kernel left in the entry's buffer. What the worker does to the ring is an
  output: the log of the submission entries it prepared, interleaved with the completions
  it consumed.

  An \<open>std::error_code\<close> of the system category is its error number, 0 for no error.
\<close>

definition kStopSentinel :: u64 where "kStopSentinel = 0xFFFFFFFFFFFFFFFF"

definition make_ud :: "u32 \<Rightarrow> u64" where
  "make_ud entry_idx = ucast entry_idx"

subsection \<open>State\<close>

text \<open>The buffer is \<^term>\<open>None\<close> for a null pointer; an iovec is a slice (offset, length) of it.\<close>

record Entry =
  e_buf :: "byte list option"
  e_buf_len :: nat
  e_commit_id :: u64
  e_iov :: "(nat \<times> nat) list"
  e_body_scratch :: "byte list"

definition Entry_new :: Entry where
  "Entry_new = \<lparr>e_buf = None, e_buf_len = 0, e_commit_id = 0, e_iov = [(0, 0), (0, 0)], e_body_scratch = []\<rparr>"

record uring_cmd =
  uc_fd :: int
  uc_cmd_op :: u32
  uc_addr :: "(nat \<times> nat) list"
  uc_len :: u32
  uc_req :: fuse_uring_cmd_req
  uc_user_data :: u64

datatype sqe = PollAdd int u64 | UringCmd uring_cmd

datatype ring_event = Prepared sqe | Completed u64 i32

record 's RingWorker =
  w_impl :: "'s Impl"
  w_qid :: u32
  w_depth :: nat
  w_payload_bytes :: nat
  w_ring_inited :: bool
  w_entries :: "Entry list"
  w_ec :: i32
  w_log :: "ring_event list"
  w_unmapped :: nat

definition RingWorker_new :: "'s Impl \<Rightarrow> u32 \<Rightarrow> nat \<Rightarrow> nat \<Rightarrow> 's RingWorker" where
  "RingWorker_new impl qid depth payload_bytes =
     \<lparr>w_impl = impl, w_qid = qid, w_depth = depth, w_payload_bytes = payload_bytes,
      w_ring_inited = False, w_entries = [], w_ec = 0, w_log = [], w_unmapped = 0\<rparr>"

lemma RingWorker_new_simps [simp]:
  "w_depth (RingWorker_new impl qid depth pb) = depth" "w_payload_bytes (RingWorker_new impl qid depth pb) = pb"
  by (simp_all add: RingWorker_new_def)

definition log_event :: "ring_event \<Rightarrow> 's RingWorker \<Rightarrow> 's RingWorker" where
  "log_event e w = w\<lparr>w_log := w_log w @ [e]\<rparr>"

subsection \<open>Submission entries\<close>

definition prep_register :: "'s RingWorker \<Rightarrow> nat \<Rightarrow> sqe" where
  "prep_register w i =
     UringCmd \<lparr>uc_fd = im_dev_fd (w_impl w), uc_cmd_op = FUSE_IO_URING_CMD_REGISTER,
       uc_addr = e_iov (w_entries w ! i), uc_len = 2,
       uc_req = \<lparr>ucr_flags = 0, ucr_commit_id = 0, ucr_qid = ucast (w_qid w)\<rparr>,
       uc_user_data = make_ud (word_of_nat i)\<rparr>"

definition prep_commit_and_fetch :: "'s RingWorker \<Rightarrow> nat \<Rightarrow> u64 \<Rightarrow> u32 \<Rightarrow> sqe" where
  "prep_commit_and_fetch w i commit_id payload_sz =
     UringCmd \<lparr>uc_fd = im_dev_fd (w_impl w), uc_cmd_op = FUSE_IO_URING_CMD_COMMIT_AND_FETCH,
       uc_addr = e_iov (w_entries w ! i), uc_len = 2,
       uc_req = \<lparr>ucr_flags = 0, ucr_commit_id = commit_id, ucr_qid = ucast (w_qid w)\<rparr>,
       uc_user_data = make_ud (word_of_nat i)\<rparr>"

subsection \<open>start\<close>

text \<open>
  \<open>se_mmap i\<close>: the error number of the \<open>i\<close>-th \<open>mmap\<close>, 0 for success; \<open>se_sqe k\<close>: whether the
  \<open>k\<close>-th \<open>io_uring_get_sqe\<close> returns a slot.
\<close>

record start_env =
  se_mmap :: "nat \<Rightarrow> i32"
  se_queue_init :: i32
  se_sqe :: "nat \<Rightarrow> bool"
  se_submit :: i32

definition map_entry :: "nat \<Rightarrow> Entry \<Rightarrow> Entry" where
  "map_entry payload_bytes e =
     (let buf_len = sizeof_uring_req_header + payload_bytes in
      e\<lparr>e_buf := Some (zeros buf_len), e_buf_len := buf_len,
        e_iov := [(0, sizeof_uring_req_header), (sizeof_uring_req_header, payload_bytes)],
        e_body_scratch := zeros (FUSE_URING_OP_IN_OUT_SZ + payload_bytes)\<rparr>)"

text \<open>The loop over the entries: the entries set up so far and the error that ended it, if any.\<close>

fun map_entries :: "start_env \<Rightarrow> nat \<Rightarrow> nat \<Rightarrow> Entry list \<Rightarrow> Entry list \<times> i32" where
  "map_entries env payload_bytes i [] = ([], 0)"
| "map_entries env payload_bytes i (e # es) =
     (if se_mmap env i \<noteq> 0 then (e # es, se_mmap env i)
      else case map_entries env payload_bytes (Suc i) es of
        (es', err) \<Rightarrow> (map_entry payload_bytes e # es', err))"

fun register_all :: "start_env \<Rightarrow> nat list \<Rightarrow> 's RingWorker \<Rightarrow> 's RingWorker \<times> i32" where
  "register_all env [] w = (w, 0)"
| "register_all env (i # is) w =
     (if se_sqe env (Suc i) then register_all env is (log_event (Prepared (prep_register w i)) w)
      else (w, EAGAIN))"

definition start :: "start_env \<Rightarrow> 's RingWorker \<Rightarrow> 's RingWorker \<times> i32" where
  "start env w =
     (case map_entries env (w_payload_bytes w) 0 (replicate (w_depth w) Entry_new) of (entries, err) \<Rightarrow>
      let w = w\<lparr>w_entries := entries\<rparr> in
      if err \<noteq> 0 then (w, err)
      else if sint (se_queue_init env) < 0 then (w, - se_queue_init env)
      else let w = w\<lparr>w_ring_inited := True\<rparr> in
        if \<not> se_sqe env 0 then (w, EAGAIN)
        else let w = log_event (Prepared (PollAdd (im_stop_efd (w_impl w)) kStopSentinel)) w in
          case register_all env [0..<w_depth w] w of (w, err) \<Rightarrow>
            if err \<noteq> 0 then (w, err)
            else if sint (se_submit env) < 0 then (w, - se_submit env)
            else (w, 0))"

subsection \<open>handle_one\<close>

definition first_arg_size :: "fuse_in_header \<Rightarrow> u32 \<Rightarrow> nat" where
  "first_arg_size h payload_sz =
     (if unat (ih_len h) \<ge> 40 + unat payload_sz then unat (ih_len h) - 40 - unat payload_sz else 0)"

text \<open>The reply header over \<open>in_out\<close> and the payload size in \<open>ring_ent_in_out\<close>.\<close>

definition write_reply :: "byte list \<Rightarrow> fuse_out_header \<Rightarrow> u32 \<Rightarrow> byte list option" where
  "write_reply buf outh reply_sz = do {
     buf \<leftarrow> store buf off_in_out (put_fuse_out_header outh);
     store buf (off_ring_ent + 16) (put32 reply_sz)}"

definition handle_one :: "'s Filesystem \<Rightarrow> nat \<Rightarrow> 's Impl \<Rightarrow> Entry \<Rightarrow> ('s Impl \<times> Entry \<times> u32) option" where
  "handle_one F payload_bytes im e = do {
     buf \<leftarrow> e_buf e;
     ent \<leftarrow> load get_fuse_uring_ent_in_out buf off_ring_ent;
     let e = e\<lparr>e_commit_id := ent_commit_id ent\<rparr>;
     let payload_sz = ent_payload_sz ent;
     h_copy \<leftarrow> load get_fuse_in_header buf off_in_out;
     let first_arg_sz = first_arg_size h_copy payload_sz;
     let body_len = first_arg_sz + unat payload_sz;
     if first_arg_sz > FUSE_URING_OP_IN_OUT_SZ \<or> body_len > length (e_body_scratch e)
     then do {
       buf \<leftarrow> write_reply buf \<lparr>oh_len = 16, oh_error = - EIO, oh_unique = ih_unique h_copy\<rparr> 0;
       Some (im, e\<lparr>e_buf := Some buf\<rparr>, 0)}
     else do {
       op_in \<leftarrow> slice buf off_op_in first_arg_sz;
       scratch \<leftarrow> store (e_body_scratch e) 0 op_in;
       payload \<leftarrow> (if payload_sz \<noteq> 0 then slice buf sizeof_uring_req_header (unat payload_sz) else Some []);
       scratch \<leftarrow> store scratch first_arg_sz payload;
       let r = \<lparr>r_out = drop sizeof_uring_req_header buf, r_cap = payload_bytes, r_len = 0,
                r_neg_err = 0, r_unique = ih_unique h_copy\<rparr>;
       (im, r) \<leftarrow> dispatch F im h_copy (take body_len scratch) r;
       let buf = take sizeof_uring_req_header buf @ r_out r;
       let reply_sz = (if r_neg_err r \<noteq> 0 then 0 else word_of_nat (r_len r));
       buf \<leftarrow> write_reply buf
         \<lparr>oh_len = word_of_nat (16 + (if r_neg_err r \<noteq> 0 then 0 else r_len r)), oh_error = r_neg_err r,
          oh_unique = r_unique r\<rparr> reply_sz;
       Some (im, e\<lparr>e_buf := Some buf, e_body_scratch := scratch\<rparr>, reply_sz)}}"

subsection \<open>run\<close>

text \<open>
  One iteration's inputs: the completion, with the contents of the completed entry's buffer,
  and what the ring answers to the calls of the iteration.
\<close>

datatype completion = WaitErr i32 | Cqe u64 i32 "byte list"

record run_env =
  re_wait :: completion
  re_sqe :: bool
  re_sqe_retry :: bool
  re_submit :: i32

definition slot_of :: "u64 \<Rightarrow> nat" where
  "slot_of ud = unat (ucast ud :: u32)"

definition kernel_fill :: "nat \<Rightarrow> byte list \<Rightarrow> 's RingWorker \<Rightarrow> 's RingWorker" where
  "kernel_fill idx mem w =
     w\<lparr>w_entries := (w_entries w)[idx := (w_entries w ! idx)\<lparr>e_buf := Some mem\<rparr>]\<rparr>"

text \<open>One turn of the loop; the flag is \<open>stop\<close>, set by every path that leaves it.\<close>

definition serve :: "'s Filesystem \<Rightarrow> run_env \<Rightarrow> nat \<Rightarrow> 's RingWorker \<Rightarrow> ('s RingWorker \<times> bool) option" where
  "serve F env idx w = do {
     (im, e, reply_sz) \<leftarrow> handle_one F (w_payload_bytes w) (w_impl w) (w_entries w ! idx);
     let w = w\<lparr>w_impl := im, w_entries := (w_entries w)[idx := e]\<rparr>;
     if \<not> re_sqe env \<and> \<not> re_sqe_retry env then Some (w\<lparr>w_ec := EAGAIN\<rparr>, True)
     else
       let w = log_event (Prepared (prep_commit_and_fetch w idx (e_commit_id e) reply_sz)) w in
       if sint (re_submit env) < 0 then Some (w\<lparr>w_ec := - re_submit env\<rparr>, True)
       else Some (w, False)}"

definition run_step :: "'s Filesystem \<Rightarrow> run_env \<Rightarrow> 's RingWorker \<Rightarrow> ('s RingWorker \<times> bool) option" where
  "run_step F env w = (case re_wait env of
     WaitErr rc \<Rightarrow> if rc = - EINTR then Some (w, False) else Some (w\<lparr>w_ec := - rc\<rparr>, True)
   | Cqe ud res mem \<Rightarrow>
       let w = log_event (Completed ud res) w in
       if ud = kStopSentinel then Some (w, True)
       else let idx = slot_of ud in
         if idx \<ge> length (w_entries w) then Some (w\<lparr>w_ec := EINVAL\<rparr>, False)
         else if sint res < 0
         then
           if res = - ENOTCONN \<or> res = - ENODEV then Some (w, True)
           else if res = - EINTR
           then Some (if re_sqe env then log_event (Prepared (prep_register w idx)) w else w, False)
           else Some (w\<lparr>w_ec := - res\<rparr>, True)
         else serve F env idx (kernel_fill idx mem w))"

text \<open>
  The loop over the completions delivered so far; the flag tells whether it has ended
  (otherwise the thread waits for the next completion).
\<close>

fun run :: "'s Filesystem \<Rightarrow> run_env list \<Rightarrow> 's RingWorker \<Rightarrow> ('s RingWorker \<times> bool) option" where
  "run F [] w = Some (w, False)"
| "run F (env # envs) w = do {
     (w', stop) \<leftarrow> run_step F env w;
     if stop then Some (w', True) else run F envs w'}"

subsection \<open>teardown\<close>

text \<open>\<open>w_unmapped\<close> counts the \<open>munmap\<close> calls.\<close>

definition teardown :: "'s RingWorker \<Rightarrow> 's RingWorker" where
  "teardown w =
     w\<lparr>w_ring_inited := False, w_entries := [],
       w_unmapped := w_unmapped w + length (filter (\<lambda>e. e_buf e \<noteq> None) (w_entries w))\<rparr>"

subsection \<open>Requests in an entry\<close>

definition entry_ok :: "nat \<Rightarrow> Entry \<Rightarrow> bool" where
  "entry_ok pb e \<longleftrightarrow>
     (case e_buf e of None \<Rightarrow> False | Some buf \<Rightarrow> length buf = 288 + pb) \<and> e_buf_len e = 288 + pb \<and>
     length (e_body_scratch e) = 128 + pb \<and> e_iov e = [(0, 288), (288, pb)]"

text \<open>
  The kernel's side of a fetch: the header in \<open>in_out\<close>, the first argument in \<open>op_in\<close>, the
  other arguments in the payload area, and the commit id and payload size in
  \<open>ring_ent_in_out\<close>; the header's length counts all of it.
\<close>

definition request_mem :: "nat \<Rightarrow> fuse_in_header \<Rightarrow> byte list \<Rightarrow> byte list \<Rightarrow> u64 \<Rightarrow> byte list \<Rightarrow> bool" where
  "request_mem pb h arg payload commit_id mem \<longleftrightarrow>
     length mem = 288 + pb \<and> load get_fuse_in_header mem off_in_out = Some h \<and>
     length arg \<le> 128 \<and> take (length arg) (drop 128 mem) = arg \<and>
     length payload \<le> pb \<and> take (length payload) (drop 288 mem) = payload \<and>
     (case load get_fuse_uring_ent_in_out mem off_ring_ent of
        None \<Rightarrow> False
      | Some ent \<Rightarrow> ent_commit_id ent = commit_id \<and> unat (ent_payload_sz ent) = length payload) \<and>
     unat (ih_len h) = 40 + length arg + length payload"

text \<open>What the worker makes of the memory, whether or not the lengths add up.\<close>

definition holds_request :: "nat \<Rightarrow> fuse_in_header \<Rightarrow> byte list \<Rightarrow> byte list \<Rightarrow> u64 \<Rightarrow> byte list \<Rightarrow> bool" where
  "holds_request pb h arg payload commit_id mem \<longleftrightarrow>
     length mem = 288 + pb \<and> load get_fuse_in_header mem off_in_out = Some h \<and>
     length arg \<le> 128 \<and> take (length arg) (drop 128 mem) = arg \<and>
     length payload \<le> pb \<and> take (length payload) (drop 288 mem) = payload \<and>
     (case load get_fuse_uring_ent_in_out mem off_ring_ent of
        None \<Rightarrow> False
      | Some ent \<Rightarrow> ent_commit_id ent = commit_id \<and> unat (ent_payload_sz ent) = length payload \<and>
          first_arg_size h (ent_payload_sz ent) = length arg)"

lemma request_mem_holds: "request_mem pb h arg payload cid mem \<Longrightarrow> holds_request pb h arg payload cid mem"
  by (auto simp: request_mem_def holds_request_def first_arg_size_def split: option.splits)

definition entry_replier :: "nat \<Rightarrow> fuse_in_header \<Rightarrow> byte list \<Rightarrow> Replier" where
  "entry_replier pb h mem =
     \<lparr>r_out = drop 288 mem, r_cap = pb, r_len = 0, r_neg_err = 0, r_unique = ih_unique h\<rparr>"

text \<open>The entry after the reply \<open>(err, bs)\<close> has been written.\<close>

definition reply_mem :: "nat \<Rightarrow> fuse_in_header \<Rightarrow> i32 \<Rightarrow> byte list \<Rightarrow> u64 \<Rightarrow> byte list \<Rightarrow> bool" where
  "reply_mem pb h err bs commit_id mem \<longleftrightarrow>
     length mem = 288 + pb \<and>
     load get_fuse_out_header mem off_in_out =
       Some \<lparr>oh_len = word_of_nat (16 + length bs), oh_error = err, oh_unique = ih_unique h\<rparr> \<and>
     take (length bs) (drop 288 mem) = bs \<and>
     (case load get_fuse_uring_ent_in_out mem off_ring_ent of
        None \<Rightarrow> False
      | Some ent \<Rightarrow> ent_commit_id ent = commit_id \<and> ent_payload_sz ent = word_of_nat (length bs))"

lemma entry_replier_ok: "length mem = 288 + pb \<Longrightarrow> replier_ok (entry_replier pb h mem)"
  by (simp add: entry_replier_def replier_ok_def)

text \<open>The members of \<open>ring_ent_in_out\<close>, byte for byte.\<close>

lemma load_ent:
  "288 \<le> length mem \<Longrightarrow> load get_fuse_uring_ent_in_out mem 256 =
     Some \<lparr>ent_flags = le_dec (take 8 (drop 256 mem)), ent_commit_id = le_dec (take 8 (drop 264 mem)),
           ent_payload_sz = le_dec (take 4 (drop 272 mem))\<rparr>"
  by (simp add: load_def get_fuse_uring_ent_in_out_def get64_def get32_def get_word_def skip_def) arith

text \<open>Writing the reply: both stores succeed, and the rest of the buffer stays.\<close>

lemma write_reply_Some:
  assumes "288 \<le> length buf"
  shows "\<exists>buf'. write_reply buf outh n = Some buf' \<and> length buf' = length buf \<and>
    load get_fuse_out_header buf' 0 = Some outh \<and> drop 288 buf' = drop 288 buf \<and>
    load get_fuse_uring_ent_in_out buf' 256 =
      map_option (\<lambda>ent. ent\<lparr>ent_payload_sz := n\<rparr>) (load get_fuse_uring_ent_in_out buf 256)"
proof -
  let ?b = "put_fuse_out_header outh @ take 256 (drop 16 buf) @ put32 n @ drop 276 buf"
  have run: "write_reply buf outh n = Some ?b"
    using assms by (simp add: write_reply_def uring_layout_defs store_def take_drop)
  have ent: "take 8 (drop 256 ?b) = take 8 (drop 256 buf)" "take 8 (drop 264 ?b) = take 8 (drop 264 buf)"
    "take 4 (drop 272 ?b) = put32 n"
    using assms by (simp_all add: drop_take)
  have hd: "load get_fuse_out_header ?b 0 = Some outh"
    by (rule out_header.load_put_0)
  have len: "length ?b = length buf" using assms by simp
  have tl: "drop 288 ?b = drop 288 buf" using assms by simp
  have "load get_fuse_uring_ent_in_out ?b 256 =
      map_option (\<lambda>ent. ent\<lparr>ent_payload_sz := n\<rparr>) (load get_fuse_uring_ent_in_out buf 256)"
    using assms len by (simp add: load_ent ent del: length_append drop_append)
      (simp add: put32_def le_dec_le_enc_full)
  with run hd len tl show ?thesis by blast
qed

text \<open>
  An entry that holds a request is dispatched on exactly the request's body, and the reply
  is written back.
\<close>

lemma handle_one_dispatch:
  assumes e: "entry_ok pb e" "e_buf e = Some mem" and req: "holds_request pb h arg payload cid mem"
    and disp: "dispatch F im h (arg @ payload) (entry_replier pb h mem) = Some (im', r')"
      "replies (entry_replier pb h mem) r'"
    and pb: "16 + pb < 2 ^ 32"
  shows "\<exists>e' mem'. handle_one F pb im e = Some (im', e', word_of_nat (reply_len r')) \<and>
    entry_ok pb e' \<and> e_commit_id e' = cid \<and> e_buf e' = Some mem' \<and>
    reply_mem pb h (r_neg_err r') (reply_bytes r') cid mem'"
proof -
  have len: "length mem = 288 + pb" "length (e_body_scratch e) = 128 + pb"
    using e req by (simp_all add: entry_ok_def holds_request_def)
  from req obtain ent where ent: "load get_fuse_uring_ent_in_out mem 256 = Some ent"
      "ent_commit_id ent = cid" "unat (ent_payload_sz ent) = length payload"
    by (auto simp: holds_request_def uring_layout_defs split: option.splits)
  have h: "load get_fuse_in_header mem 0 = Some h" "length arg \<le> 128" "length payload \<le> pb"
      "take (length arg) (drop 128 mem) = arg" "take (length payload) (drop 288 mem) = payload"
    using req by (simp_all add: holds_request_def uring_layout_defs)
  have first: "first_arg_size h (ent_payload_sz ent) = length arg"
    using req ent by (simp add: holds_request_def uring_layout_defs)
  have pay0: "ent_payload_sz ent = 0 \<longleftrightarrow> payload = []" using ent(3) by (metis length_0_conv unat_eq_0)
  define scratch where "scratch = arg @ payload @ drop (length arg + length payload) (e_body_scratch e)"
  let ?buf = "take 288 mem @ r_out r'"
  let ?n = "reply_len r'"
  have rlen: "length (r_out r') = pb" "?n \<le> pb" "r_unique r' = ih_unique h"
    using disp(2) len by (simp_all add: replies_def entry_replier_def reply_len_def)
  have "288 \<le> length ?buf" using len rlen by simp
  from write_reply_Some [OF this] obtain mem' where
    wr: "write_reply ?buf \<lparr>oh_len = word_of_nat (16 + ?n), oh_error = r_neg_err r', oh_unique = ih_unique h\<rparr>
        (word_of_nat ?n) = Some mem'" "length mem' = 288 + pb"
      "load get_fuse_out_header mem' 0 =
        Some \<lparr>oh_len = word_of_nat (16 + ?n), oh_error = r_neg_err r', oh_unique = ih_unique h\<rparr>"
      "drop 288 mem' = r_out r'"
      "load get_fuse_uring_ent_in_out mem' 256 = map_option (\<lambda>ent. ent\<lparr>ent_payload_sz := word_of_nat ?n\<rparr>)
        (load get_fuse_uring_ent_in_out ?buf 256)"
    using len rlen by fastforce
  have ent': "load get_fuse_uring_ent_in_out ?buf 256 = Some ent"
    using ent(1) len rlen by (simp add: load_ent drop_take)
  let ?e' = "e\<lparr>e_commit_id := cid, e_buf := Some mem', e_body_scratch := scratch\<rparr>"
  have copy: "slice mem 128 (length arg) = Some arg" "slice mem 288 (length payload) = Some payload"
    using len h by (simp_all add: slice_def)
  have scr: "store (e_body_scratch e) 0 arg = Some (arg @ drop (length arg) (e_body_scratch e))"
      "store (arg @ drop (length arg) (e_body_scratch e)) (length arg) payload = Some scratch"
      "take (length arg + length payload) scratch = arg @ payload"
    using len h by (simp_all add: store_def scratch_def add.commute)
  have r: "\<lparr>r_out = drop 288 mem, r_cap = pb, r_len = 0, r_neg_err = 0, r_unique = ih_unique h\<rparr> =
      entry_replier pb h mem" by (simp add: entry_replier_def)
  have n: "(if r_neg_err r' \<noteq> 0 then 0 else r_len r') = ?n"
      "(if r_neg_err r' \<noteq> 0 then 0 else word_of_nat (r_len r')) = (word_of_nat ?n :: u32)"
    by (simp_all add: reply_len_def)
  have "handle_one F pb im e = Some (im', ?e', word_of_nat ?n)"
    unfolding handle_one_def
    using e(2) ent h(1,2,3) first len copy scr disp(1) wr(1) pay0 rlen(3)
    by (cases "payload = []") (simp_all add: uring_layout_defs r n del: store_0)
  moreover have "entry_ok pb ?e'"
    using e(1) wr(2) len h by (simp add: entry_ok_def scratch_def)
  moreover have bytes: "reply_bytes r' = take ?n (r_out r')" "length (reply_bytes r') = ?n"
    using rlen by (simp_all add: reply_bytes_def reply_len_def split: if_splits)
  moreover have "reply_mem pb h (r_neg_err r') (reply_bytes r') cid mem'"
    unfolding reply_mem_def bytes(2) using wr ent ent' bytes(1) rlen
    by (simp add: uring_layout_defs)
  ultimately show ?thesis by auto
qed

definition mem_request :: "byte list \<Rightarrow> (fuse_in_header \<times> nat \<times> byte list \<times> byte list) option" where
  "mem_request mem = do {
     ent \<leftarrow> load get_fuse_uring_ent_in_out mem off_ring_ent;
     h \<leftarrow> load get_fuse_in_header mem off_in_out;
     let n = first_arg_size h (ent_payload_sz ent);
     Some (h, n, take n (drop 128 mem), take (unat (ent_payload_sz ent)) (drop 288 mem))}"

definition mem_commit_id :: "byte list \<Rightarrow> u64" where
  "mem_commit_id mem = (case load get_fuse_uring_ent_in_out mem off_ring_ent of
     None \<Rightarrow> 0 | Some ent \<Rightarrow> ent_commit_id ent)"

text \<open>
  What the worker relies on from the kernel: the payload size it reports is within the
  entry's payload area. And from the request: the condition of the dispatcher.
\<close>

definition mem_ok :: "nat \<Rightarrow> byte list \<Rightarrow> bool" where
  "mem_ok pb mem \<longleftrightarrow> length mem = 288 + pb \<and>
     (case load get_fuse_uring_ent_in_out mem off_ring_ent of
        None \<Rightarrow> False | Some ent \<Rightarrow> unat (ent_payload_sz ent) \<le> pb) \<and>
     (case mem_request mem of
        None \<Rightarrow> False | Some (h, n, arg, payload) \<Rightarrow> n \<le> 128 \<longrightarrow> request_ok h (arg @ payload))"

lemma mem_ok_request:
  assumes "mem_ok pb mem"
  shows "\<exists>h n arg payload. mem_request mem = Some (h, n, arg, payload) \<and>
    (if n \<le> 128 then holds_request pb h arg payload (mem_commit_id mem) mem \<and> request_ok h (arg @ payload)
     else 128 < n)"
proof -
  from assms have len: "length mem = 288 + pb" by (simp add: mem_ok_def)
  then obtain ent where ent: "load get_fuse_uring_ent_in_out mem 256 = Some ent"
    using uring_ent_in_out.load_in_bounds [of 256 mem] by auto
  obtain h where h: "load get_fuse_in_header mem 0 = Some h"
    using len in_header.load_in_bounds [of 0 mem] by auto
  let ?n = "first_arg_size h (ent_payload_sz ent)"
  let ?arg = "take ?n (drop 128 mem)" and ?payload = "take (unat (ent_payload_sz ent)) (drop 288 mem)"
  have req: "mem_request mem = Some (h, ?n, ?arg, ?payload)"
    using ent h by (simp add: mem_request_def uring_layout_defs Let_def)
  moreover have "holds_request pb h ?arg ?payload (mem_commit_id mem) mem \<and> request_ok h (?arg @ ?payload)"
    if "?n \<le> 128"
    using that ent h len assms req by (simp add: mem_ok_def mem_commit_id_def holds_request_def uring_layout_defs)
  ultimately show ?thesis by (metis not_le)
qed

lemma handle_one_rejects:
  assumes e: "entry_ok pb e" "e_buf e = Some mem" and "mem_request mem = Some (h, n, arg, payload)" "128 < n"
  shows "\<exists>e' mem'. handle_one F pb im e = Some (im, e', 0) \<and> entry_ok pb e' \<and>
    e_commit_id e' = mem_commit_id mem \<and> e_buf e' = Some mem' \<and>
    reply_mem pb h (- EIO) [] (mem_commit_id mem) mem'"
proof -
  have len: "length mem = 288 + pb" "length (e_body_scratch e) = 128 + pb"
    using e by (simp_all add: entry_ok_def)
  from assms(3) obtain ent where ent: "load get_fuse_uring_ent_in_out mem 256 = Some ent"
      "load get_fuse_in_header mem 0 = Some h" "first_arg_size h (ent_payload_sz ent) = n"
    by (auto simp: mem_request_def bind_eq_Some_conv uring_layout_defs Let_def)
  let ?oh = "\<lparr>oh_len = 16, oh_error = - EIO, oh_unique = ih_unique h\<rparr>"
  obtain mem' where wr: "write_reply mem ?oh 0 = Some mem'" "length mem' = length mem"
      "load get_fuse_out_header mem' 0 = Some ?oh"
      "load get_fuse_uring_ent_in_out mem' 256 =
        map_option (\<lambda>ent. ent\<lparr>ent_payload_sz := 0\<rparr>) (load get_fuse_uring_ent_in_out mem 256)"
    using write_reply_Some [of mem ?oh 0] len by auto
  let ?e' = "e\<lparr>e_commit_id := ent_commit_id ent, e_buf := Some mem'\<rparr>"
  have "handle_one F pb im e = Some (im, ?e', 0)"
    using e(2) ent wr(1) assms(4) by (simp add: handle_one_def uring_layout_defs)
  moreover have "entry_ok pb ?e'" using e wr(2) len by (simp add: entry_ok_def)
  moreover have "mem_commit_id mem = ent_commit_id ent" using ent by (simp add: mem_commit_id_def uring_layout_defs)
  moreover have "reply_mem pb h (- EIO) [] (ent_commit_id ent) mem'"
    using wr len ent by (simp add: reply_mem_def uring_layout_defs)
  ultimately show ?thesis by auto
qed

context filesystem_contract
begin

lemma handle_one_safe:
  assumes e: "entry_ok pb e" "e_buf e = Some mem" and mem: "mem_ok pb mem" and pb: "16 + pb < 2 ^ 32"
  shows "\<exists>im' e' n. handle_one F pb im e = Some (im', e', n) \<and> entry_ok pb e' \<and> session_frame im im' \<and>
    e_commit_id e' = mem_commit_id mem"
proof -
  obtain h n arg payload where req: "mem_request mem = Some (h, n, arg, payload)"
    "if n \<le> 128 then holds_request pb h arg payload (mem_commit_id mem) mem \<and> request_ok h (arg @ payload)
     else 128 < n"
    using mem_ok_request [OF mem] by blast
  show ?thesis
  proof (cases "n \<le> 128")
    case True
    with req have hr: "holds_request pb h arg payload (mem_commit_id mem) mem" "request_ok h (arg @ payload)"
      by simp_all
    have ok: "replier_ok (entry_replier pb h mem)"
      using hr(1) by (intro entry_replier_ok) (simp add: holds_request_def)
    obtain im' r' where disp: "dispatch F im h (arg @ payload) (entry_replier pb h mem) = Some (im', r')"
        "replies (entry_replier pb h mem) r'" "session_frame im im'"
      using handled_dispatch [OF ok hr(2), of im] unfolding handled_def by blast
    from handle_one_dispatch [OF e hr(1) disp(1,2) pb] disp(3) show ?thesis by blast
  next
    case False
    with req have "128 < n" by simp
    from handle_one_rejects [OF e req(1) this, where F = F and im = im] show ?thesis by auto
  qed
qed

end

subsection \<open>Slots\<close>

text \<open>
  Who owns a slot, read off the log: preparing a command for a slot hands it to the kernel
  (it is armed), its completion hands it back.
\<close>

fun armed_step :: "ring_event \<Rightarrow> nat set \<Rightarrow> nat set" where
  "armed_step (Prepared (UringCmd c)) A = insert (slot_of (uc_user_data c)) A"
| "armed_step (Prepared (PollAdd fd ud)) A = A"
| "armed_step (Completed ud res) A = (if ud = kStopSentinel then A else A - {slot_of ud})"

definition armed :: "ring_event list \<Rightarrow> nat set" where
  "armed log = fold armed_step log {}"

text \<open>The replies posted, and the requests fetched, as (slot, commit id) in order.\<close>

fun commit_of :: "ring_event \<Rightarrow> (nat \<times> u64) option" where
  "commit_of (Prepared (UringCmd c)) =
     (if uc_cmd_op c = FUSE_IO_URING_CMD_COMMIT_AND_FETCH
      then Some (slot_of (uc_user_data c), ucr_commit_id (uc_req c)) else None)"
| "commit_of _ = None"

definition commits :: "ring_event list \<Rightarrow> (nat \<times> u64) list" where
  "commits log = List.map_filter commit_of log"

definition fetch_of :: "nat \<Rightarrow> run_env \<Rightarrow> (nat \<times> u64) option" where
  "fetch_of depth env = (case re_wait env of
     Cqe ud res mem \<Rightarrow>
       if ud \<noteq> kStopSentinel \<and> slot_of ud < depth \<and> 0 \<le> sint res
       then Some (slot_of ud, mem_commit_id mem) else None
   | _ \<Rightarrow> None)"

definition worker_ok :: "'s RingWorker \<Rightarrow> bool" where
  "worker_ok w \<longleftrightarrow> length (w_entries w) = w_depth w \<and> (\<forall>e \<in> set (w_entries w). entry_ok (w_payload_bytes w) e) \<and>
     w_depth w < 2 ^ 32 \<and> 16 + w_payload_bytes w < 2 ^ 32"

text \<open>
  The kernel's side of the contract: a successful completion leaves a request in the buffer.
  \<open>rearm_ok\<close>: an interrupted slot finds a free submission entry.
\<close>

definition env_ok :: "nat \<Rightarrow> run_env \<Rightarrow> bool" where
  "env_ok pb env \<longleftrightarrow> (case re_wait env of
     Cqe ud res mem \<Rightarrow> 0 \<le> sint res \<longrightarrow> mem_ok pb mem | _ \<Rightarrow> True)"

definition rearm_ok :: "run_env \<Rightarrow> bool" where
  "rearm_ok env \<longleftrightarrow> (case re_wait env of
     Cqe ud res mem \<Rightarrow> res = - EINTR \<longrightarrow> re_sqe env | _ \<Rightarrow> True)"

lemma slot_of_make_ud [simp]: "i < 2 ^ 32 \<Longrightarrow> slot_of (make_ud (word_of_nat i)) = i"
  by (simp add: slot_of_def make_ud_def unsigned_ucast_eq unat_of_nat take_bit_nat_eq_self take_bit_word_eq_self)

lemma slot_of_lt: "slot_of ud < 2 ^ 32"
  using unsigned_less [where ?'a = nat, of "ucast ud :: u32"] by (simp add: slot_of_def)

lemma prep_facts [simp]:
  "commit_of (Prepared (prep_register w i)) = None"
  "commit_of (Prepared (prep_commit_and_fetch w i cid n)) = Some (slot_of (make_ud (word_of_nat i)), cid)"
  "armed_step (Prepared (prep_register w i)) A = insert (slot_of (make_ud (word_of_nat i))) A"
  "armed_step (Prepared (prep_commit_and_fetch w i cid n)) A = insert (slot_of (make_ud (word_of_nat i))) A"
  by (simp_all add: prep_register_def prep_commit_and_fetch_def abi_const_defs)

lemma log_event_simps [simp]:
  "w_log (log_event e w) = w_log w @ [e]" "w_entries (log_event e w) = w_entries w"
  "w_impl (log_event e w) = w_impl w" "w_depth (log_event e w) = w_depth w" "w_qid (log_event e w) = w_qid w"
  "w_payload_bytes (log_event e w) = w_payload_bytes w" "w_ec (log_event e w) = w_ec w"
  "w_ring_inited (log_event e w) = w_ring_inited w" "w_unmapped (log_event e w) = w_unmapped w"
  by (simp_all add: log_event_def)

lemma armed_append: "armed (xs @ ys) = fold armed_step ys (armed xs)"
  by (simp add: armed_def)

lemma commits_append: "commits (xs @ ys) = commits xs @ commits ys"
  by (simp add: commits_def map_filter_def)

lemma commits_simps [simp]: "commits [] = []"
  "commits (x # xs) = (case commit_of x of None \<Rightarrow> commits xs | Some c \<Rightarrow> c # commits xs)"
  by (simp_all add: commits_def map_filter_simps split: option.split)

definition same_worker :: "'s RingWorker \<Rightarrow> 's RingWorker \<Rightarrow> bool" where
  "same_worker w w' \<longleftrightarrow> w_depth w' = w_depth w \<and> w_payload_bytes w' = w_payload_bytes w \<and> w_qid w' = w_qid w \<and>
     session_frame (w_impl w) (w_impl w')"

text \<open>What one iteration guarantees: as long as the loop goes on, every request fetched has been
  answered under its commit id and no slot has been lost.\<close>

definition turn :: "'s RingWorker \<Rightarrow> run_env \<Rightarrow> 's RingWorker \<Rightarrow> bool \<Rightarrow> bool" where
  "turn w env w' stop \<longleftrightarrow> worker_ok w' \<and> same_worker w w' \<and>
     (\<not> stop \<longrightarrow> commits (w_log w') = commits (w_log w) @ List.map_filter (fetch_of (w_depth w)) [env] \<and>
       (rearm_ok env \<and> armed (w_log w) = {..<w_depth w} \<longrightarrow> armed (w_log w') = {..<w_depth w}))"

lemma worker_ok_log [simp]: "worker_ok (log_event e w) = worker_ok w"
  by (simp add: worker_ok_def)

lemma worker_ok_ec [simp]: "worker_ok (w\<lparr>w_ec := c\<rparr>) = worker_ok w"
  by (simp add: worker_ok_def)

lemma worker_ok_update:
  assumes "worker_ok w" "entry_ok (w_payload_bytes w) e"
  shows "worker_ok (w\<lparr>w_impl := im, w_entries := (w_entries w)[i := e]\<rparr>)"
  using assms set_update_subset_insert [of "w_entries w" i e] by (auto simp: worker_ok_def)

lemma worker_ok_fill:
  assumes "worker_ok w" "i < w_depth w" "length mem = 288 + w_payload_bytes w"
  shows "worker_ok (kernel_fill i mem w)" "e_buf (w_entries (kernel_fill i mem w) ! i) = Some mem"
proof -
  from assms have i: "i < length (w_entries w)" "entry_ok (w_payload_bytes w) (w_entries w ! i)"
    by (simp_all add: worker_ok_def)
  then have "entry_ok (w_payload_bytes w) ((w_entries w ! i)\<lparr>e_buf := Some mem\<rparr>)"
    using assms(3) by (simp add: entry_ok_def)
  from worker_ok_update [OF assms(1) this, where im = "w_impl w" and i = i] show "worker_ok (kernel_fill i mem w)"
    by (simp add: kernel_fill_def worker_ok_def)
  show "e_buf (w_entries (kernel_fill i mem w) ! i) = Some mem" using i by (simp add: kernel_fill_def)
qed

lemma kernel_fill_simps [simp]:
  "w_log (kernel_fill i mem w) = w_log w" "w_depth (kernel_fill i mem w) = w_depth w"
  "w_payload_bytes (kernel_fill i mem w) = w_payload_bytes w" "w_qid (kernel_fill i mem w) = w_qid w"
  "w_impl (kernel_fill i mem w) = w_impl w" "w_ec (kernel_fill i mem w) = w_ec w"
  by (simp_all add: kernel_fill_def)

context filesystem_contract
begin

lemma serve_answers:
  assumes w: "worker_ok w" "idx < w_depth w" "e_buf (w_entries w ! idx) = Some mem" "mem_ok (w_payload_bytes w) mem"
  shows "\<exists>w' stop. serve F env idx w = Some (w', stop) \<and> worker_ok w' \<and> same_worker w w' \<and>
    (\<not> stop \<longrightarrow> commits (w_log w') = commits (w_log w) @ [(idx, mem_commit_id mem)] \<and>
      armed (w_log w') = insert idx (armed (w_log w)))"
proof -
  from w(1,2) have e: "entry_ok (w_payload_bytes w) (w_entries w ! idx)" and pb: "16 + w_payload_bytes w < 2 ^ 32"
      and idx: "idx < 2 ^ 32"
    by (simp_all add: worker_ok_def)
  obtain im e' n where one: "handle_one F (w_payload_bytes w) (w_impl w) (w_entries w ! idx) = Some (im, e', n)"
      "entry_ok (w_payload_bytes w) e'" "session_frame (w_impl w) im" "e_commit_id e' = mem_commit_id mem"
    using handle_one_safe [OF e w(3,4) pb, of "w_impl w"] by blast
  let ?w = "w\<lparr>w_impl := im, w_entries := (w_entries w)[idx := e']\<rparr>"
  have ok: "worker_ok ?w" by (rule worker_ok_update [OF w(1) one(2)])
  show ?thesis
    using one ok idx
    by (auto simp: serve_def Let_def same_worker_def commits_append armed_append)
qed

lemma run_step_turn:
  assumes w: "worker_ok w" and env: "env_ok (w_payload_bytes w) env"
  shows "\<exists>w' stop. run_step F env w = Some (w', stop) \<and> turn w env w' stop"
proof (cases "re_wait env")
  case (WaitErr rc)
  with w show ?thesis
    by (auto simp: run_step_def turn_def same_worker_def fetch_of_def map_filter_simps)
next
  case (Cqe ud res mem)
  let ?w = "log_event (Completed ud res) w" and ?i = "slot_of ud"
  show ?thesis
  proof (cases "ud \<noteq> kStopSentinel \<and> ?i < w_depth w \<and> 0 \<le> sint res")
    case True
    with env Cqe have mem: "mem_ok (w_payload_bytes w) mem" by (simp add: env_ok_def)
    then have len: "length mem = 288 + w_payload_bytes w" by (simp add: mem_ok_def)
    have i: "?i < w_depth ?w" "length mem = 288 + w_payload_bytes ?w" "worker_ok ?w" using True len w by simp_all
    from worker_ok_fill [OF i(3,1,2)] have fill: "worker_ok (kernel_fill ?i mem ?w)"
      "e_buf (w_entries (kernel_fill ?i mem ?w) ! ?i) = Some mem" by simp_all
    obtain w' stop where sv: "serve F env ?i (kernel_fill ?i mem ?w) = Some (w', stop)" "worker_ok w'"
        "same_worker (kernel_fill ?i mem ?w) w'"
        "\<not> stop \<longrightarrow> commits (w_log w') = commits (w_log w) @ [(?i, mem_commit_id mem)] \<and>
          armed (w_log w') = insert ?i (armed (w_log w) - {?i})"
      using serve_answers [OF fill(1) _ fill(2), of env] True mem
      by (auto simp: commits_append armed_append)
    have "run_step F env w = Some (w', stop)"
      using True Cqe w sv(1) by (simp add: run_step_def worker_ok_def)
    moreover have "turn w env w' stop"
      using sv True Cqe
      by (auto simp: turn_def fetch_of_def map_filter_simps same_worker_def)
    ultimately show ?thesis by blast
  next
    case False
    then have no_fetch: "fetch_of (w_depth w) env = None" using Cqe by (auto simp: fetch_of_def)
    have len: "length (w_entries w) = w_depth w" using w by (simp add: worker_ok_def)
    consider (stop) "ud = kStopSentinel" | (unknown) "ud \<noteq> kStopSentinel" "w_depth w \<le> ?i"
      | (failed) "ud \<noteq> kStopSentinel" "?i < w_depth w" "sint res < 0"
      using False by fastforce
    then show ?thesis
    proof cases
      case stop
      with w Cqe show ?thesis
        by (intro exI [of _ ?w] exI [of _ True]) (simp add: run_step_def turn_def same_worker_def)
    next
      case unknown
      then have "{..<w_depth w} - {?i} = {..<w_depth w}" by auto
      with unknown w Cqe len no_fetch show ?thesis
        by (intro exI [of _ "?w\<lparr>w_ec := EINVAL\<rparr>"] exI [of _ False])
          (simp add: run_step_def turn_def same_worker_def Let_def commits_append armed_append)
    next
      case failed
      then have "insert ?i ({..<w_depth w} - {?i}) = {..<w_depth w}" by auto
      with failed w Cqe len no_fetch slot_of_lt [of ud] show ?thesis
        by (cases "res = - EINTR"; cases "re_sqe env"; cases "res = - ENOTCONN \<or> res = - ENODEV")
          (auto simp: run_step_def turn_def same_worker_def Let_def commits_append armed_append rearm_ok_def
            errno_defs)
    qed
  qed
qed

lemma run_turns:
  assumes "worker_ok w" "\<forall>env \<in> set envs. env_ok (w_payload_bytes w) env"
  shows "\<exists>w' stop. run F envs w = Some (w', stop) \<and> worker_ok w' \<and> same_worker w w' \<and>
    (\<not> stop \<longrightarrow> commits (w_log w') = commits (w_log w) @ List.map_filter (fetch_of (w_depth w)) envs \<and>
      ((\<forall>env \<in> set envs. rearm_ok env) \<and> armed (w_log w) = {..<w_depth w} \<longrightarrow>
        armed (w_log w') = {..<w_depth w}))"
  using assms
proof (induction envs arbitrary: w)
  case Nil
  then show ?case by (auto simp: same_worker_def map_filter_simps)
next
  case (Cons env envs)
  obtain w1 stop where step: "run_step F env w = Some (w1, stop)" "turn w env w1 stop"
    using run_step_turn [OF Cons.prems(1), of env] Cons.prems(2) by auto
  then have w1: "worker_ok w1" "same_worker w w1" by (simp_all add: turn_def)
  show ?case
  proof (cases stop)
    case True
    with step w1 show ?thesis by auto
  next
    case False
    from w1(2) have p: "w_payload_bytes w1 = w_payload_bytes w" "w_depth w1 = w_depth w" by (simp_all add: same_worker_def)
    with Cons.prems(2) have "\<forall>env \<in> set envs. env_ok (w_payload_bytes w1) env" by simp
    from Cons.IH [OF w1(1) this] obtain w' stop' where
      rest: "run F envs w1 = Some (w', stop')" "worker_ok w'" "same_worker w1 w'"
        "\<not> stop' \<longrightarrow> commits (w_log w') = commits (w_log w1) @ List.map_filter (fetch_of (w_depth w)) envs \<and>
          ((\<forall>env \<in> set envs. rearm_ok env) \<and> armed (w_log w1) = {..<w_depth w} \<longrightarrow>
            armed (w_log w') = {..<w_depth w})"
      using p by auto
    have "same_worker w w'"
      using w1(2) rest(3) by (auto simp: same_worker_def intro: session_frame_trans)
    moreover have "List.map_filter (fetch_of (w_depth w)) (env # envs) =
        List.map_filter (fetch_of (w_depth w)) [env] @ List.map_filter (fetch_of (w_depth w)) envs"
      by (simp add: map_filter_simps split: option.split)
    ultimately show ?thesis
      using False step rest by (auto simp: turn_def simp del: map_filter_simps)
  qed
qed

end

subsection \<open>start and teardown\<close>

lemma map_entries_ok:
  assumes "\<forall>i < length es. se_mmap env (k + i) = 0"
  shows "map_entries env pb k es = (map (map_entry pb) es, 0)"
  using assms
proof (induction es arbitrary: k)
  case Nil
  then show ?case by simp
next
  case (Cons e es)
  from Cons.prems have "se_mmap env k = 0" by (metis add.right_neutral length_greater_0_conv list.discI)
  moreover have "\<forall>i < length es. se_mmap env (Suc k + i) = 0"
    using Cons.prems by (metis Suc_less_eq add_Suc add_Suc_right length_Cons)
  ultimately show ?case using Cons.IH [of "Suc k"] by simp
qed

lemma prep_register_log: "prep_register (w\<lparr>w_log := l\<rparr>) i = prep_register w i"
  by (simp add: prep_register_def)

lemma register_all_ok:
  assumes "\<forall>i \<in> set is. se_sqe env (Suc i)"
  shows "register_all env is w = (w\<lparr>w_log := w_log w @ map (\<lambda>i. Prepared (prep_register w i)) is\<rparr>, 0)"
  using assms
proof (induction "is" arbitrary: w)
  case Nil
  then show ?case by simp
next
  case (Cons i "is")
  then show ?case by (simp add: log_event_def prep_register_log)
qed

lemma armed_registers:
  assumes "n < 2 ^ 32"
  shows "armed (Prepared (PollAdd fd ud) # map (\<lambda>i. Prepared (prep_register w i)) [0..<n]) = {..<n}"
  using assms
proof (induction n)
  case 0
  then show ?case by (simp add: armed_def)
next
  case (Suc n)
  then show ?case by (simp add: armed_append del: append_Cons add: append_Cons [symmetric] lessThan_Suc)
qed

lemma mapped_count:
  "length (filter (\<lambda>e. e_buf e \<noteq> None) (fst (map_entries env pb k (replicate n Entry_new)))) =
   length (takeWhile (\<lambda>i. se_mmap env i = 0) [k..<k + n])"
proof (induction n arbitrary: k)
  case 0
  then show ?case by simp
next
  case (Suc n)
  have "[k..<k + Suc n] = k # [Suc k..<Suc k + n]" by (simp add: upt_conv_Cons)
  moreover have "filter (\<lambda>e. e_buf e \<noteq> None) (replicate n Entry_new) = []" by (simp add: Entry_new_def)
  ultimately show ?case
    using Suc.IH [of "Suc k"]
    by (auto simp: map_entry_def Entry_new_def Let_def split: prod.splits simp del: upt_Suc)
qed

lemma start_succeeds:
  assumes "\<forall>i < depth. se_mmap env i = 0" "0 \<le> sint (se_queue_init env)" "\<forall>k \<le> depth. se_sqe env k"
    and "0 \<le> sint (se_submit env)" "depth < 2 ^ 32" "16 + pb < 2 ^ 32"
  shows "\<exists>w. start env (RingWorker_new im qid depth pb) = (w, 0) \<and> worker_ok w \<and> w_ring_inited w \<and> w_depth w = depth \<and> w_payload_bytes w = pb \<and>
    w_log w = Prepared (PollAdd (im_stop_efd im) kStopSentinel) #
      map (\<lambda>i. Prepared (prep_register w i)) [0..<depth] \<and>
    armed (w_log w) = {..<depth} \<and> commits (w_log w) = []"
proof -
  let ?w = "RingWorker_new im qid depth pb"
  let ?es = "map (map_entry pb) (replicate depth Entry_new)"
  let ?w1 = "?w\<lparr>w_entries := ?es, w_ring_inited := True,
    w_log := [Prepared (PollAdd (im_stop_efd im) kStopSentinel)]\<rparr>"
  let ?w2 = "?w1\<lparr>w_log := w_log ?w1 @ map (\<lambda>i. Prepared (prep_register ?w1 i)) [0..<depth]\<rparr>"
  have es: "map_entries env pb 0 (replicate depth Entry_new) = (?es, 0)"
    using assms(1) by (intro map_entries_ok) simp
  have reg: "register_all env [0..<depth] ?w1 = (?w2, 0)"
    using assms(3) by (intro register_all_ok) simp
  have "start env ?w = (?w2, 0)"
    using es reg assms(2-4) by (simp add: start_def RingWorker_new_def log_event_def Let_def)
  moreover have "worker_ok ?w2"
    using assms(5,6) by (simp add: worker_ok_def RingWorker_new_def entry_ok_def map_entry_def uring_layout_defs Let_def)
  moreover have "commits (map (\<lambda>i. Prepared (prep_register ?w1 i)) is) = []" for "is"
    by (induction "is") simp_all
  ultimately show ?thesis
    using armed_registers [OF assms(5), of "im_stop_efd im" kStopSentinel ?w1]
    by (intro exI [of _ ?w2]) (simp add: prep_register_log)
qed

subsection \<open>Properties\<close>

text \<open>
  C3. The transport: when the kernel has laid out a well-formed request in an entry (header,
  first argument in \<open>op_in\<close>, the rest in the payload area), \<open>handle_one\<close> performs exactly
  that request and leaves in the same buffer the reply header with the request's id, the
  error and the total length, the answer at the start of the payload area, and its size;
  the commit id is the kernel's.
\<close>

theorem ring_request_performed:
  assumes "filesystem_contract F" "entry_ok pb e" "e_buf e = Some mem" "16 + pb < 2 ^ 32"
    and "request_mem pb h arg payload cid mem" "arg @ payload = blob @ encode q"
    and "wf_request q" "length blob = ext_bytes h" "blob \<noteq> [] \<longrightarrow> ext_aware q"
    and "ih_opcode h = opcode_val (request_opcode q)"
  shows "\<exists>rv s e' mem'. perform F h (im_fs im) (drop 288 mem) q = Some (rv, s) \<and>
    handle_one F pb im e =
      Some (im\<lparr>im_fs := s\<rparr>, e', word_of_nat (length (snd (answer_of pb rv)))) \<and>
    entry_ok pb e' \<and> e_commit_id e' = cid \<and> e_buf e' = Some mem' \<and>
    reply_mem pb h (fst (answer_of pb rv)) (snd (answer_of pb rv)) cid mem'"
proof -
  let ?r = "entry_replier pb h mem"
  have ok: "replier_ok ?r" using assms(5) by (intro entry_replier_ok) (simp add: request_mem_def)
  have "serves im ?r (dispatch F im h (blob @ encode q) ?r) (perform F h (im_fs im) (r_out ?r) q)"
    by (rule filesystem_contract.serves_dispatch [OF assms(1) ok assms(7-10)])
  then obtain rv s r' where pf: "perform F h (im_fs im) (r_out ?r) q = Some (rv, s)"
    and disp: "dispatch F im h (arg @ payload) ?r = Some (im\<lparr>im_fs := s\<rparr>, r')" "replies ?r r'"
    and ans: "answers ?r r' rv"
    unfolding serves_def assms(6) by blast
  have "answer_of pb rv = (r_neg_err r', reply_bytes r')" "reply_len r' = length (snd (answer_of pb rv))"
    using ans answer_len(1) [OF ok disp(2) ans] by (simp_all add: answers_answer_of entry_replier_def)
  with handle_one_dispatch [OF assms(2,3) request_mem_holds [OF assms(5)] disp assms(4)] pf show ?thesis
    by (auto simp: entry_replier_def)
qed

definition sample_mem :: "byte list" where
  "sample_mem = put_fuse_in_header (sample_header FUSE_RENAME2 21 5) @ zeros 88 @
     put_fuse_rename2_in \<lparr>rni_newdir = 7, rni_flags = 1\<rparr> @ zeros 112 @
     put_fuse_uring_ent_in_out \<lparr>ent_flags = 0, ent_commit_id = 4711, ent_payload_sz = 5\<rparr> @
     [97, 0, 98, 99, 0] @ zeros 27"

definition sample_entry :: Entry where
  "sample_entry = (map_entry 32 Entry_new)\<lparr>e_buf := Some sample_mem\<rparr>"

lemma sample_entry_ok: "entry_ok 32 sample_entry" "e_buf sample_entry = Some sample_mem"
  by (simp_all add: entry_ok_def sample_entry_def map_entry_def Let_def uring_layout_defs sample_mem_def)

lemma sample_mem_request:
  "request_mem 32 (sample_header FUSE_RENAME2 21 5) (put_fuse_rename2_in \<lparr>rni_newdir = 7, rni_flags = 1\<rparr>)
     [97, 0, 98, 99, 0] 4711 sample_mem"
  by (simp add: request_mem_def sample_mem_def uring_layout_defs load_def sample_header_def)

theorem ring_request_performed_witness:
  "\<exists>e' mem'. handle_one journal_fs 32 sample_impl sample_entry =
      Some (sample_impl\<lparr>im_fs := [(5, [97], 7, [98, 99], 1)]\<rparr>, e', 0) \<and>
    e_commit_id e' = 4711 \<and> e_buf e' = Some mem' \<and>
    load get_fuse_out_header mem' 0 = Some \<lparr>oh_len = 16, oh_error = 0, oh_unique = 77\<rparr>"
proof -
  have "put_fuse_rename2_in \<lparr>rni_newdir = 7, rni_flags = 1\<rparr> @ [97, 0, 98, 99, 0] =
      [] @ encode (Rename2 \<lparr>rni_newdir = 7, rni_flags = 1\<rparr> [97] [98, 99])"
    by (simp add: cstr_def)
  from ring_request_performed [OF journal.filesystem_contract_axioms sample_entry_ok _ sample_mem_request this,
      of sample_impl]
  show ?thesis
    by (auto simp: answer_unit_def reply_mem_def uring_layout_defs) (simp add: sample_header_def)
qed

text \<open>
  The worker loop, over any sequence of completions in which the kernel keeps the payload
  size within the entry: it never accesses memory out of bounds; and as long as it has not
  stopped, the replies it has posted are exactly the requests it has fetched, in order, each
  once and under its own commit id, and (provided interrupted slots find a submission entry)
  every slot is armed again.
\<close>

theorem worker_answers_all:
  assumes "filesystem_contract F" "worker_ok w" "\<forall>env \<in> set envs. env_ok (w_payload_bytes w) env"
  shows "\<exists>w' stop. run F envs w = Some (w', stop) \<and> worker_ok w' \<and>
    (\<not> stop \<longrightarrow> commits (w_log w') = commits (w_log w) @ List.map_filter (fetch_of (w_depth w)) envs \<and>
      ((\<forall>env \<in> set envs. rearm_ok env) \<and> armed (w_log w) = {..<w_depth w} \<longrightarrow>
        armed (w_log w') = {..<w_depth w}))"
  using filesystem_contract.run_turns [OF assms] by blast

text \<open>
  C23. \<open>start\<close> succeeds when the buffers can be mapped, the ring can be created with its
  \<open>depth + 1\<close> submission entries and the submission is accepted: then every entry has its
  buffer, scratch area and two-segment iovec, the stop poll is queued first, and exactly one
  \<open>REGISTER\<close> per slot follows, so every slot is armed.
\<close>

theorem start_arms_all:
  assumes "\<forall>i < depth. se_mmap env i = 0" "0 \<le> sint (se_queue_init env)" "\<forall>k \<le> depth. se_sqe env k"
    and "0 \<le> sint (se_submit env)" "depth < 2 ^ 32" "16 + pb < 2 ^ 32"
  shows "\<exists>w. start env (RingWorker_new im qid depth pb) = (w, 0) \<and> worker_ok w \<and> w_ring_inited w \<and>
    w_log w = Prepared (PollAdd (im_stop_efd im) kStopSentinel) #
      map (\<lambda>i. Prepared (prep_register w i)) [0..<depth] \<and>
    armed (w_log w) = {..<depth} \<and> commits (w_log w) = []"
  using start_succeeds [OF assms, of im qid] by blast

definition sample_start_env :: start_env where
  "sample_start_env = \<lparr>se_mmap = (\<lambda>i. 0), se_queue_init = 0, se_sqe = (\<lambda>k. True), se_submit = 2\<rparr>"

theorem start_arms_all_witness:
  "\<exists>w. start sample_start_env (RingWorker_new sample_impl 3 2 32) = (w, 0) \<and> worker_ok w \<and>
    armed (w_log w) = {0, 1}"
proof -
  have "{..<2 :: nat} = {0, 1}" by auto
  with start_arms_all [of 2 sample_start_env 32 sample_impl 3] show ?thesis
    by (auto simp: sample_start_env_def)
qed

definition sample_worker :: "journal RingWorker" where
  "sample_worker = fst (start sample_start_env (RingWorker_new sample_impl 3 1 32))"

lemma sample_worker_facts:
  "worker_ok sample_worker" "w_payload_bytes sample_worker = 32" "w_depth sample_worker = 1"
  "commits (w_log sample_worker) = []" "armed (w_log sample_worker) = {0}"
proof -
  obtain w where "start sample_start_env (RingWorker_new sample_impl 3 1 32) = (w, 0)" "worker_ok w"
      "w_payload_bytes w = 32" "w_depth w = 1" "commits (w_log w) = []" "armed (w_log w) = {..<1}"
    using start_succeeds [of 1 sample_start_env 32 sample_impl 3] by (auto simp: sample_start_env_def)
  moreover have "{..<1 :: nat} = {0}" by auto
  ultimately show "worker_ok sample_worker" "w_payload_bytes sample_worker = 32" "w_depth sample_worker = 1"
    "commits (w_log sample_worker) = []" "armed (w_log sample_worker) = {0}"
    by (simp_all add: sample_worker_def)
qed

definition sample_turn :: run_env where
  "sample_turn = \<lparr>re_wait = Cqe 0 0 sample_mem, re_sqe = True, re_sqe_retry = False, re_submit = 1\<rparr>"

lemma sample_turn_ok: "env_ok 32 sample_turn"
  by (simp add: env_ok_def sample_turn_def mem_ok_def mem_request_def sample_mem_def uring_layout_defs load_def
      Let_def request_ok_def ext_ok_def)

theorem worker_answers_all_witness:
  "\<exists>w' stop. run journal_fs [sample_turn] sample_worker = Some (w', stop) \<and>
    (\<not> stop \<longrightarrow> commits (w_log w') = [(0, 4711)] \<and> armed (w_log w') = {0})"
proof -
  have fetch: "List.map_filter (fetch_of 1) [sample_turn] = [(0, 4711)]"
    by (simp add: map_filter_simps fetch_of_def sample_turn_def slot_of_def kStopSentinel_def mem_commit_id_def
        sample_mem_def uring_layout_defs load_def)
  have "rearm_ok sample_turn" by (simp add: rearm_ok_def sample_turn_def)
  moreover have "{..<1 :: nat} = {0}" by auto
  ultimately show ?thesis
    using worker_answers_all [OF journal.filesystem_contract_axioms sample_worker_facts(1), of "[sample_turn]"]
      sample_turn_ok sample_worker_facts fetch by auto
qed

lemma run_append:
  "run F (xs @ ys) w = (case run F xs w of None \<Rightarrow> None | Some (w', True) \<Rightarrow> Some (w', True)
     | Some (w', False) \<Rightarrow> run F ys w')"
  by (induction xs arbitrary: w) (auto simp: split_def split: option.splits bool.splits prod.splits Option.bind_splits)

text \<open>
  The stop poll ends the loop: after its completion nothing more is submitted, no further
  completion is looked at, and no error is recorded.
\<close>

theorem stop_ends_worker:
  assumes "run F envs w = Some (w', False)" "re_wait env = Cqe kStopSentinel res mem"
  shows "run F (envs @ env # later) w = Some (w'\<lparr>w_log := w_log w' @ [Completed kStopSentinel res]\<rparr>, True)"
  using assms by (simp add: run_append run_step_def log_event_def)

theorem stop_ends_worker_witness:
  "run journal_fs ([] @ sample_turn\<lparr>re_wait := Cqe kStopSentinel 1 []\<rparr> # [sample_turn]) sample_worker =
     Some (sample_worker\<lparr>w_log := w_log sample_worker @ [Completed kStopSentinel 1]\<rparr>, True)"
  using stop_ends_worker [of journal_fs "[]" sample_worker sample_worker "sample_turn\<lparr>re_wait := Cqe kStopSentinel 1 []\<rparr>"
      1 "[]" "[sample_turn]"]
  by simp

text \<open>
  C36. A slot can be lost: when a fetch is interrupted and the ring has no free submission
  entry, the worker neither re-arms the slot nor records an error nor stops; the slot stays
  unarmed.
\<close>

theorem interrupted_slot_lost:
  assumes "worker_ok w" "re_wait env = Cqe ud (- EINTR) mem" "slot_of ud < w_depth w" "ud \<noteq> kStopSentinel"
    and "\<not> re_sqe env"
  shows "\<exists>w'. run_step F env w = Some (w', False) \<and> w_ec w' = w_ec w \<and>
    armed (w_log w') = armed (w_log w) - {slot_of ud} \<and> commits (w_log w') = commits (w_log w)"
  using assms
  by (simp add: run_step_def worker_ok_def Let_def armed_append commits_append errno_defs)

theorem interrupted_slot_lost_witness:
  "\<exists>w'. run_step journal_fs \<lparr>re_wait = Cqe 0 (- EINTR) [], re_sqe = False, re_sqe_retry = False, re_submit = 0\<rparr>
      sample_worker = Some (w', False) \<and> armed (w_log w') = {}"
  using interrupted_slot_lost [OF sample_worker_facts(1), of
      "\<lparr>re_wait = Cqe 0 (- EINTR) [], re_sqe = False, re_sqe_retry = False, re_submit = 0\<rparr>" 0 "[]" journal_fs]
    sample_worker_facts
  by (auto simp: slot_of_def kStopSentinel_def)

text \<open>
  A request whose first argument would not fit \<open>op_in\<close> is not dispatched: the entry gets an
  \<open>EIO\<close> reply with the request's id and commit id, and the session is untouched.
\<close>

theorem oversized_argument_refused:
  assumes "entry_ok pb e" "e_buf e = Some mem" "mem_request mem = Some (h, n, arg, payload)" "128 < n"
  shows "\<exists>e' mem'. handle_one F pb im e = Some (im, e', 0) \<and> entry_ok pb e' \<and>
    e_commit_id e' = mem_commit_id mem \<and> e_buf e' = Some mem' \<and>
    reply_mem pb h (- EIO) [] (mem_commit_id mem) mem'"
  by (rule handle_one_rejects [OF assms])

definition oversized_mem :: "byte list" where
  "oversized_mem = put_fuse_in_header (sample_header FUSE_RENAME2 200 5) @ zeros 88 @ zeros 128 @
     put_fuse_uring_ent_in_out \<lparr>ent_flags = 0, ent_commit_id = 4712, ent_payload_sz = 5\<rparr> @ zeros 32"

theorem oversized_argument_refused_witness:
  "\<exists>e' mem'. handle_one journal_fs 32 sample_impl (sample_entry\<lparr>e_buf := Some oversized_mem\<rparr>) = Some (sample_impl, e', 0) \<and>
    e_commit_id e' = 4712 \<and> e_buf e' = Some mem' \<and>
    load get_fuse_out_header mem' 0 = Some \<lparr>oh_len = 16, oh_error = - EIO, oh_unique = 77\<rparr>"
proof -
  let ?h = "sample_header FUSE_RENAME2 200 5" and ?e = "sample_entry\<lparr>e_buf := Some oversized_mem\<rparr>"
  have ok: "entry_ok 32 ?e" "e_buf ?e = Some oversized_mem"
    using sample_entry_ok(1) by (simp_all add: entry_ok_def oversized_mem_def)
  have req: "mem_request oversized_mem = Some (?h, 195, take 195 (drop 128 oversized_mem), take 5 (drop 288 oversized_mem))"
    by (simp add: mem_request_def oversized_mem_def uring_layout_defs load_def first_arg_size_def Let_def)
      (simp add: sample_header_def)
  have "mem_commit_id oversized_mem = 4712"
    by (simp add: mem_commit_id_def oversized_mem_def uring_layout_defs load_def)
  with oversized_argument_refused [OF ok req, of journal_fs sample_impl] show ?thesis
    by (auto simp: reply_mem_def uring_layout_defs) (simp add: sample_header_def)
qed

text \<open>
  C35. The bound that \<open>handle_one\<close> checks is that of its scratch area, which is 128 bytes larger
  than the payload area: when the reported payload size exceeds the payload area by at most
  128 and the header's length does not cover it, the check passes and the copy of the
  payload reads past the end of the entry's buffer.
\<close>

theorem payload_copy_overread:
  assumes "entry_ok pb e" "e_buf e = Some mem" "load get_fuse_uring_ent_in_out mem off_ring_ent = Some ent"
    and "load get_fuse_in_header mem off_in_out = Some h" "unat (ih_len h) < 40 + unat (ent_payload_sz ent)"
    and "pb < unat (ent_payload_sz ent)" "unat (ent_payload_sz ent) \<le> pb + 128"
  shows "handle_one F pb im e = None"
proof -
  have len: "length mem = 288 + pb" "length (e_body_scratch e) = 128 + pb"
    using assms(1,2) by (simp_all add: entry_ok_def)
  have "ent_payload_sz ent \<noteq> 0" using assms(6) by auto
  with assms len show ?thesis
    by (simp add: handle_one_def first_arg_size_def uring_layout_defs slice_def)
qed

definition overread_mem :: "byte list" where
  "overread_mem = put_fuse_in_header (sample_header FUSE_WRITE 0 5) @ zeros 88 @ zeros 128 @
     put_fuse_uring_ent_in_out \<lparr>ent_flags = 0, ent_commit_id = 1, ent_payload_sz = 33\<rparr> @ zeros 32"

theorem payload_copy_overread_witness:
  "handle_one journal_fs 32 sample_impl (sample_entry\<lparr>e_buf := Some overread_mem\<rparr>) = None"
proof (rule payload_copy_overread)
  show "entry_ok 32 (sample_entry\<lparr>e_buf := Some overread_mem\<rparr>)"
    using sample_entry_ok(1) by (simp add: entry_ok_def overread_mem_def)
  show "load get_fuse_uring_ent_in_out overread_mem off_ring_ent =
      Some \<lparr>ent_flags = 0, ent_commit_id = 1, ent_payload_sz = 33\<rparr>"
    "load get_fuse_in_header overread_mem off_in_out = Some (sample_header FUSE_WRITE 0 5)"
    by (simp_all add: overread_mem_def uring_layout_defs load_def)
qed (simp_all add: sample_header_def)

text \<open>
  Teardown, whether \<open>start\<close> succeeded or failed half-way: it unmaps exactly the buffers
  that \<open>start\<close> managed to map before the first failing \<open>mmap\<close>, and a second teardown unmaps
  nothing.
\<close>

theorem teardown_unmaps_once:
  "w_unmapped (teardown (fst (start env (RingWorker_new im qid depth pb)))) =
     length (takeWhile (\<lambda>i. se_mmap env i = 0) [0..<depth]) \<and>
   w_unmapped (teardown (teardown w)) = w_unmapped (teardown w)"
proof -
  have reg: "w_entries (fst (register_all env is v)) = w_entries v"
      "w_unmapped (fst (register_all env is v)) = w_unmapped v" for "is" and v :: "'a RingWorker"
    by (induction env "is" v rule: register_all.induct) simp_all
  let ?w = "fst (start env (RingWorker_new im qid depth pb))"
  obtain es err where es: "map_entries env pb 0 (replicate depth Entry_new) = (es, err)" by fastforce
  have "w_entries ?w = es" "w_unmapped ?w = 0"
    using es reg [of "[0..<depth]"]
    by (auto simp: start_def Let_def RingWorker_new_def split_def)
  with mapped_count [of env pb 0 depth] es show ?thesis by (simp add: teardown_def)
qed

end
