(* ===== verification/Session.thy ===== *)
theory Session
  imports Uring_Worker Mount
begin

text \<open>
  The session: \<open>Session::run\<close>, \<open>Session::stop\<close> and the destructor (\<open>src/session.cpp\<close>),
  composed from the mount phases and the ring workers.

  The threads are a schedule: a list of steps, each one iteration of a worker's loop on the
  shared \<open>Session::Impl\<close>, or a call of \<open>stop\<close> by some other thread. The schedule and the
  results of the system calls are inputs. \<open>run\<close> joins the workers, so it returns only if
  the schedule has ended every loop; otherwise it is \<open>Blocked\<close>. \<^term>\<open>None\<close> is an invalid
  memory access in a worker. The messages printed are left out.
\<close>

subsection \<open>stop and the destructor\<close>

definition session_stop :: "'s Impl \<Rightarrow> sys_event list \<times> 's Impl" where
  "session_stop im =
     (if UniqueFd_valid (im_stop_efd im) then [Sys_write_efd (im_stop_efd im)] else [],
      im\<lparr>im_stopping := True\<rparr>)"

text \<open>The members of \<open>Impl\<close> are destroyed in reverse order of their declaration.\<close>

definition session_destroy :: "'s Impl \<Rightarrow> sys_event list" where
  "session_destroy im = UniqueFd_destroy (im_stop_efd im) @ UniqueFd_destroy (im_dev_fd im)"

definition device_fd :: "'s Impl \<Rightarrow> int" where
  "device_fd im = im_dev_fd im"

subsection \<open>The workers of a session\<close>

text \<open>The flag of a worker tells that its loop has ended.\<close>

record 's pool =
  p_impl :: "'s Impl"
  p_workers :: "('s RingWorker \<times> bool) list"
  p_trace :: "sys_event list"

datatype sched = Turn nat run_env | Stop_call

definition pool_turn :: "'s Filesystem \<Rightarrow> nat \<Rightarrow> run_env \<Rightarrow> 's pool \<Rightarrow> 's pool option" where
  "pool_turn F q env p =
     (if q < length (p_workers p) \<and> \<not> snd (p_workers p ! q)
      then do {
        (w, stop) \<leftarrow> run_step F env ((fst (p_workers p ! q))\<lparr>w_impl := p_impl p\<rparr>);
        Some (p\<lparr>p_impl := w_impl w, p_workers := (p_workers p)[q := (w, stop)]\<rparr>)}
      else Some p)"

definition pool_stop :: "'s pool \<Rightarrow> 's pool" where
  "pool_stop p = (case session_stop (p_impl p) of (evs, im) \<Rightarrow> p\<lparr>p_impl := im, p_trace := p_trace p @ evs\<rparr>)"

fun pool_run :: "'s Filesystem \<Rightarrow> sched list \<Rightarrow> 's pool \<Rightarrow> 's pool option" where
  "pool_run F [] p = Some p"
| "pool_run F (Turn q env # ts) p = do { p' \<leftarrow> pool_turn F q env p; pool_run F ts p' }"
| "pool_run F (Stop_call # ts) p = pool_run F ts (pool_stop p)"

definition all_stopped :: "'s pool \<Rightarrow> bool" where
  "all_stopped p \<longleftrightarrow> (\<forall>x \<in> set (p_workers p). snd x)"

subsection \<open>run\<close>

text \<open>
  \<open>v_hw\<close>: \<open>hardware_concurrency\<close>; \<open>v_boot\<close>: the steps taken while the mount thread is in
  progress; \<open>v_serve\<close>: the steps taken after it.
\<close>

record session_env =
  v_device :: device_env
  v_eventfd :: sysret
  v_mount :: mount_env
  v_hw :: nat
  v_start :: "nat \<Rightarrow> start_env"
  v_boot :: "sched list"
  v_serve :: "sched list"

definition num_queues :: "nat \<Rightarrow> nat \<Rightarrow> nat" where
  "num_queues uring_queues hw =
     (if uring_queues = 0 then max 1 (min (if hw \<noteq> 0 then hw else 4) 32) else uring_queues)"

text \<open>Step 1: the device.\<close>

definition acquire_device :: "session_env \<Rightarrow> 's Impl \<Rightarrow> sys_event list \<times> i32 \<times> 's Impl" where
  "acquire_device env im =
     (if opt_dev_fd (im_opts im) \<ge> 0
      then case UniqueFd_assign (im_dev_fd im) (opt_dev_fd (im_opts im)) of (evs, fd, _) \<Rightarrow>
        (evs, 0, im\<lparr>im_dev_fd := fd, im_opts := (im_opts im)\<lparr>opt_dev_fd := -1\<rparr>\<rparr>)
      else case open_fex_device (v_device env) of
          (evs, Inl e) \<Rightarrow> (evs, e, im)
        | (evs, Inr dev) \<Rightarrow>
            (case UniqueFd_assign (im_dev_fd im) dev of (cevs, fd, _) \<Rightarrow>
              (evs @ cevs, 0, im\<lparr>im_dev_fd := fd\<rparr>)))"

text \<open>Step 3: the workers started before the first failure; a failed one is destroyed at once.\<close>

fun start_workers :: "session_env \<Rightarrow> 's Impl \<Rightarrow> nat list \<Rightarrow> sys_event list \<times> 's RingWorker list \<times> i32" where
  "start_workers env im [] = ([], [], 0)"
| "start_workers env im (q # qs) =
     (case start (v_start env q)
             (RingWorker_new im (word_of_nat q) (opt_uring_queue_depth (im_opts im))
                (opt_uring_payload_bytes (im_opts im))) of
        (w, ec) \<Rightarrow>
          if ec \<noteq> 0 then ([Worker_start q ec, Worker_teardown q], [], ec)
          else case start_workers env im qs of
            (evs, ws, ec) \<Rightarrow> (Worker_start q 0 # evs, w # ws, ec))"

datatype run_result = Returned i32 | Blocked

text \<open>
  \<open>UmountOnExit\<close>: the device is closed before the mount is dropped. A failure of \<open>umount2\<close>
  is only printed.
\<close>

definition umount_on_exit :: "'s Impl \<Rightarrow> sys_event list \<times> 's Impl" where
  "umount_on_exit im =
     (if \<not> im_mount_installed im then ([], im)
      else case UniqueFd_reset (im_dev_fd im) (-1) of (evs, fd) \<Rightarrow>
        (evs @ [Sys_umount2 (opt_mountpoint (im_opts im))],
         im\<lparr>im_dev_fd := fd, im_mount_installed := False\<rparr>))"

text \<open>
  Leaving \<open>run\<close> with \<open>n\<close> workers and the descriptor \<open>fsfd\<close> (-1 once it was handed to the mount
  thread): the locals are destroyed in reverse order, the guard last.
\<close>

definition leave :: "nat \<Rightarrow> int \<Rightarrow> i32 \<Rightarrow> sys_event list \<Rightarrow> 's Impl \<Rightarrow> run_result \<times> sys_event list \<times> 's Impl" where
  "leave n fsfd ec evs im = (case umount_on_exit im of (uevs, im) \<Rightarrow>
     (Returned ec, evs @ map Worker_teardown [0..<n] @ UniqueFd_destroy fsfd @ uevs, im))"

definition join_all :: "'s pool \<Rightarrow> sys_event list" where
  "join_all p = map Worker_join [0..<length (p_workers p)]"

definition join_and_leave :: "i32 \<Rightarrow> 's pool \<Rightarrow> run_result \<times> sys_event list \<times> 's Impl" where
  "join_and_leave ec p =
     (if all_stopped p then leave (length (p_workers p)) (-1) ec (p_trace p @ join_all p) (p_impl p)
      else (Blocked, p_trace p, p_impl p))"

text \<open>The first error a worker recorded.\<close>

definition worker_error :: "'s pool \<Rightarrow> i32" where
  "worker_error p = (case filter (\<lambda>ec. ec \<noteq> 0) (map (w_ec \<circ> fst) (p_workers p)) of
     [] \<Rightarrow> 0 | ec # _ \<Rightarrow> ec)"

definition drain :: "'s Filesystem \<Rightarrow> 's pool \<Rightarrow> run_result \<times> sys_event list \<times> 's Impl" where
  "drain F p =
     (if all_stopped p
      then leave (length (p_workers p)) (-1) (worker_error p) (p_trace p @ join_all p @ [Fs_destroy])
        ((p_impl p)\<lparr>im_fs := fs_destroy F (im_fs (p_impl p))\<rparr>)
      else (Blocked, p_trace p, p_impl p))"

text \<open>Steps 4 and 5: the mount thread, then waiting for the workers.\<close>

definition serve_session :: "'s Filesystem \<Rightarrow> session_env \<Rightarrow> int \<Rightarrow> 's pool \<Rightarrow>
    (run_result \<times> sys_event list \<times> 's Impl) option" where
  "serve_session F env fsfd p = do {
     p \<leftarrow> pool_run F (v_boot env) p;
     let (mevs, mount_ec, im) = mount_create_and_finish (v_mount env) fsfd (p_impl p);
     let im = (if mount_ec \<noteq> 0 then im\<lparr>im_stopping := True\<rparr> else im);
     let p = p\<lparr>p_impl := im, p_trace := p_trace p @ mevs\<rparr>;
     if mount_ec \<noteq> 0
     then map_option (join_and_leave mount_ec) (pool_run F (v_serve env) (pool_stop p))
     else if im_stopping im
     then map_option (join_and_leave 0) (pool_run F (v_serve env) p)
     else if \<not> im_init_done im
     then map_option (join_and_leave 0) (pool_run F (v_serve env) (pool_stop p))
     else map_option (drain F) (pool_run F (v_serve env) p)}"

text \<open>Step 3: spawning the workers; a failure stops and joins those already started.\<close>

definition launch_session :: "'s Filesystem \<Rightarrow> session_env \<Rightarrow> int \<Rightarrow> sys_event list \<Rightarrow> 's Impl \<Rightarrow>
    (run_result \<times> sys_event list \<times> 's Impl) option" where
  "launch_session F env fsfd evs im =
     (let nqueues = num_queues (opt_uring_queues (im_opts im)) (v_hw env) in
      case start_workers env im [0..<nqueues] of (wevs, ws, worker_start_ec) \<Rightarrow>
        if worker_start_ec \<noteq> 0
        then case session_stop im of (sevs, im) \<Rightarrow>
          Some (leave (length ws) fsfd worker_start_ec
            (evs @ wevs @ sevs @ map Worker_join [0..<length ws]) im)
        else serve_session F env fsfd
          \<lparr>p_impl = im, p_workers = map (\<lambda>w. (w, False)) ws, p_trace = evs @ wevs\<rparr>)"

definition session_run :: "'s Filesystem \<Rightarrow> 's \<Rightarrow> session_env \<Rightarrow> 's Impl \<Rightarrow>
    (run_result \<times> sys_event list \<times> 's Impl) option" where
  "session_run F s env im =
     (case acquire_device env (im\<lparr>im_fs := s\<rparr>) of (devs, ec, im) \<Rightarrow>
      if ec \<noteq> 0 then Some (leave 0 (-1) ec devs im)
      else case v_eventfd env of
        Inl e \<Rightarrow> Some (leave 0 (-1) e (devs @ [Sys_eventfd (Inl e)]) im)
      | Inr efd \<Rightarrow>
          (case UniqueFd_assign (im_stop_efd im) efd of (cevs, fd, _) \<Rightarrow>
           let evs = devs @ [Sys_eventfd (Inr efd)] @ cevs; im = im\<lparr>im_stop_efd := fd\<rparr> in
           case mount_open_and_set_fd (v_mount env) im of
             (mevs, Inl e) \<Rightarrow> Some (leave 0 (-1) e (evs @ mevs) im)
           | (mevs, Inr fsfd) \<Rightarrow> launch_session F env fsfd (evs @ mevs) im))"

subsection \<open>Interleaved workers\<close>

text \<open>The turns of one queue in a schedule; what the kernel promises of each turn.\<close>

fun turn_of :: "nat \<Rightarrow> sched \<Rightarrow> run_env option" where
  "turn_of q (Turn k env) = (if k = q then Some env else None)"
| "turn_of q Stop_call = None"

definition turns_of :: "nat \<Rightarrow> sched list \<Rightarrow> run_env list" where
  "turns_of q ts = List.map_filter (turn_of q) ts"

fun sched_ok :: "nat \<Rightarrow> sched \<Rightarrow> bool" where
  "sched_ok pb (Turn q env) = env_ok pb env"
| "sched_ok pb Stop_call = True"

definition pool_ok :: "nat \<Rightarrow> 's pool \<Rightarrow> bool" where
  "pool_ok pb p \<longleftrightarrow> (\<forall>x \<in> set (p_workers p). worker_ok (fst x) \<and> w_payload_bytes (fst x) = pb)"

text \<open>What the workers and \<open>stop\<close> may change of the shared state.\<close>

definition pool_frame :: "'s Impl \<Rightarrow> 's Impl \<Rightarrow> bool" where
  "pool_frame im im' \<longleftrightarrow>
     im' = im\<lparr>im_fs := im_fs im', im_init_done := im_init_done im', im_stopping := im_stopping im'\<rparr>"

text \<open>
  The progress of one worker over some of its turns: once ended it stays as it is; while it
  runs, the replies it has posted are exactly the requests it has fetched, and its slots are
  armed again.
\<close>

definition progress :: "run_env list \<Rightarrow> 's RingWorker \<times> bool \<Rightarrow> 's RingWorker \<times> bool \<Rightarrow> bool" where
  "progress envs x y \<longleftrightarrow> w_depth (fst y) = w_depth (fst x) \<and> (snd x \<longrightarrow> y = x) \<and>
     (\<not> snd y \<longrightarrow>
       commits (w_log (fst y)) = commits (w_log (fst x)) @ List.map_filter (fetch_of (w_depth (fst x))) envs \<and>
       ((\<forall>env \<in> set envs. rearm_ok env) \<and> armed (w_log (fst x)) = {..<w_depth (fst x)} \<longrightarrow>
         armed (w_log (fst y)) = {..<w_depth (fst x)}))"

definition ends_loop :: "run_env \<Rightarrow> bool" where
  "ends_loop env \<longleftrightarrow> (case re_wait env of
     WaitErr rc \<Rightarrow> rc \<noteq> - EINTR | Cqe ud res mem \<Rightarrow> ud = kStopSentinel)"

lemma map_filter_append: "List.map_filter f (xs @ ys) = List.map_filter f xs @ List.map_filter f ys"
  by (simp add: map_filter_def)

lemma turns_of_Cons [simp]:
  "turns_of q [] = []" "turns_of q (Stop_call # ts) = turns_of q ts"
  "turns_of q (Turn k env # ts) = (if k = q then env # turns_of q ts else turns_of q ts)"
  by (simp_all add: turns_of_def map_filter_simps)

lemma progress_refl: "progress [] x x"
  by (simp add: progress_def map_filter_simps)

lemma progress_trans: "progress as x y \<Longrightarrow> progress bs y z \<Longrightarrow> progress (as @ bs) x z"
  by (cases "snd y") (auto simp: progress_def map_filter_append)

lemma pool_frame_refl [simp]: "pool_frame im im"
  by (simp add: pool_frame_def)

lemma pool_frame_stop [simp]: "pool_frame im (im\<lparr>im_stopping := b\<rparr>)"
  by (simp add: pool_frame_def)

lemma pool_frame_session: "session_frame im im' \<Longrightarrow> pool_frame im im'"
proof -
  assume "session_frame im im'"
  then obtain s i where "im' = im\<lparr>im_fs := s, im_init_done := i\<rparr>" unfolding session_frame_def by blast
  then show ?thesis by (simp add: pool_frame_def)
qed

lemma pool_frameE:
  assumes "pool_frame im im'"
  obtains s i b where "im' = im\<lparr>im_fs := s, im_init_done := i, im_stopping := b\<rparr>"
  using assms unfolding pool_frame_def by blast

lemma pool_frame_trans: "pool_frame a b \<Longrightarrow> pool_frame b c \<Longrightarrow> pool_frame a c"
  by (elim pool_frameE) (simp add: pool_frame_def)

lemma pool_frame_sel:
  assumes "pool_frame a b"
  shows "im_opts b = im_opts a" "im_dev_fd b = im_dev_fd a" "im_stop_efd b = im_stop_efd a"
    "im_mount_installed b = im_mount_installed a"
  using assms by (auto elim: pool_frameE)

lemma pool_stop_simps [simp]:
  "p_workers (pool_stop p) = p_workers p" "p_impl (pool_stop p) = (p_impl p)\<lparr>im_stopping := True\<rparr>"
  "p_trace (pool_stop p) = p_trace p @
     (if im_stop_efd (p_impl p) \<ge> 0 then [Sys_write_efd (im_stop_efd (p_impl p))] else [])"
  by (simp_all add: pool_stop_def session_stop_def UniqueFd_valid_def)

lemma worker_ok_impl [simp]: "worker_ok (w\<lparr>w_impl := im\<rparr>) = worker_ok w"
  by (simp add: worker_ok_def)

text \<open>One step of the schedule.\<close>

definition pool_rel :: "nat \<Rightarrow> sched list \<Rightarrow> 's pool \<Rightarrow> 's pool \<Rightarrow> bool" where
  "pool_rel pb ts p p' \<longleftrightarrow> pool_ok pb p' \<and> pool_frame (p_impl p) (p_impl p') \<and>
     length (p_workers p') = length (p_workers p) \<and>
     (\<exists>n. p_trace p' = p_trace p @ replicate n (Sys_write_efd (im_stop_efd (p_impl p))) \<and>
       (Stop_call \<notin> set ts \<longrightarrow> n = 0 \<and> im_stopping (p_impl p') = im_stopping (p_impl p))) \<and>
     (\<forall>q < length (p_workers p). progress (turns_of q ts) (p_workers p ! q) (p_workers p' ! q) \<and>
       ((\<exists>env \<in> set (turns_of q ts). ends_loop env) \<longrightarrow> snd (p_workers p' ! q)))"

lemma pool_rel_refl: "pool_ok pb p \<Longrightarrow> pool_rel pb [] p p"
  by (simp add: pool_rel_def progress_refl)

lemma pool_rel_stop:
  assumes "pool_ok pb p"
  shows "pool_rel pb [Stop_call] p (pool_stop p)"
proof -
  have "\<exists>n. (if im_stop_efd (p_impl p) \<ge> 0 then [Sys_write_efd (im_stop_efd (p_impl p))] else []) =
      replicate n (Sys_write_efd (im_stop_efd (p_impl p)))"
    by (rule exI [of _ "if im_stop_efd (p_impl p) \<ge> 0 then 1 else 0"]) simp
  then show ?thesis
    using assms by (simp add: pool_rel_def pool_ok_def progress_refl)
qed

lemma turns_of_append: "turns_of q (xs @ ys) = turns_of q xs @ turns_of q ys"
  by (simp add: turns_of_def map_filter_append)

lemma pool_rel_trans:
  assumes ab: "pool_rel pb as a b" and bc: "pool_rel pb bs b c"
  shows "pool_rel pb (as @ bs) a c"
proof -
  obtain n where n: "p_trace b = p_trace a @ replicate n (Sys_write_efd (im_stop_efd (p_impl a)))"
      "Stop_call \<notin> set as \<longrightarrow> n = 0 \<and> im_stopping (p_impl b) = im_stopping (p_impl a)"
    using ab unfolding pool_rel_def by blast
  obtain k where k: "p_trace c = p_trace b @ replicate k (Sys_write_efd (im_stop_efd (p_impl b)))"
      "Stop_call \<notin> set bs \<longrightarrow> k = 0 \<and> im_stopping (p_impl c) = im_stopping (p_impl b)"
    using bc unfolding pool_rel_def by blast
  have efd: "im_stop_efd (p_impl b) = im_stop_efd (p_impl a)"
    using ab pool_frame_sel(3) unfolding pool_rel_def by blast
  have "\<exists>m. p_trace c = p_trace a @ replicate m (Sys_write_efd (im_stop_efd (p_impl a))) \<and>
      (Stop_call \<notin> set (as @ bs) \<longrightarrow> m = 0 \<and> im_stopping (p_impl c) = im_stopping (p_impl a))"
    using n k by (intro exI [of _ "n + k"]) (simp add: efd replicate_add)
  moreover have "progress (turns_of q (as @ bs)) (p_workers a ! q) (p_workers c ! q) \<and>
      ((\<exists>env \<in> set (turns_of q (as @ bs)). ends_loop env) \<longrightarrow> snd (p_workers c ! q))"
    if "q < length (p_workers a)" for q
  proof -
    from that ab bc have p: "progress (turns_of q as) (p_workers a ! q) (p_workers b ! q)"
        "progress (turns_of q bs) (p_workers b ! q) (p_workers c ! q)"
        "(\<exists>env \<in> set (turns_of q as). ends_loop env) \<longrightarrow> snd (p_workers b ! q)"
        "(\<exists>env \<in> set (turns_of q bs). ends_loop env) \<longrightarrow> snd (p_workers c ! q)"
      by (simp_all add: pool_rel_def)
    have "snd (p_workers b ! q) \<longrightarrow> snd (p_workers c ! q)" using p(2) by (simp add: progress_def)
    with p progress_trans [OF p(1,2)] show ?thesis by (auto simp: turns_of_append)
  qed
  moreover have "pool_frame (p_impl a) (p_impl c)"
    using ab bc pool_frame_trans unfolding pool_rel_def by blast
  ultimately show ?thesis using ab bc by (simp add: pool_rel_def)
qed

lemma run_step_ends: "ends_loop env \<Longrightarrow> run_step F env w = Some (w', stop) \<Longrightarrow> stop"
  by (auto simp: ends_loop_def run_step_def split: completion.splits if_splits)

context filesystem_contract
begin

lemma pool_turn_rel:
  assumes p: "pool_ok pb p" and env: "env_ok pb env"
  shows "\<exists>p'. pool_turn F q env p = Some p' \<and> pool_rel pb [Turn q env] p p'"
proof (cases "q < length (p_workers p) \<and> \<not> snd (p_workers p ! q)")
  case False
  have "progress [env] x x" if "snd x" for x :: "'s RingWorker \<times> bool"
    using that by (simp add: progress_def)
  with False p show ?thesis
    by (intro exI [of _ p]) (auto simp: pool_turn_def pool_rel_def progress_refl)
next
  case True
  let ?w = "fst (p_workers p ! q)"
  have w: "worker_ok (?w\<lparr>w_impl := p_impl p\<rparr>)" "w_payload_bytes ?w = pb"
    using p True by (simp_all add: pool_ok_def)
  with env have "env_ok (w_payload_bytes (?w\<lparr>w_impl := p_impl p\<rparr>)) env" by simp
  from run_step_turn [OF w(1) this] obtain w' stop where
    step: "run_step F env (?w\<lparr>w_impl := p_impl p\<rparr>) = Some (w', stop)" "turn (?w\<lparr>w_impl := p_impl p\<rparr>) env w' stop"
    by blast
  let ?p' = "p\<lparr>p_impl := w_impl w', p_workers := (p_workers p)[q := (w', stop)]\<rparr>"
  have w': "worker_ok w'" "w_payload_bytes w' = pb" "session_frame (p_impl p) (w_impl w')"
    using step(2) w(2) by (simp_all add: turn_def same_worker_def)
  have "pool_ok pb ?p'"
    using p w' set_update_subset_insert [of "p_workers p" q "(w', stop)"] by (auto simp: pool_ok_def)
  moreover have "progress [env] (p_workers p ! q) (w', stop)"
    using step(2) True by (auto simp: progress_def turn_def same_worker_def)
  moreover have "im_stopping (w_impl w') = im_stopping (p_impl p)"
    using w'(3) by (metis session_frame_def Impl.ext_inject Impl.surjective Impl.update_convs(3,6))
  ultimately have "pool_rel pb [Turn q env] p ?p'"
    using w'(3) run_step_ends [OF _ step(1)]
    by (auto simp: pool_rel_def pool_frame_session progress_refl nth_list_update)
  then show ?thesis using step(1) True by (auto simp: pool_turn_def)
qed

lemma pool_run_rel:
  assumes "pool_ok pb p" "\<forall>t \<in> set ts. sched_ok pb t"
  shows "\<exists>p'. pool_run F ts p = Some p' \<and> pool_rel pb ts p p'"
  using assms
proof (induction ts arbitrary: p)
  case Nil
  then show ?case by (simp add: pool_rel_refl)
next
  case (Cons t ts)
  have "\<exists>p1. pool_run F (t # ts) p = pool_run F ts p1 \<and> pool_rel pb [t] p p1"
  proof (cases t)
    case (Turn q env)
    with pool_turn_rel [OF Cons.prems(1), of env q] Cons.prems(2) show ?thesis by auto
  next
    case Stop_call
    with pool_rel_stop [OF Cons.prems(1)] show ?thesis by auto
  qed
  then obtain p1 where p1: "pool_run F (t # ts) p = pool_run F ts p1" "pool_rel pb [t] p p1" by blast
  moreover have "pool_ok pb p1" using p1(2) by (simp add: pool_rel_def)
  ultimately obtain p' where "pool_run F ts p1 = Some p'" "pool_rel pb ts p1 p'"
    using Cons.IH Cons.prems(2) by fastforce
  with p1 pool_rel_trans [OF p1(2), of ts p'] show ?case by auto
qed

end

end
