(* ===== verification/Fs_Steps.thy ===== *)
theory Fs_Steps
  imports Session
begin

text \<open>
  What a request can do to the daemon: the step relation \<open>fs_step\<close> has one rule per callback,
  with any arguments, and everything from the dispatcher up to a whole run of a session
  moves the daemon's state along it. So a property that every callback keeps holds of a
  daemon at any time, whatever the kernel sends.
\<close>

inductive fs_step :: "'s Filesystem \<Rightarrow> 's \<Rightarrow> 's \<Rightarrow> bool" for F :: "'s Filesystem" where
  step_init: "fs_init F s info = (rv, info', s') \<Longrightarrow> fs_step F s s'"
| step_destroy: "fs_step F s (fs_destroy F s)"
| step_lookup_root: "fs_lookup_root F s c = (rv, s') \<Longrightarrow> fs_step F s s'"
| step_lookupx: "fs_lookupx F s c n name = (rv, s') \<Longrightarrow> fs_step F s s'"
| step_forget: "fs_step F s (fs_forget F s n nl)"
| step_forget_multi: "fs_step F s (fs_forget_multi F s items)"
| step_statx: "fs_statx F s c n = (rv, s') \<Longrightarrow> fs_step F s s'"
| step_setstatx: "fs_setstatx F s c n fh inn = (rv, s') \<Longrightarrow> fs_step F s s'"
| step_mkobjx: "fs_mkobjx F s c n mi = (rv, s') \<Longrightarrow> fs_step F s s'"
| step_unlink: "fs_unlink F s c n name = (rv, s') \<Longrightarrow> fs_step F s s'"
| step_rmdir: "fs_rmdir F s c n name = (rv, s') \<Longrightarrow> fs_step F s s'"
| step_rename: "fs_rename F s c od on nd nn fl = (rv, s') \<Longrightarrow> fs_step F s s'"
| step_link: "fs_link F s c old np nn = (rv, s') \<Longrightarrow> fs_step F s s'"
| step_readlink: "fs_readlink F s c n = (rv, s') \<Longrightarrow> fs_step F s s'"
| step_open: "fs_open F s c n fl = (rv, s') \<Longrightarrow> fs_step F s s'"
| step_release: "fs_release F s c n fh fl = (rv, s') \<Longrightarrow> fs_step F s s'"
| step_read: "fs_read F s c n fh off buf = (rv, buf', s') \<Longrightarrow> fs_step F s s'"
| step_write: "fs_write F s c n fh off data = (rv, s') \<Longrightarrow> fs_step F s s'"
| step_fallocate: "fs_fallocate F s c n fh mode off len = (rv, s') \<Longrightarrow> fs_step F s s'"
| step_statfs: "fs_statfs F s c n = (rv, s') \<Longrightarrow> fs_step F s s'"
| step_opendir: "fs_opendir F s c n = (rv, s') \<Longrightarrow> fs_step F s s'"
| step_releasedir: "fs_releasedir F s c n fh = (rv, s') \<Longrightarrow> fs_step F s s'"
| step_readdir: "fs_readdir F s c n fh off w = Some (rv, w', s') \<Longrightarrow> fs_step F s s'"
| step_getxattr: "fs_getxattr F s c n name buf = (rv, buf', s') \<Longrightarrow> fs_step F s s'"
| step_setxattr: "fs_setxattr F s c n name val fl = (rv, s') \<Longrightarrow> fs_step F s s'"
| step_listxattr: "fs_listxattr F s c n buf = (rv, buf', s') \<Longrightarrow> fs_step F s s'"
| step_removexattr: "fs_removexattr F s c n name = (rv, s') \<Longrightarrow> fs_step F s s'"

abbreviation fs_reach :: "'s Filesystem \<Rightarrow> 's \<Rightarrow> 's \<Rightarrow> bool" where
  "fs_reach F \<equiv> (fs_step F)\<^sup>*\<^sup>*"

lemma fs_reach_invariant:
  assumes "fs_reach F s s'" "Inv s" "\<And>a b. fs_step F a b \<Longrightarrow> Inv a \<Longrightarrow> Inv b"
  shows "Inv s'"
  using assms(1,2) by (induction rule: rtranclp_induct) (auto intro: assms(3))

subsection \<open>Handlers\<close>

definition reaches :: "'s Filesystem \<Rightarrow> 's Impl \<Rightarrow> ('s Impl \<times> Replier) option \<Rightarrow> bool" where
  "reaches F im res \<longleftrightarrow> (\<forall>im' r'. res = Some (im', r') \<longrightarrow> fs_reach F (im_fs im) (im_fs im'))"

named_theorems reaches_intros "rules that follow the structure of a handler"

lemma reaches_Some: "fs_reach F (im_fs im) (im_fs im') \<Longrightarrow> reaches F im (Some (im', r))"
  by (simp add: reaches_def)

lemma reaches_same [reaches_intros]: "reaches F im (Some (im, r))" "reaches F im (invalid im r)"
  by (simp_all add: reaches_def invalid_def)

lemma reaches_step [reaches_intros]:
  "fs_step F (im_fs im) s \<Longrightarrow> reaches F im (Some (im\<lparr>im_fs := s\<rparr>, r))"
  "fs_step F (im_fs im) s \<Longrightarrow> reaches F im (Some (im\<lparr>im_fs := s, im_init_done := b\<rparr>, r))"
  by (auto simp: reaches_def)

lemma reaches_finish_unit [reaches_intros]:
  "(\<And>rv s. res = (rv, s) \<Longrightarrow> fs_step F (im_fs im) s) \<Longrightarrow> reaches F im (finish_unit im r res)"
  by (auto simp: reaches_def finish_unit_def split: prod.splits sum.splits)

lemma reaches_finish_pod [reaches_intros]:
  "(\<And>rv s. res = (rv, s) \<Longrightarrow> fs_step F (im_fs im) s) \<Longrightarrow> reaches F im (finish_pod put f im r res)"
  by (auto simp: reaches_def finish_pod_def bind_eq_Some_conv split: prod.splits sum.splits)

lemma reaches_finish_span [reaches_intros]:
  "(\<And>rv buf s. res = (rv, buf, s) \<Longrightarrow> fs_step F (im_fs im) s) \<Longrightarrow> reaches F im (finish_span im r want res)"
  by (auto simp: reaches_def finish_span_def Let_def split: prod.splits sum.splits)

lemma reaches_if [reaches_intros]:
  "(b \<Longrightarrow> reaches F im x) \<Longrightarrow> (\<not> b \<Longrightarrow> reaches F im y) \<Longrightarrow> reaches F im (if b then x else y)"
  by simp

lemma reaches_case_option [reaches_intros]:
  "reaches F im x \<Longrightarrow> (\<And>p. reaches F im (f p)) \<Longrightarrow> reaches F im (case o' of None \<Rightarrow> x | Some p \<Rightarrow> f p)"
  by (cases o') simp_all

lemma reaches_bind [reaches_intros]: "(\<And>x. m = Some x \<Longrightarrow> reaches F im (f x)) \<Longrightarrow> reaches F im (m \<bind> f)"
  by (cases m) (simp_all add: reaches_def)

lemma reaches_init_result [reaches_intros]:
  assumes "\<And>e info s. res = (Inl e, info, s) \<Longrightarrow> reaches F im (a e info s)"
    and "\<And>u info s. res = (Inr u, info, s) \<Longrightarrow> reaches F im (b u info s)"
  shows "reaches F im (case res of (Inl e, info, s) \<Rightarrow> a e info s | (Inr u, info, s) \<Rightarrow> b u info s)"
  using assms by (auto split: prod.splits sum.splits)

lemma reaches_sum [reaches_intros]:
  "(\<And>e. reaches F im (f e)) \<Longrightarrow> (\<And>v. reaches F im (g v)) \<Longrightarrow>
    reaches F im (case rv of Inl e \<Rightarrow> f e | Inr v \<Rightarrow> g v)"
  by (cases rv) simp_all

lemma drop_span_eq: "drop_span res = (rv, s) \<Longrightarrow> \<exists>buf. res = (rv, buf, s)"
  by (auto simp: drop_span_def split: prod.splits)

lemma reaches_pod_span [reaches_intros]:
  "(\<And>rv buf s. res = (rv, buf, s) \<Longrightarrow> fs_step F (im_fs im) s) \<Longrightarrow>
    reaches F im (finish_pod put f im r (drop_span res))"
  by (rule reaches_finish_pod) (auto dest: drop_span_eq)

lemma reaches_bind_triple [reaches_intros]:
  "(\<And>a b c. m = Some (a, b, c) \<Longrightarrow> reaches F im (f a b c)) \<Longrightarrow> reaches F im (m \<bind> (\<lambda>(a, b, c). f a b c))"
  by (rule reaches_bind) auto

lemma reaches_handlers:
  "reaches F im (handle_init F im h body r)" "reaches F im (handle_lookup_root F im h body r)"
  "reaches F im (handle_lookupx F im h body r)" "reaches F im (handle_forget F im h body r)"
  "reaches F im (handle_batch_forget F im h body r)" "reaches F im (handle_statx F im h body r)"
  "reaches F im (handle_setstatx F im h body r)" "reaches F im (handle_mkobjx F im h body r)"
  "reaches F im (handle_rename2 F im h body r)" "reaches F im (handle_link F im h body r)"
  "reaches F im (handle_open F im h body r)" "reaches F im (handle_release F im h body r)"
  "reaches F im (handle_read F im h body r)" "reaches F im (handle_write F im h body r)"
  "reaches F im (handle_readlink F im h body r)" "reaches F im (handle_statfs F im h body r)"
  "reaches F im (handle_fallocate F im h body r)" "reaches F im (handle_opendir F im h body r)"
  "reaches F im (handle_releasedir F im h body r)" "reaches F im (handle_readdir F im h body r)"
  "reaches F im (handle_getxattr F im h body r)" "reaches F im (handle_setxattr F im h body r)"
  "reaches F im (handle_listxattr F im h body r)" "reaches F im (handle_removexattr F im h body r)"
  unfolding handler_defs Let_def
  by (intro reaches_intros; (erule fs_step.intros | rule fs_step.intros))+

lemma reaches_unlink: "reaches F im (handle_unlink F is_rmdir im h body r)"
  by (cases is_rmdir; simp only: handle_unlink_def if_True if_False simp_thms;
    intro reaches_intros; erule step_unlink step_rmdir)

subsection \<open>The dispatcher\<close>

lemma reaches_dispatch_with:
  assumes "\<And>im h body r. reaches F im (compound im h body r)"
  shows "reaches F im (dispatch_with compound F im h body r)"
  unfolding dispatch_with_def
  by (auto intro!: reaches_handlers reaches_unlink reaches_same assms split: option.split fuse_opcode.split)

lemma compound_step_reaches:
  assumes disp: "\<And>im h body r. reaches F im (disp im h body r)"
    and step: "compound_step disp body cap st = Some (Some st')"
  shows "fs_reach F (im_fs (cs_im st)) (im_fs (cs_im st'))"
proof -
  have "fs_reach F (im_fs im) (im_fs im')" if "disp im h body r = Some (im', r')" for im h body r im' r'
    using disp [of im h body r] that by (simp add: reaches_def)
  with step show ?thesis
    unfolding compound_step_def
    by (auto simp: bind_eq_Some_conv Let_def simp del: opcode_val.simps split: if_splits)
qed

lemma compound_loop_reaches:
  assumes disp: "\<And>im h body r. reaches F im (disp im h body r)"
    and "compound_loop disp body cap st = Some (st', fin)"
  shows "fs_reach F (im_fs (cs_im st)) (im_fs (cs_im st'))"
  using assms
proof (induction disp body cap st rule: compound_loop.induct)
  case (1 disp body cap st)
  show ?case
  proof (cases "cs_p st < length body")
    case False
    with "1.prems" show ?thesis by (simp add: compound_loop.simps [of disp])
  next
    case True
    with "1.prems"(2) obtain res where res: "compound_step disp body cap st = Some res"
      by (auto simp: compound_loop.simps [of disp body cap st] bind_eq_Some_conv)
    show ?thesis
    proof (cases res)
      case None
      with True res "1.prems"(2) show ?thesis by (simp add: compound_loop.simps [of disp body cap st])
    next
      case (Some st1)
      have loop: "compound_loop disp body cap st1 = Some (st', fin)"
        using True res Some "1.prems"(2) by (simp add: compound_loop.simps [of disp body cap st])
      have "fs_reach F (im_fs (cs_im st)) (im_fs (cs_im st1))"
        by (rule compound_step_reaches [of F disp body cap]) (use "1.prems"(1) res Some in simp_all)
      moreover have "fs_reach F (im_fs (cs_im st1)) (im_fs (cs_im st'))"
        by (rule "1.IH" [OF True res Some _ loop]) (rule "1.prems"(1))
      ultimately show ?thesis by (rule rtranclp_trans)
    qed
  qed
qed

lemma reaches_compound:
  assumes "\<And>im h body r. reaches F im (disp im h body r)"
  shows "reaches F im (handle_compound_with disp im h body r)"
proof -
  have "fs_reach F (im_fs im) (im_fs (cs_im st))"
    if "compound_loop disp body cap \<lparr>cs_im = im, cs_p = p, cs_out = out, cs_out_p = q, cs_produced = pr\<rparr> = Some (st, fin)"
    for cap p out q pr st fin
    using compound_loop_reaches [of F disp, OF _ that] assms by simp
  then show ?thesis
    unfolding handle_compound_with_def
    by (auto simp: reaches_def bind_eq_Some_conv Let_def invalid_def split: if_splits)
qed

lemma reaches_dispatch: "reaches F im (dispatch F im h body r)"
  unfolding dispatch_def
  by (intro reaches_dispatch_with, unfold handle_compound_def)
    (intro reaches_compound reaches_dispatch_with reaches_same)

subsection \<open>Rings and sessions\<close>

lemma handle_one_reaches:
  assumes "handle_one F pb im e = Some (im', e', n)"
  shows "fs_reach F (im_fs im) (im_fs im')"
proof -
  have "fs_reach F (im_fs im) (im_fs im')" if "dispatch F im h body r = Some (im', r')" for im h body r im' r'
    using reaches_dispatch [of F im h body r] that by (simp add: reaches_def)
  with assms show ?thesis
    unfolding handle_one_def by (auto simp: bind_eq_Some_conv Let_def split: if_splits)
qed

lemma serve_reaches:
  assumes "serve F env i w = Some (w', stop)"
  shows "fs_reach F (im_fs (w_impl w)) (im_fs (w_impl w'))"
proof -
  obtain im e n where "handle_one F (w_payload_bytes w) (w_impl w) (w_entries w ! i) = Some (im, e, n)" "w_impl w' = im"
    using assms unfolding serve_def
    by (cases "handle_one F (w_payload_bytes w) (w_impl w) (w_entries w ! i)") (auto simp: Let_def split: if_splits)
  then show ?thesis using handle_one_reaches by metis
qed

lemma run_step_reaches:
  assumes "run_step F env w = Some (w', stop)"
  shows "fs_reach F (im_fs (w_impl w)) (im_fs (w_impl w'))"
proof (cases "re_wait env")
  case (WaitErr rc)
  with assms show ?thesis by (auto simp: run_step_def split: if_splits)
next
  case (Cqe ud res mem)
  have "fs_reach F (im_fs (w_impl w)) (im_fs (w_impl w'))"
    if "serve F env i (kernel_fill i mem (log_event e w)) = Some (w', stop)" for i e
    using serve_reaches [OF that] by simp
  with assms Cqe show ?thesis by (auto simp: run_step_def Let_def split: if_splits)
qed

lemma pool_turn_reaches:
  assumes "pool_turn F q env p = Some p'"
  shows "fs_reach F (im_fs (p_impl p)) (im_fs (p_impl p'))"
proof (cases "q < length (p_workers p) \<and> \<not> snd (p_workers p ! q)")
  case True
  with assms obtain w stop where "run_step F env ((fst (p_workers p ! q))\<lparr>w_impl := p_impl p\<rparr>) = Some (w, stop)"
      "p_impl p' = w_impl w"
    by (auto simp: pool_turn_def bind_eq_Some_conv)
  with run_step_reaches [OF this(1)] show ?thesis by simp
qed (use assms in \<open>auto simp: pool_turn_def\<close>)

lemma pool_run_reaches:
  "pool_run F ts p = Some p' \<Longrightarrow> fs_reach F (im_fs (p_impl p)) (im_fs (p_impl p'))"
proof (induction F ts p rule: pool_run.induct)
  case (2 F q env ts p)
  then obtain p1 where "pool_turn F q env p = Some p1" "pool_run F ts p1 = Some p'"
    by (auto simp: bind_eq_Some_conv)
  with "2.IH" pool_turn_reaches [of F q env p p1] show ?case by (auto intro: rtranclp_trans)
qed simp_all

lemma leave_fs: "leave n fsfd ec evs im = (res, evs', im') \<Longrightarrow> im_fs im' = im_fs im"
  by (auto simp: leave_def umount_on_exit_def split: if_splits prod.splits)

lemma join_fs: "join_and_leave ec p = (res, evs, im) \<Longrightarrow> im_fs im = im_fs (p_impl p)"
  by (auto simp: join_and_leave_def dest: leave_fs split: if_splits)

lemma drain_reaches: "drain F p = (res, evs, im) \<Longrightarrow> fs_reach F (im_fs (p_impl p)) (im_fs im)"
  using r_into_rtranclp [of "fs_step F", OF step_destroy [of F "im_fs (p_impl p)"]]
  by (auto simp: drain_def dest!: leave_fs split: if_splits)

lemma mount_fs: "mount_create_and_finish env fsfd im = (evs, ec, im') \<Longrightarrow> im_fs im' = im_fs im"
  by (auto simp: mount_create_and_finish_def Let_def split: sum.splits)

lemma joined_reaches:
  assumes "map_option (join_and_leave ec) (pool_run F ts p) = Some (res, evs, im)"
  shows "fs_reach F (im_fs (p_impl p)) (im_fs im)"
  using assms pool_run_reaches join_fs by fastforce

lemma drained_reaches:
  assumes "map_option (drain F) (pool_run F ts p) = Some (res, evs, im)"
  shows "fs_reach F (im_fs (p_impl p)) (im_fs im)"
  using assms pool_run_reaches drain_reaches by (fastforce intro: rtranclp_trans)

lemma serve_session_reaches:
  assumes "serve_session F env fsfd p = Some (res, evs, im)"
  shows "fs_reach F (im_fs (p_impl p)) (im_fs im)"
proof -
  obtain p1 where p1: "pool_run F (v_boot env) p = Some p1"
    using assms by (auto simp: serve_session_def bind_eq_Some_conv)
  obtain mevs ec im1 where m: "mount_create_and_finish (v_mount env) fsfd (p_impl p1) = (mevs, ec, im1)"
    by (rule prod_cases3)
  let ?im = "if ec \<noteq> 0 then im1\<lparr>im_stopping := True\<rparr> else im1"
  let ?p = "p1\<lparr>p_impl := ?im, p_trace := p_trace p1 @ mevs\<rparr>"
  have fs: "im_fs (p_impl ?p) = im_fs (p_impl p1)" "im_fs (p_impl (pool_stop ?p)) = im_fs (p_impl p1)"
    using mount_fs [OF m] by simp_all
  have run: "serve_session F env fsfd p =
      (if ec \<noteq> 0 then map_option (join_and_leave ec) (pool_run F (v_serve env) (pool_stop ?p))
       else if im_stopping im1 then map_option (join_and_leave 0) (pool_run F (v_serve env) ?p)
       else if \<not> im_init_done im1 then map_option (join_and_leave 0) (pool_run F (v_serve env) (pool_stop ?p))
       else map_option (drain F) (pool_run F (v_serve env) ?p))"
    unfolding serve_session_def p1 by (simp add: m Let_def)
  have "fs_reach F (im_fs (p_impl p1)) (im_fs im)"
    using assms unfolding run
    using joined_reaches [of _ F "v_serve env" ?p res evs im] joined_reaches [of _ F "v_serve env" "pool_stop ?p" res evs im]
      drained_reaches [of F "v_serve env" ?p res evs im] fs
    by (simp split: if_splits)
  with pool_run_reaches [OF p1] show ?thesis by (rule rtranclp_trans)
qed

lemma session_run_reaches:
  assumes "session_run F s env im = Some (res, evs, im')"
  shows "fs_reach F s (im_fs im')"
proof -
  obtain devs ec im1 where a: "acquire_device env (im\<lparr>im_fs := s\<rparr>) = (devs, ec, im1)" by (rule prod_cases3)
  have s: "im_fs im1 = s" using a by (auto simp: acquire_device_def split: if_splits prod.splits sum.splits)
  have launch: "fs_reach F s (im_fs im')"
    if l: "launch_session F env fsfd evs0 (im1\<lparr>im_stop_efd := fd\<rparr>) = Some (res, evs, im')" for fsfd evs0 fd
  proof -
    let ?im = "im1\<lparr>im_stop_efd := fd\<rparr>"
    obtain wevs ws wec where w: "start_workers env ?im [0..<num_queues (opt_uring_queues (im_opts ?im)) (v_hw env)] =
        (wevs, ws, wec)" by (rule prod_cases3)
    show ?thesis
    proof (cases "wec = 0")
      case True
      with l w have "serve_session F env fsfd
          \<lparr>p_impl = ?im, p_workers = map (\<lambda>w. (w, False)) ws, p_trace = evs0 @ wevs\<rparr> = Some (res, evs, im')"
        by (simp add: launch_session_def)
      from serve_session_reaches [OF this] s show ?thesis by simp
    next
      case False
      with l w s show ?thesis by (auto simp: launch_session_def session_stop_def dest!: leave_fs)
    qed
  qed
  show ?thesis
    using assms a s launch
    by (auto simp: session_run_def Let_def split: if_splits sum.splits prod.splits dest!: leave_fs)
qed

end
