(* ===== verification/Session_Exit.thy ===== *)
theory Session_Exit
  imports Session
begin

text \<open>
  How a session ends: the resources it holds at every exit of \<open>Session::run\<close>, the errors it
  reports, when it returns, and what happens to a \<open>stop\<close> that comes too early.
\<close>

subsection \<open>Resources of a session\<close>

text \<open>What a system call promises: an error number is not 0, a descriptor is not negative.\<close>

fun sys_ok :: "sysret \<Rightarrow> bool" where
  "sys_ok (Inl e) = (e \<noteq> 0)"
| "sys_ok (Inr v) = (v \<ge> 0)"

definition mount_env_ok :: "mount_env \<Rightarrow> bool" where
  "mount_env_ok env \<longleftrightarrow> sys_ok (me_fsopen env) \<and> sys_ok (me_set_fd env) \<and> sys_ok (me_source env) \<and>
     sys_ok (me_create env) \<and> sys_ok (me_fsmount env) \<and> sys_ok (me_move env)"

definition session_env_ok :: "nat \<Rightarrow> session_env \<Rightarrow> bool" where
  "session_env_ok pb env \<longleftrightarrow> sys_ok (de_open (v_device env)) \<and> sys_ok (de_ioctl (v_device env)) \<and>
     sys_ok (v_eventfd env) \<and> mount_env_ok (v_mount env) \<and>
     (\<forall>t \<in> set (v_boot env @ v_serve env). sched_ok pb t)"

definition opts_ok :: "SessionOptions \<Rightarrow> bool" where
  "opts_ok opts \<longleftrightarrow> opt_uring_queue_depth opts < 2 ^ 32 \<and> 16 + opt_uring_payload_bytes opts < 2 ^ 32"

text \<open>The failures in a trace.\<close>

fun error_of :: "sysret \<Rightarrow> i32 option" where
  "error_of (Inl e) = Some e"
| "error_of (Inr v) = None"

fun event_error :: "sys_event \<Rightarrow> i32 option" where
  "event_error (Sys_open r) = error_of r"
| "event_error (Sys_ioctl_sync_init fd r) = error_of r"
| "event_error (Sys_eventfd r) = error_of r"
| "event_error (Sys_fsopen r) = error_of r"
| "event_error (Sys_fsconfig_set_fd fd dev r) = error_of r"
| "event_error (Sys_fsconfig_source fd s r) = error_of r"
| "event_error (Sys_fsconfig_create fd r) = error_of r"
| "event_error (Sys_fsmount fd fl r) = error_of r"
| "event_error (Sys_move_mount fd s r) = error_of r"
| "event_error (Worker_start q ec) = (if ec = 0 then None else Some ec)"
| "event_error _ = None"

definition errors :: "sys_event list \<Rightarrow> i32 list" where
  "errors evs = List.map_filter event_error evs"

fun moves :: "sys_event \<Rightarrow> bool" where
  "moves (Sys_move_mount fd mp (Inr v)) = True"
| "moves _ = False"

definition moved :: "sys_event list \<Rightarrow> bool" where
  "moved evs \<longleftrightarrow> (\<exists>ev \<in> set evs. moves ev)"

definition moved_to :: "string \<Rightarrow> sys_event list \<Rightarrow> bool" where
  "moved_to mp evs \<longleftrightarrow> (\<exists>fd v. Sys_move_mount fd mp (Inr v) \<in> set evs)"

definition unmounts :: "sys_event list \<Rightarrow> nat" where
  "unmounts evs = length (filter (\<lambda>ev. case ev of Sys_umount2 mp \<Rightarrow> True | _ \<Rightarrow> False) evs)"

text \<open>
  The state in which \<open>run\<close> may leave with the error \<open>ec\<close>: the descriptors of the session and
  \<open>fsfd\<close> are all it owns, the mount is installed iff it was moved, nothing is unmounted yet,
  and the only failure so far, if any, is \<open>ec\<close>.
\<close>

definition may_leave :: "int multiset \<Rightarrow> i32 \<Rightarrow> sys_event list \<Rightarrow> int \<Rightarrow> 's Impl \<Rightarrow> bool" where
  "may_leave own ec evs fsfd im \<longleftrightarrow>
     handles own evs (owned (im_dev_fd im) + owned (im_stop_efd im) + owned fsfd) \<and>
     unmounts evs = 0 \<and> im_mount_installed im = moved evs \<and>
     (moved evs \<longrightarrow> im_dev_fd im \<ge> 0 \<and> fsfd = -1 \<and> moved_to (opt_mountpoint (im_opts im)) evs) \<and> (errors evs = [] \<or> errors evs = [ec])"

definition quiet :: "sys_event \<Rightarrow> bool" where
  "quiet ev \<longleftrightarrow> (case ev of Sys_write_efd fd \<Rightarrow> True | Worker_join q \<Rightarrow> True | Worker_teardown q \<Rightarrow> True
     | Worker_start q ec \<Rightarrow> ec = 0 | Fs_destroy \<Rightarrow> True | _ \<Rightarrow> False)"

lemma trace_append [simp]:
  "errors (xs @ ys) = errors xs @ errors ys" "moved (xs @ ys) \<longleftrightarrow> moved xs \<or> moved ys"
  "unmounts (xs @ ys) = unmounts xs + unmounts ys"
  "moved_to mp (xs @ ys) \<longleftrightarrow> moved_to mp xs \<or> moved_to mp ys"
  by (auto simp: moved_to_def errors_def moved_def unmounts_def map_filter_append)

lemma trace_simps [simp]:
  "errors [] = []" "errors (x # xs) = (case event_error x of None \<Rightarrow> errors xs | Some e \<Rightarrow> e # errors xs)"
  "\<not> moved []" "moved (x # xs) \<longleftrightarrow> moves x \<or> moved xs"
  "unmounts [] = 0" "unmounts (x # xs) = (case x of Sys_umount2 mp \<Rightarrow> Suc (unmounts xs) | _ \<Rightarrow> unmounts xs)"
  by (auto simp: errors_def moved_def unmounts_def map_filter_simps split: sys_event.splits option.splits)

lemma trace_destroy [simp]:
  "errors (UniqueFd_destroy fd) = []" "\<not> moved (UniqueFd_destroy fd)" "unmounts (UniqueFd_destroy fd) = 0"
  by (simp_all add: UniqueFd_destroy_def UniqueFd_reset_def)

lemma trace_quiet:
  assumes "\<forall>ev \<in> set evs. quiet ev"
  shows "errors evs = []" "\<not> moved evs" "unmounts evs = 0" "handles own evs own"
  using assms
proof (induction evs)
  case (Cons ev evs)
  {
    case 1 with Cons show ?case by (cases ev) (auto simp: quiet_def)
  next
    case 2 with Cons show ?case by (cases ev) (auto simp: quiet_def)
  next
    case 3 with Cons show ?case by (cases ev) (auto simp: quiet_def)
  next
    case 4
    then have "handles own [ev] own" by (cases ev) (auto simp: quiet_def handles_def)
    with 4 Cons show ?case by (auto intro: handles_Cons)
  }
qed (simp_all add: handles_intros)

lemma may_leave_quiet:
  assumes "may_leave own ec evs fsfd im" "\<forall>ev \<in> set evs2. quiet ev"
  shows "may_leave own ec (evs @ evs2) fsfd im"
  using assms(1) trace_quiet(1-3) [OF assms(2)] handles_append [OF _ trace_quiet(4) [OF assms(2)]]
  by (simp add: may_leave_def)

lemma may_leave_frame:
  assumes "may_leave own ec evs fsfd im" "pool_frame im im'"
  shows "may_leave own ec evs fsfd im'"
  using assms(1) pool_frame_sel [OF assms(2)] by (simp add: may_leave_def)

lemma may_leave_clean: "may_leave own ec evs fsfd im \<Longrightarrow> errors evs = [] \<Longrightarrow> may_leave own ec' evs fsfd im"
  by (simp add: may_leave_def)

text \<open>Leaving and destroying the session gives everything back.\<close>

definition released :: "int multiset \<Rightarrow> i32 \<Rightarrow> sys_event list \<Rightarrow> 's Impl \<Rightarrow> bool" where
  "released own ec evs im \<longleftrightarrow> handles own (evs @ session_destroy im) {#} \<and>
     \<not> im_mount_installed im \<and> (errors evs = [] \<or> errors evs = [ec]) \<and>
     (if moved evs
      then \<exists>before dev mp. dev \<ge> 0 \<and> evs = before @ [Sys_close dev, Sys_umount2 mp] \<and> moved_to mp before \<and>
        unmounts before = 0
      else unmounts evs = 0)"

lemma handles_destroys:
  "handles (owned a + owned b) (UniqueFd_destroy b @ UniqueFd_destroy a) {#}"
proof (rule handles_append)
  show "handles (owned a + owned b) (UniqueFd_destroy b) (owned a)"
    using handles_frame [OF handles_destroy [of b], of "owned a"] by (simp add: add.commute)
  show "handles (owned a) (UniqueFd_destroy a) {#}" by (rule handles_destroy)
qed

lemma leave_released:
  assumes "may_leave own ec evs fsfd im" "leave n fsfd ec evs im = (res, evs', im')"
  shows "res = Returned ec \<and> released own ec evs' im'"
proof -
  let ?td = "map Worker_teardown [0..<n]"
  have td: "\<forall>ev \<in> set ?td. quiet ev" by (simp add: quiet_def)
  note q = trace_quiet(1-3) [OF td]
  from may_leave_quiet [OF assms(1) td] have ml: "may_leave own ec (evs @ ?td) fsfd im" .
  have fs: "handles (owned (im_dev_fd im) + owned (im_stop_efd im) + owned fsfd) (UniqueFd_destroy fsfd)
      (owned (im_dev_fd im) + owned (im_stop_efd im))"
    using handles_frame [OF handles_destroy [of fsfd], of "owned (im_dev_fd im) + owned (im_stop_efd im)"]
    by (simp add: ac_simps)
  have h: "handles own ((evs @ ?td) @ UniqueFd_destroy fsfd) (owned (im_dev_fd im) + owned (im_stop_efd im))"
    using ml handles_append [OF _ fs] unfolding may_leave_def by blast
  show ?thesis
  proof (cases "im_mount_installed im")
    case False
    then have "res = Returned ec" "evs' = evs @ ?td @ UniqueFd_destroy fsfd" "im' = im"
      using assms(2) by (simp_all add: leave_def umount_on_exit_def)
    with False handles_append [OF h handles_destroys] assms(1) q show ?thesis
      by (simp add: released_def session_destroy_def may_leave_def)
  next
    case True
    then have dev: "im_dev_fd im \<ge> 0" and fsfd: "fsfd = -1" and mv: "moved evs"
      using assms(1) by (simp_all add: may_leave_def)
    let ?last = "[Sys_close (im_dev_fd im), Sys_umount2 (opt_mountpoint (im_opts im))]"
    have r: "res = Returned ec" "evs' = (evs @ ?td) @ ?last"
        "im' = im\<lparr>im_dev_fd := -1, im_mount_installed := False\<rparr>"
      using True dev fsfd assms(2)
      by (simp_all add: leave_def umount_on_exit_def UniqueFd_reset_def UniqueFd_destroy_def)
    have e: "handles (owned (im_dev_fd im) + owned (im_stop_efd im)) (?last @ session_destroy im') {#}"
      using dev handles_destroy [of "im_stop_efd im"]
      by (simp add: r(3) session_destroy_def handles_def owned_def UniqueFd_destroy_def UniqueFd_reset_def)
    have "handles own (evs @ ?td) (owned (im_dev_fd im) + owned (im_stop_efd im))"
      using h fsfd by (simp add: UniqueFd_destroy_def UniqueFd_reset_def)
    from handles_append [OF this e] r mv assms(1) q show ?thesis
      by (auto simp: released_def may_leave_def intro!: exI [of _ "evs @ ?td"] exI [of _ "im_dev_fd im"] dev)
  qed
qed


text \<open>The stages of \<open>run\<close>.\<close>

definition fresh_session :: "'s Impl \<Rightarrow> bool" where
  "fresh_session im \<longleftrightarrow> im_dev_fd im = -1 \<and> im_stop_efd im = -1 \<and> \<not> im_mount_installed im"

lemma acquire_device_leave:
  assumes "fresh_session im" "sys_ok (de_open (v_device env))" "sys_ok (de_ioctl (v_device env))"
    and "acquire_device env im = (evs, ec, im')"
  shows "may_leave (owned (opt_dev_fd (im_opts im))) ec evs (-1) im'" "\<not> moved evs"
    "errors evs = (if ec = 0 then [] else [ec])"
    "im' = im\<lparr>im_dev_fd := im_dev_fd im', im_opts := (im_opts im)\<lparr>opt_dev_fd := opt_dev_fd (im_opts im')\<rparr>\<rparr>"
    "ec = 0 \<Longrightarrow> im_dev_fd im' \<ge> 0"
proof -
  have "may_leave (owned (opt_dev_fd (im_opts im))) ec evs (-1) im' \<and> \<not> moved evs \<and>
    errors evs = (if ec = 0 then [] else [ec]) \<and>
    im' = im\<lparr>im_dev_fd := im_dev_fd im', im_opts := (im_opts im)\<lparr>opt_dev_fd := opt_dev_fd (im_opts im')\<rparr>\<rparr> \<and>
    (ec = 0 \<longrightarrow> im_dev_fd im' \<ge> 0)"
  proof (cases "opt_dev_fd (im_opts im) \<ge> 0")
    case True
    with assms show ?thesis
      by (auto simp: acquire_device_def UniqueFd_assign_def UniqueFd_reset_def fresh_session_def may_leave_def
          handles_intros)
  next
    case False
    with assms show ?thesis
      by (cases "de_open (v_device env)"; cases "de_ioctl (v_device env)")
        (auto simp: acquire_device_def open_fex_device_def UniqueFd_assign_def UniqueFd_reset_def
          UniqueFd_destroy_def fresh_session_def may_leave_def handles_def owned_def)
  qed
  then show "may_leave (owned (opt_dev_fd (im_opts im))) ec evs (-1) im'" "\<not> moved evs"
    "errors evs = (if ec = 0 then [] else [ec])"
    "im' = im\<lparr>im_dev_fd := im_dev_fd im', im_opts := (im_opts im)\<lparr>opt_dev_fd := opt_dev_fd (im_opts im')\<rparr>\<rparr>"
    "ec = 0 \<Longrightarrow> im_dev_fd im' \<ge> 0" by blast+
qed

lemma may_leave_fail:
  assumes "may_leave own ec evs fsfd im" "errors evs = []" "handles {#} evs2 {#}" "\<not> moved evs2" "unmounts evs2 = 0"
    and "errors evs2 = [e]"
  shows "may_leave own e (evs @ evs2) fsfd im"
  using assms(1,2,4,5,6) handles_append [OF _ handles_frame [OF assms(3)]] by (simp add: may_leave_def)

lemma eventfd_leave:
  assumes "may_leave own ec evs (-1) im" "im_stop_efd im = -1" "efd \<ge> 0" "errors evs = []"
  shows "may_leave own ec (evs @ [Sys_eventfd (Inr efd)]) (-1) (im\<lparr>im_stop_efd := efd\<rparr>)"
proof -
  have "handles (owned (im_dev_fd im)) [Sys_eventfd (Inr efd)] (owned (im_dev_fd im) + owned efd)"
    using assms(3) by (simp add: handles_def owned_def)
  from handles_append [OF _ this] assms show ?thesis by (simp add: may_leave_def)
qed

lemma mount_phase1_trace:
  assumes "mount_open_and_set_fd env im = (evs, r)" "mount_env_ok env"
  shows "\<not> moved evs" "unmounts evs = 0" "errors evs = (case r of Inl e \<Rightarrow> [e] | Inr fd \<Rightarrow> [])"
    "handles {#} evs (case r of Inl e \<Rightarrow> {#} | Inr fd \<Rightarrow> owned fd)" "sys_ok r"
proof -
  show "handles {#} evs (case r of Inl e \<Rightarrow> {#} | Inr fd \<Rightarrow> owned fd)"
    using assms by (intro handles_mount_phase1 [OF assms(1)]) (auto simp: mount_env_ok_def)
  show "\<not> moved evs" "unmounts evs = 0" "errors evs = (case r of Inl e \<Rightarrow> [e] | Inr fd \<Rightarrow> [])" "sys_ok r"
    using assms
    by (cases "me_fsopen env"; cases "me_set_fd env"; cases "me_source env";
      auto simp: mount_open_and_set_fd_def mount_env_ok_def Let_def split: if_splits)+
qed

lemma mount_phase2_trace:
  assumes "mount_create_and_finish env fsfd im = (evs, ec, im')" "mount_env_ok env" 
  shows "unmounts evs = 0" "errors evs = (if ec = 0 then [] else [ec])" "moved evs \<longleftrightarrow> ec = 0"
    "im' = (if ec = 0 then im\<lparr>im_mount_installed := True\<rparr> else im)" "handles (owned fsfd) evs {#}"
    "ec = 0 \<Longrightarrow> moved_to (opt_mountpoint (im_opts im)) evs"
proof -
  show "handles (owned fsfd) evs {#}"
    using assms by (intro handles_mount_phase2 [OF assms(1)]) (auto simp: mount_env_ok_def)
  show "unmounts evs = 0" "errors evs = (if ec = 0 then [] else [ec])" "moved evs \<longleftrightarrow> ec = 0"
    "im' = (if ec = 0 then im\<lparr>im_mount_installed := True\<rparr> else im)"
    using assms by (auto simp: mount_create_and_finish_def mount_env_ok_def Let_def split: sum.splits)
  show "ec = 0 \<Longrightarrow> moved_to (opt_mountpoint (im_opts im)) evs"
    using assms
    by (auto simp: mount_create_and_finish_def mount_env_ok_def moved_to_def Let_def UniqueFd_destroy_def
        UniqueFd_reset_def split: sum.splits if_splits)
qed

lemma phase1_leave:
  assumes "may_leave own ec evs (-1) im" "errors evs = []" "\<not> moved evs"
    and "mount_open_and_set_fd env im = (mevs, Inr fsfd)" "mount_env_ok env"
  shows "may_leave own ec' (evs @ mevs) fsfd im"
proof -
  note m = mount_phase1_trace [OF assms(4,5), simplified]
  have "handles own evs (owned (im_dev_fd im) + owned (im_stop_efd im))" using assms(1) by (simp add: may_leave_def)
  from handles_append [OF this] handles_frame [OF m(4), of "owned (im_dev_fd im) + owned (im_stop_efd im)"]
  have "handles own (evs @ mevs) (owned (im_dev_fd im) + owned (im_stop_efd im) + owned fsfd)"
    by (simp add: ac_simps)
  with assms(1-3) m show ?thesis by (simp add: may_leave_def)
qed

lemma phase2_leave:
  assumes "may_leave own ec0 evs fsfd im" "errors evs = []" "\<not> moved evs" "im_dev_fd im \<ge> 0"
    and "mount_create_and_finish env fsfd im = (mevs, ec, im')" "mount_env_ok env"
  shows "may_leave own ec (evs @ mevs) (-1) im'"
proof -
  note m = mount_phase2_trace [OF assms(5,6)]
  have "handles own evs (owned (im_dev_fd im) + owned (im_stop_efd im) + owned fsfd)"
    using assms(1) by (simp add: may_leave_def)
  from handles_append [OF this] handles_frame [OF m(5), of "owned (im_dev_fd im) + owned (im_stop_efd im)"]
  have "handles own (evs @ mevs) (owned (im_dev_fd im) + owned (im_stop_efd im))"
    by (simp add: ac_simps)
  with assms(1-4) m show ?thesis by (auto simp: may_leave_def)
qed


lemma map_entries_zero:
  assumes "map_entries env pb k es = (es', 0)" "i < length es"
  shows "se_mmap env (k + i) = 0"
  using assms
proof (induction es arbitrary: k es' i)
  case (Cons e es)
  from Cons.prems(1) obtain es1 where "se_mmap env k = 0" "map_entries env pb (Suc k) es = (es1, 0)"
    by (auto split: if_splits prod.splits)
  with Cons.IH [of "Suc k" es1 "i - 1"] Cons.prems(2) show ?case by (cases i) auto
qed simp

lemma register_all_zero: "register_all env is w = (w', 0) \<Longrightarrow> i \<in> set is \<Longrightarrow> se_sqe env (Suc i)"
  by (induction env "is" w rule: register_all.induct) (auto split: if_splits simp: errno_defs)

lemma started_ok:
  assumes "start env (RingWorker_new im qid depth pb) = (w, 0)" "depth < 2 ^ 32" "16 + pb < 2 ^ 32"
  shows "worker_ok w" "w_payload_bytes w = pb" "w_depth w = depth" "commits (w_log w) = []"
    "armed (w_log w) = {..<depth}"
proof -
  let ?w = "RingWorker_new im qid depth pb"
  obtain es err where es: "map_entries env pb 0 (replicate depth Entry_new) = (es, err)" by fastforce
  let ?w1 = "log_event (Prepared (PollAdd (im_stop_efd (w_impl ?w)) kStopSentinel))
    (?w\<lparr>w_entries := es, w_ring_inited := True\<rparr>)"
  obtain w2 err2 where reg: "register_all env [0..<depth] ?w1 = (w2, err2)" by fastforce
  have neg: "sint x < 0 \<Longrightarrow> x \<noteq> 0" for x :: i32 by auto
  have c: "err = 0" "0 \<le> sint (se_queue_init env)" "se_sqe env 0" "err2 = 0" "0 \<le> sint (se_submit env)"
    using assms(1) es reg neg [of "se_queue_init env"] neg [of "se_submit env"]
    by (auto simp: start_def Let_def RingWorker_new_def errno_defs split: if_splits)
  have "\<forall>i < depth. se_mmap env i = 0" using map_entries_zero [of env pb 0 _ es] es c(1) by fastforce
  moreover have "\<forall>k \<le> depth. se_sqe env k"
  proof (intro allI impI)
    fix k assume "k \<le> depth"
    then show "se_sqe env k" using c(3) register_all_zero [of env "[0..<depth]" ?w1 w2 "k - 1"] reg c(4) by (cases k) auto
  qed
  ultimately show "worker_ok w" "w_payload_bytes w = pb" "w_depth w = depth" "commits (w_log w) = []"
    "armed (w_log w) = {..<depth}"
    using start_succeeds [of depth env pb im qid] c assms by auto
qed

lemma start_workers_trace:
  assumes "start_workers env im qs = (evs, ws, ec)"
  shows "errors evs = (if ec = 0 then [] else [ec])" "\<not> moved evs" "unmounts evs = 0" "handles own evs own"
    "ec = 0 \<Longrightarrow> length ws = length qs"
proof -
  have "errors evs = (if ec = 0 then [] else [ec]) \<and> \<not> moved evs \<and> unmounts evs = 0 \<and> handles own evs own \<and>
      (ec = 0 \<longrightarrow> length ws = length qs)"
    using assms
  proof (induction qs arbitrary: evs ws)
    case (Cons q qs)
    then show ?case
      by (fastforce simp: handles_def split: prod.splits if_splits)
  qed (auto simp: handles_intros)
  then show "errors evs = (if ec = 0 then [] else [ec])" "\<not> moved evs" "unmounts evs = 0" "handles own evs own"
    "ec = 0 \<Longrightarrow> length ws = length qs" by blast+
qed

lemma start_workers_ok:
  assumes "start_workers env im qs = (evs, ws, ec)" "opts_ok (im_opts im)" "w \<in> set ws"
  shows "worker_ok w" "w_payload_bytes w = opt_uring_payload_bytes (im_opts im)"
  using assms
  by (induction qs arbitrary: evs ws)
    (auto simp: opts_ok_def split: prod.splits if_splits dest: started_ok)

lemma may_leave_start:
  assumes "may_leave own ec evs fsfd im" "errors evs = []" "start_workers env im qs = (wevs, ws, wec)"
  shows "may_leave own wec (evs @ wevs) fsfd im"
  using assms(1,2) start_workers_trace(1-3) [OF assms(3)] handles_append [OF _ start_workers_trace(4) [OF assms(3)]]
  by (simp add: may_leave_def)

text \<open>
  How \<open>run\<close> ends: with everything released, or blocked; the latter only if some worker is
  never told to stop (\<open>live\<close> says that all are).
\<close>

definition exit_ok :: "int multiset \<Rightarrow> bool \<Rightarrow> run_result \<times> sys_event list \<times> 's Impl \<Rightarrow> bool" where
  "exit_ok own live x \<longleftrightarrow> (case x of (res, evs, im) \<Rightarrow>
     case res of Blocked \<Rightarrow> \<not> live | Returned ec \<Rightarrow> released own ec evs im)"

lemma exit_ok_leave: "may_leave own ec evs fsfd im \<Longrightarrow> exit_ok own live (leave n fsfd ec evs im)"
  by (cases "leave n fsfd ec evs im") (use leave_released in \<open>fastforce simp: exit_ok_def\<close>)

lemma exit_ok_join:
  assumes "may_leave own ec (p_trace p) (-1) (p_impl p)" "live \<Longrightarrow> all_stopped p"
  shows "exit_ok own live (join_and_leave ec p)"
proof -
  have "\<forall>ev \<in> set (join_all p). quiet ev" by (simp add: join_all_def quiet_def)
  from exit_ok_leave [OF may_leave_quiet [OF assms(1) this]] assms(2) show ?thesis
    by (simp add: join_and_leave_def) (auto simp: exit_ok_def)
qed

lemma exit_ok_drain:
  assumes "may_leave own ec (p_trace p) (-1) (p_impl p)" "errors (p_trace p) = []" "live \<Longrightarrow> all_stopped p"
  shows "exit_ok own live (drain F p)"
proof -
  have q: "\<forall>ev \<in> set (join_all p @ [Fs_destroy]). quiet ev" by (simp add: join_all_def quiet_def)
  have "may_leave own (worker_error p) (p_trace p) (-1) ((p_impl p)\<lparr>im_fs := fs_destroy F (im_fs (p_impl p))\<rparr>)"
    using assms by (simp add: may_leave_def)
  from exit_ok_leave [OF may_leave_quiet [OF this q]] assms(3) show ?thesis
    by (simp add: drain_def) (auto simp: exit_ok_def)
qed

text \<open>Every one of the first \<open>n\<close> queues gets a turn that ends its loop.\<close>

definition ends_all :: "nat \<Rightarrow> sched list \<Rightarrow> bool" where
  "ends_all n ts \<longleftrightarrow> (\<forall>q < n. \<exists>env \<in> set (turns_of q ts). ends_loop env)"

lemma ends_all_stopped:
  assumes "pool_rel pb ts p p'" "ends_all (length (p_workers p)) ts"
  shows "all_stopped p'"
proof -
  have "length (p_workers p') = length (p_workers p)" "\<forall>q < length (p_workers p). snd (p_workers p' ! q)"
    using assms by (simp_all add: pool_rel_def ends_all_def)
  then show ?thesis by (metis all_stopped_def in_set_conv_nth)
qed

lemma may_leave_pool:
  assumes "may_leave own ec (p_trace p) fsfd (p_impl p)" "pool_rel pb ts p p'"
  shows "may_leave own ec (p_trace p') fsfd (p_impl p')" "errors (p_trace p') = errors (p_trace p)"
    "moved (p_trace p') = moved (p_trace p)"
proof -
  obtain n where n: "p_trace p' = p_trace p @ replicate n (Sys_write_efd (im_stop_efd (p_impl p)))"
    using assms(2) unfolding pool_rel_def by blast
  have q: "\<forall>ev \<in> set (replicate n (Sys_write_efd (im_stop_efd (p_impl p)))). quiet ev" by (simp add: quiet_def)
  have "pool_frame (p_impl p) (p_impl p')" using assms(2) by (simp add: pool_rel_def)
  from may_leave_frame [OF may_leave_quiet [OF assms(1) q] this] n
  show "may_leave own ec (p_trace p') fsfd (p_impl p')" by simp
  show "errors (p_trace p') = errors (p_trace p)" "moved (p_trace p') = moved (p_trace p)"
    using n trace_quiet [OF q] by simp_all
qed

context filesystem_contract
begin

text \<open>The two ways of waiting for the workers, after an optional \<open>stop\<close>.\<close>

lemma joined_exit:
  assumes "pool_ok pb p" "\<forall>t \<in> set ts. sched_ok pb t" "may_leave own ec (p_trace p) (-1) (p_impl p)"
  shows "\<exists>x. map_option (join_and_leave ec) (pool_run F ts p) = Some x \<and>
    exit_ok own (ends_all (length (p_workers p)) ts) x"
proof -
  obtain p' where p': "pool_run F ts p = Some p'" "pool_rel pb ts p p'" using pool_run_rel [OF assms(1,2)] by blast
  from exit_ok_join [OF may_leave_pool(1) [OF assms(3) p'(2)] ends_all_stopped [OF p'(2)]] p'(1) show ?thesis by simp
qed

lemma drained_exit:
  assumes "pool_ok pb p" "\<forall>t \<in> set ts. sched_ok pb t" "may_leave own ec (p_trace p) (-1) (p_impl p)"
    and "errors (p_trace p) = []"
  shows "\<exists>x. map_option (drain F) (pool_run F ts p) = Some x \<and>
    exit_ok own (ends_all (length (p_workers p)) ts) x"
proof -
  obtain p' where p': "pool_run F ts p = Some p'" "pool_rel pb ts p p'" using pool_run_rel [OF assms(1,2)] by blast
  from exit_ok_drain [OF may_leave_pool(1) [OF assms(3) p'(2)] _ ends_all_stopped [OF p'(2)]] p'(1)
    may_leave_pool(2) [OF assms(3) p'(2)] assms(4)
  show ?thesis by simp
qed

lemma stopped_pool:
  assumes "pool_ok pb p" "may_leave own ec (p_trace p) (-1) (p_impl p)"
  shows "pool_ok pb (pool_stop p)" "may_leave own ec (p_trace (pool_stop p)) (-1) (p_impl (pool_stop p))"
  using pool_rel_stop [OF assms(1)] may_leave_pool(1) [OF assms(2)] unfolding pool_rel_def by blast+

lemma serve_session_exit:
  assumes p: "pool_ok pb p" "may_leave own 0 (p_trace p) fsfd (p_impl p)" "errors (p_trace p) = []"
      "\<not> moved (p_trace p)" "im_dev_fd (p_impl p) \<ge> 0"
    and env: "session_env_ok pb env"
  shows "\<exists>x. serve_session F env fsfd p = Some x \<and>
    exit_ok own (ends_all (length (p_workers p)) (v_serve env)) x"
proof -
  have ts: "\<forall>t \<in> set (v_boot env). sched_ok pb t" "\<forall>t \<in> set (v_serve env). sched_ok pb t"
      and me: "mount_env_ok (v_mount env)"
    using env by (auto simp: session_env_ok_def)
  obtain p1 where p1: "pool_run F (v_boot env) p = Some p1" "pool_rel pb (v_boot env) p p1"
    using pool_run_rel [OF p(1) ts(1)] by blast
  note l1 = may_leave_pool [OF p(2) p1(2)]
  have fr: "pool_frame (p_impl p) (p_impl p1)" and ok1: "pool_ok pb p1"
      and len: "length (p_workers p1) = length (p_workers p)" using p1(2) by (simp_all add: pool_rel_def)
  have dev: "im_dev_fd (p_impl p1) \<ge> 0" using pool_frame_sel(2) [OF fr] p(5) by simp
  obtain mevs ec im where m: "mount_create_and_finish (v_mount env) fsfd (p_impl p1) = (mevs, ec, im)"
    by (rule prod_cases3)
  let ?im = "if ec \<noteq> 0 then im\<lparr>im_stopping := True\<rparr> else im"
  let ?p = "p1\<lparr>p_impl := ?im, p_trace := p_trace p1 @ mevs\<rparr>"
  have "may_leave own ec (p_trace p1 @ mevs) (-1) im"
    using phase2_leave [OF l1(1) _ _ dev m me] l1(2,3) p(3,4) by simp
  then have l2: "may_leave own ec (p_trace ?p) (-1) (p_impl ?p)"
    by (simp add: may_leave_def)
  have ok2: "pool_ok pb ?p" using ok1 by (simp add: pool_ok_def)
  have err: "ec = 0 \<Longrightarrow> errors (p_trace ?p) = []"
    using l1(2) p(3) mount_phase2_trace(2) [OF m me] by simp
  note st = stopped_pool [OF ok2 l2]
  have run: "serve_session F env fsfd p =
      (if ec \<noteq> 0 then map_option (join_and_leave ec) (pool_run F (v_serve env) (pool_stop ?p))
       else if im_stopping im then map_option (join_and_leave ec) (pool_run F (v_serve env) ?p)
       else if \<not> im_init_done im then map_option (join_and_leave ec) (pool_run F (v_serve env) (pool_stop ?p))
       else map_option (drain F) (pool_run F (v_serve env) ?p))"
    unfolding serve_session_def p1(1) by (simp add: m Let_def del: pool_run.simps)
  have n: "length (p_workers ?p) = length (p_workers p)" "length (p_workers (pool_stop ?p)) = length (p_workers p)"
    using len by simp_all
  note j = joined_exit [OF st(1) ts(2) st(2), unfolded n] joined_exit [OF ok2 ts(2) l2, unfolded n]
    drained_exit [OF ok2 ts(2) l2 err, unfolded n]
  show ?thesis
  proof (cases "ec = 0 \<and> \<not> im_stopping im \<and> im_init_done im")
    case True
    then have "serve_session F env fsfd p = map_option (drain F) (pool_run F (v_serve env) ?p)"
      unfolding run by simp
    with j(3) True show ?thesis by presburger
  next
    case False
    then have "serve_session F env fsfd p = map_option (join_and_leave ec) (pool_run F (v_serve env) (pool_stop ?p)) \<or>
        serve_session F env fsfd p = map_option (join_and_leave ec) (pool_run F (v_serve env) ?p)"
      unfolding run by presburger
    with j(1,2) show ?thesis by presburger
  qed
qed

lemma launch_exit:
  assumes l: "may_leave own 0 evs fsfd im" "errors evs = []" "\<not> moved evs" "im_dev_fd im \<ge> 0"
    and opts: "opts_ok (im_opts im)" and env: "session_env_ok (opt_uring_payload_bytes (im_opts im)) env"
  shows "\<exists>x. launch_session F env fsfd evs im = Some x \<and>
    exit_ok own (ends_all (num_queues (opt_uring_queues (im_opts im)) (v_hw env)) (v_serve env)) x"
proof -
  let ?n = "num_queues (opt_uring_queues (im_opts im)) (v_hw env)"
  obtain wevs ws wec where st: "start_workers env im [0..<?n] = (wevs, ws, wec)" by (rule prod_cases3)
  note w = may_leave_start [OF l(1,2) st]
  show ?thesis
  proof (cases "wec = 0")
    case False
    obtain sevs im2 where s: "session_stop im = (sevs, im2)" by fastforce
    have q: "\<forall>ev \<in> set (sevs @ map Worker_join [0..<length ws]). quiet ev" and fr: "pool_frame im im2"
      using s by (auto simp: session_stop_def quiet_def split: if_splits)
    from exit_ok_leave [OF may_leave_frame [OF may_leave_quiet [OF w q] fr]] False st s show ?thesis
      by (simp add: launch_session_def)
  next
    case True
    let ?p = "\<lparr>p_impl = im, p_workers = map (\<lambda>w. (w, False)) ws, p_trace = evs @ wevs\<rparr>"
    have ok: "pool_ok (opt_uring_payload_bytes (im_opts im)) ?p"
      using start_workers_ok [OF st opts] by (auto simp: pool_ok_def)
    have "length (p_workers ?p) = ?n" using start_workers_trace(5) [OF st] True by simp
    moreover have "\<exists>x. serve_session F env fsfd ?p = Some x \<and>
        exit_ok own (ends_all (length (p_workers ?p)) (v_serve env)) x"
      by (rule serve_session_exit [OF ok _ _ _ _ env]) (use w True start_workers_trace [OF st] l in simp_all)
    ultimately show ?thesis using True st by (simp add: launch_session_def)
  qed
qed

lemma session_exit:
  assumes im: "fresh_session im" and opts: "opts_ok (im_opts im)"
    and env: "session_env_ok (opt_uring_payload_bytes (im_opts im)) env"
  shows "\<exists>x. session_run F s env im = Some x \<and> exit_ok (owned (opt_dev_fd (im_opts im)))
    (ends_all (num_queues (opt_uring_queues (im_opts im)) (v_hw env)) (v_serve env)) x"
proof -
  let ?own = "owned (opt_dev_fd (im_opts im))"
  have sys: "sys_ok (de_open (v_device env))" "sys_ok (de_ioctl (v_device env))" "sys_ok (v_eventfd env)"
      "mount_env_ok (v_mount env)"
    using env by (simp_all add: session_env_ok_def)
  obtain devs ec im1 where a: "acquire_device env (im\<lparr>im_fs := s\<rparr>) = (devs, ec, im1)" by (rule prod_cases3)
  have fr: "fresh_session (im\<lparr>im_fs := s\<rparr>)" using im by (simp add: fresh_session_def)
  note d = acquire_device_leave [OF fr sys(1,2) a, simplified]
  have im1: "im_stop_efd im1 = -1" "opts_ok (im_opts im1)"
      "opt_uring_payload_bytes (im_opts im1) = opt_uring_payload_bytes (im_opts im)"
      "opt_uring_queues (im_opts im1) = opt_uring_queues (im_opts im)"
    using im opts by (subst d(4), simp add: fresh_session_def opts_ok_def)+
  consider (dev) "ec \<noteq> 0" | (efd) e where "ec = 0" "v_eventfd env = Inl e"
    | (ok) efd where "ec = 0" "v_eventfd env = Inr efd"
    by (cases "v_eventfd env") auto
  then show ?thesis
  proof cases
    case dev
    with a exit_ok_leave [OF d(1)] show ?thesis by (simp add: session_run_def)
  next
    case efd
    have "handles {#} [Sys_eventfd (Inl e)] {#}" by (simp add: handles_def)
    from exit_ok_leave [OF may_leave_fail [OF d(1) _ this]] d(3) efd a show ?thesis
      by (simp add: session_run_def)
  next
    case ok
    let ?evs = "devs @ [Sys_eventfd (Inr efd)]" and ?im = "im1\<lparr>im_stop_efd := efd\<rparr>"
    have d0: "may_leave ?own 0 devs (-1) im1" "errors devs = []" "im_dev_fd im1 \<ge> 0" "efd \<ge> 0"
      using d ok sys(3) by simp_all
    have e: "may_leave ?own 0 ?evs (-1) ?im" by (rule eventfd_leave [OF d0(1) im1(1) d0(4,2)])
    have asg: "UniqueFd_assign (-1) efd = ([], efd, -1)" by (simp add: UniqueFd_assign_def UniqueFd_reset_def)
    obtain mevs r where m: "mount_open_and_set_fd (v_mount env) ?im = (mevs, r)" by fastforce
    note mt = mount_phase1_trace [OF m sys(4)]
    have run: "session_run F s env im = (case r of Inl e \<Rightarrow> Some (leave 0 (-1) e (?evs @ mevs) ?im)
        | Inr fsfd \<Rightarrow> launch_session F env fsfd (?evs @ mevs) ?im)"
      using a ok im1(1) asg m by (simp add: session_run_def Let_def split: sum.split)
    show ?thesis
    proof (cases r)
      case (Inl e1)
      have "may_leave ?own e1 (?evs @ mevs) (-1) ?im"
        by (rule may_leave_fail [OF e]) (use mt Inl d0(2) in simp_all)
      with exit_ok_leave run Inl show ?thesis by simp
    next
      case (Inr fsfd)
      have f: "may_leave ?own 0 (?evs @ mevs) fsfd ?im"
        by (rule phase1_leave [OF e _ _ m [unfolded Inr] sys(4)]) (use d0(2) d(2) in simp_all)
      have "\<exists>x. launch_session F env fsfd (?evs @ mevs) ?im = Some x \<and> exit_ok ?own
          (ends_all (num_queues (opt_uring_queues (im_opts ?im)) (v_hw env)) (v_serve env)) x"
        by (rule launch_exit [OF f]) (use d0 d(2) mt Inr im1 env in simp_all)
      with run Inr im1(4) show ?thesis by simp
    qed
  qed
qed

end


subsection \<open>A stop that comes too early\<close>

definition silent :: "sys_event list \<Rightarrow> bool" where
  "silent evs \<longleftrightarrow> (\<forall>fd. Sys_write_efd fd \<notin> set evs) \<and> Fs_destroy \<notin> set evs"

lemma silent_append [simp]: "silent (xs @ ys) \<longleftrightarrow> silent xs \<and> silent ys"
  by (auto simp: silent_def)

lemma silent_destroy [simp]: "silent (UniqueFd_destroy fd)"
  by (simp add: silent_def UniqueFd_destroy_def UniqueFd_reset_def)

lemma leave_silent:
  assumes "leave n fsfd ec evs im = (res, evs', im')"
  shows "moved evs' = moved evs" "silent evs' = silent evs"
proof -
  have td: "\<not> moved (map Worker_teardown [0..<n])" "silent (map Worker_teardown [0..<n])"
    by (auto simp: moved_def silent_def)
  from assms td show "moved evs' = moved evs" "silent evs' = silent evs"
    by (auto simp: leave_def umount_on_exit_def UniqueFd_reset_def split: if_splits)
      (auto simp: silent_def)
qed

lemma join_silent:
  assumes "join_and_leave ec p = (res, evs, im)"
  shows "moved evs = moved (p_trace p)" "silent evs = silent (p_trace p)"
proof -
  have j: "\<not> moved (join_all p)" "silent (join_all p)" by (auto simp: moved_def silent_def join_all_def)
  show "moved evs = moved (p_trace p)" "silent evs = silent (p_trace p)"
    using assms j leave_silent by (fastforce simp: join_and_leave_def split: if_splits)+
qed

lemma pool_silent:
  assumes "pool_rel pb ts p p'"
  shows "moved (p_trace p') = moved (p_trace p)"
    "Stop_call \<notin> set ts \<Longrightarrow> p_trace p' = p_trace p \<and> im_stopping (p_impl p') = im_stopping (p_impl p)"
  using assms unfolding pool_rel_def by (auto simp: moved_def)

lemma mount_silent:
  "mount_open_and_set_fd env im = (evs, r) \<Longrightarrow> silent evs"
  "mount_create_and_finish env fsfd im = (evs', ec, im') \<Longrightarrow> silent evs'"
  by (auto simp: mount_open_and_set_fd_def mount_create_and_finish_def Let_def silent_def UniqueFd_destroy_def
      UniqueFd_reset_def split: sum.splits if_splits)

lemma acquire_silent: "acquire_device env im = (evs, ec, im') \<Longrightarrow> silent evs \<and> im_stopping im' = im_stopping im"
  by (auto simp: acquire_device_def open_fex_device_def UniqueFd_assign_def UniqueFd_reset_def UniqueFd_destroy_def
      silent_def split: sum.splits if_splits)

lemma start_silent: "start_workers env im qs = (evs, ws, 0) \<Longrightarrow> silent evs"
  by (induction qs arbitrary: evs ws) (fastforce simp: silent_def split: prod.splits if_splits)+

context filesystem_contract
begin

lemma serve_stopped_early:
  assumes p: "pool_ok pb p" "im_stopping (p_impl p)" "silent (p_trace p)" "\<not> moved (p_trace p)"
    and env: "session_env_ok pb env" "Stop_call \<notin> set (v_boot env @ v_serve env)"
    and run: "serve_session F env fsfd p = Some (res, evs, im')" "moved evs"
  shows "silent evs"
proof -
  have ts: "\<forall>t \<in> set (v_boot env). sched_ok pb t" "\<forall>t \<in> set (v_serve env). sched_ok pb t"
      and me: "mount_env_ok (v_mount env)"
    using env(1) by (auto simp: session_env_ok_def)
  obtain p1 where p1: "pool_run F (v_boot env) p = Some p1" "pool_rel pb (v_boot env) p p1"
    using pool_run_rel [OF p(1) ts(1)] by blast
  note s1 = pool_silent(2) [OF p1(2)]
  have ok1: "pool_ok pb p1" using p1(2) by (simp add: pool_rel_def)
  obtain mevs ec im where m: "mount_create_and_finish (v_mount env) fsfd (p_impl p1) = (mevs, ec, im)"
    by (rule prod_cases3)
  note mt = mount_phase2_trace(3,4) [OF m me]
  define p2 where "p2 = p1\<lparr>p_impl := if ec \<noteq> 0 then im\<lparr>im_stopping := True\<rparr> else im, p_trace := p_trace p1 @ mevs\<rparr>"
  have ok2: "pool_ok pb p2" "pool_ok pb (pool_stop p2)" using ok1 by (simp_all add: pool_ok_def p2_def)
  show ?thesis
  proof (cases "ec = 0")
    case True
    obtain p3 where p3: "pool_run F (v_serve env) p2 = Some p3" "pool_rel pb (v_serve env) p2 p3"
      using pool_run_rel [OF ok2(1) ts(2)] by blast
    have "im_stopping im" using mt(2) True s1 env(2) p(2) by simp
    then have "join_and_leave 0 p3 = (res, evs, im')"
      using run(1) p1(1) m True p3(1) unfolding serve_session_def p2_def by simp
    from join_silent(2) [OF this] pool_silent(2) [OF p3(2)] env(2) s1 p(3) mount_silent(2) [OF m] show ?thesis
      by (simp add: p2_def)
  next
    case False
    obtain p3 where p3: "pool_run F (v_serve env) (pool_stop p2) = Some p3" "pool_rel pb (v_serve env) (pool_stop p2) p3"
      using pool_run_rel [OF ok2(2) ts(2)] by blast
    have "join_and_leave ec p3 = (res, evs, im')"
      using run(1) p1(1) m False p3(1) unfolding serve_session_def p2_def by simp
    from join_silent(1) [OF this] pool_silent(1) [OF p3(2)] pool_silent(1) [OF p1(2)] p(4) mt(1) False
    have "\<not> moved evs" by (simp add: p2_def)
    with run(2) show ?thesis by simp
  qed
qed

lemma launch_stopped_early:
  assumes l: "silent evs" "\<not> moved evs" "im_stopping im" and opts: "opts_ok (im_opts im)"
    and env: "session_env_ok (opt_uring_payload_bytes (im_opts im)) env" "Stop_call \<notin> set (v_boot env @ v_serve env)"
    and run: "launch_session F env fsfd evs im = Some (res, evs', im')" "moved evs'"
  shows "silent evs'"
proof -
  let ?n = "num_queues (opt_uring_queues (im_opts im)) (v_hw env)"
  obtain wevs ws wec where st: "start_workers env im [0..<?n] = (wevs, ws, wec)" by (rule prod_cases3)
  note w = start_workers_trace(2) [OF st]
  show ?thesis
  proof (cases "wec = 0")
    case True
    let ?p = "\<lparr>p_impl = im, p_workers = map (\<lambda>w. (w, False)) ws, p_trace = evs @ wevs\<rparr>"
    have "pool_ok (opt_uring_payload_bytes (im_opts im)) ?p"
      using start_workers_ok [OF st opts] by (auto simp: pool_ok_def)
    moreover have "serve_session F env fsfd ?p = Some (res, evs', im')"
      using run(1) st True by (simp add: launch_session_def)
    ultimately show ?thesis
      using serve_stopped_early [of _ ?p, OF _ _ _ _ env _ run(2)] l w start_silent st True by fastforce
  next
    case False
    obtain sevs im2 where s: "session_stop im = (sevs, im2)" by fastforce
    have "leave (length ws) fsfd wec (evs @ wevs @ sevs @ map Worker_join [0..<length ws]) im2 = (res, evs', im')"
      using run(1) st False s by (simp add: launch_session_def)
    moreover have "\<not> moved sevs" "\<not> moved (map Worker_join [0..<length ws])"
      using s by (auto simp: session_stop_def moved_def split: if_splits)
    ultimately show ?thesis using leave_silent(1) run(2) l(2) w by fastforce
  qed
qed

lemma run_stopped_early:
  assumes im: "fresh_session im" "im_stopping im" and opts: "opts_ok (im_opts im)"
    and env: "session_env_ok (opt_uring_payload_bytes (im_opts im)) env" "Stop_call \<notin> set (v_boot env @ v_serve env)"
    and run: "session_run F s env im = Some (res, evs, im')" "moved evs"
  shows "silent evs"
proof -
  have sys: "sys_ok (de_open (v_device env))" "sys_ok (de_ioctl (v_device env))" "mount_env_ok (v_mount env)"
    using env by (simp_all add: session_env_ok_def)
  obtain devs ec im1 where a: "acquire_device env (im\<lparr>im_fs := s\<rparr>) = (devs, ec, im1)" by (rule prod_cases3)
  have fr: "fresh_session (im\<lparr>im_fs := s\<rparr>)" using im by (simp add: fresh_session_def)
  note d = acquire_device_leave [OF fr sys(1,2) a, simplified]
  have im1: "im_stop_efd im1 = -1" "opts_ok (im_opts im1)"
      "opt_uring_payload_bytes (im_opts im1) = opt_uring_payload_bytes (im_opts im)"
    using im opts by (subst d(4), simp add: fresh_session_def opts_ok_def)+
  have ec: "ec = 0"
    using run a d(2) leave_silent(1) by (fastforce simp: session_run_def)
  obtain efd where efd: "v_eventfd env = Inr efd"
    using run a d(2) ec leave_silent(1) by (cases "v_eventfd env") (fastforce simp: session_run_def)+
  have asg: "UniqueFd_assign (-1) efd = ([], efd, -1)" by (simp add: UniqueFd_assign_def UniqueFd_reset_def)
  let ?im = "im1\<lparr>im_stop_efd := efd\<rparr>"
  obtain mevs r where m: "mount_open_and_set_fd (v_mount env) ?im = (mevs, r)" by fastforce
  note mt = mount_phase1_trace [OF m sys(3)]
  have step: "session_run F s env im = (case r of Inl e \<Rightarrow> Some (leave 0 (-1) e (devs @ [Sys_eventfd (Inr efd)] @ mevs) ?im)
      | Inr fsfd \<Rightarrow> launch_session F env fsfd (devs @ [Sys_eventfd (Inr efd)] @ mevs) ?im)"
    using a ec efd im1(1) asg m by (simp add: session_run_def Let_def split: sum.split)
  show ?thesis
  proof (cases r)
    case (Inl e)
    with run step leave_silent(1) [of 0 "-1" e] d(2) mt(1) show ?thesis by fastforce
  next
    case (Inr fsfd)
    have pre: "silent (devs @ [Sys_eventfd (Inr efd)] @ mevs)" "\<not> moved (devs @ [Sys_eventfd (Inr efd)] @ mevs)"
        "im_stopping ?im"
      using acquire_silent [OF a] mount_silent(1) [OF m] d(2) mt(1) im(2) by (simp_all add: silent_def)
    show ?thesis
      by (rule launch_stopped_early [OF pre _ _ env(2) _ run(2)]) (use im1 env(1) run(1) step Inr in simp_all)
  qed
qed

end

subsection \<open>Properties\<close>

definition sample_opts :: SessionOptions where
  "sample_opts = SessionOptions_default\<lparr>opt_mountpoint := ''/m'', opt_uring_queues := 1,
     opt_uring_queue_depth := 1, opt_uring_payload_bytes := 32\<rparr>"

definition sample_mount_env :: mount_env where
  "sample_mount_env = \<lparr>me_fsopen = Inr 5, me_set_fd = Inr 0, me_source = Inr 0, me_create = Inr 0,
     me_fsmount = Inr 6, me_move = Inr 0\<rparr>"

definition sample_stop_turn :: run_env where
  "sample_stop_turn = sample_turn\<lparr>re_wait := Cqe kStopSentinel (-1) []\<rparr>"

definition sample_session_env :: "sched list \<Rightarrow> session_env" where
  "sample_session_env ts = \<lparr>v_device = \<lparr>de_open = Inr 3, de_ioctl = Inr 0\<rparr>, v_eventfd = Inr 4,
     v_mount = sample_mount_env, v_hw = 8, v_start = (\<lambda>q. sample_start_env), v_boot = [], v_serve = ts\<rparr>"

lemmas sample_session_defs = sample_opts_def sample_mount_env_def sample_stop_turn_def sample_session_env_def
  sample_start_env_def sample_turn_def SessionOptions_default_def Impl_new_def

lemma sample_env_ok: "session_env_ok 32 (sample_session_env [Turn 0 sample_stop_turn])"
  "session_env_ok 32 (sample_session_env [])" "opts_ok sample_opts"
  "opt_uring_payload_bytes sample_opts = 32" "opt_uring_queues sample_opts = 1" "opt_dev_fd sample_opts = -1"
  by (simp_all add: session_env_ok_def mount_env_ok_def env_ok_def opts_ok_def sample_session_defs)

lemma sample_session_runs:
  "\<exists>im'. session_run journal_fs [] (sample_session_env [Turn 0 sample_stop_turn]) (Impl_new sample_opts []) =
     Some (Returned 0,
       [Sys_open (Inr 3), Sys_ioctl_sync_init 3 (Inr 0), Sys_eventfd (Inr 4), Sys_fsopen (Inr 5),
        Sys_fsconfig_set_fd 5 3 (Inr 0), Worker_start 0 0, Sys_fsconfig_create 5 (Inr 0), Sys_fsmount 5 0 (Inr 6),
        Sys_move_mount 6 ''/m'' (Inr 0), Sys_close 6, Sys_close 5, Sys_write_efd 4, Worker_join 0, Worker_teardown 0,
        Sys_close 3, Sys_umount2 ''/m''], im')"
  "\<exists>im'. session_run journal_fs [] (sample_session_env []) (snd (session_stop (Impl_new sample_opts []))) =
     Some (Blocked,
       [Sys_open (Inr 3), Sys_ioctl_sync_init 3 (Inr 0), Sys_eventfd (Inr 4), Sys_fsopen (Inr 5),
        Sys_fsconfig_set_fd 5 3 (Inr 0), Worker_start 0 0, Sys_fsconfig_create 5 (Inr 0), Sys_fsmount 5 0 (Inr 6),
        Sys_move_mount 6 ''/m'' (Inr 0), Sys_close 6, Sys_close 5], im')"
  by (simp_all add: session_run_def launch_session_def serve_session_def acquire_device_def open_fex_device_def
      mount_open_and_set_fd_def mount_create_and_finish_def mount_attr_flags_def UniqueFd_assign_def UniqueFd_reset_def
      UniqueFd_destroy_def UniqueFd_valid_def num_queues_def start_def Let_def sample_session_defs pool_turn_def
      run_step_def join_and_leave_def join_all_def all_stopped_def leave_def umount_on_exit_def session_stop_def
      RingWorker_new_def log_event_def)


text \<open>
  C12. Over the whole life of a session (construction, any run that returns, destruction), on
  every success and failure path and for any interleaving of the workers and of calls of
  \<open>stop\<close>: every descriptor the session opens, and the device descriptor handed to it in the
  options, is closed exactly once, and no other descriptor is ever closed.
\<close>

theorem session_releases_all:
  assumes "filesystem_contract F" "opts_ok opts" "session_env_ok (opt_uring_payload_bytes opts) env"
    and "session_run F s env (Impl_new opts s0) = Some (Returned ec, evs, im')"
  shows "handles (owned (opt_dev_fd opts)) (evs @ session_destroy im') {#}"
  using filesystem_contract.session_exit [OF assms(1), of "Impl_new opts s0" env s] assms(2-4)
  by (simp add: fresh_session_def Impl_new_def exit_ok_def released_def)

theorem session_releases_all_witness:
  "\<exists>evs im'. session_run journal_fs [] (sample_session_env [Turn 0 sample_stop_turn]) (Impl_new sample_opts []) =
     Some (Returned 0, evs, im') \<and> closes_ok {#} (evs @ session_destroy im') \<and> open_fds {#} (evs @ session_destroy im') = {#}"
proof -
  obtain evs im' where run: "session_run journal_fs [] (sample_session_env [Turn 0 sample_stop_turn])
      (Impl_new sample_opts []) = Some (Returned 0, evs, im')"
    using sample_session_runs(1) by blast
  from session_releases_all [OF journal.filesystem_contract_axioms sample_env_ok(3) _ run]
  have "handles {#} (evs @ session_destroy im') {#}" by (simp add: sample_env_ok)
  then have "open_fds ({#} + {#}) (evs @ session_destroy im') = {#} + {#} \<and>
      closes_ok ({#} + {#}) (evs @ session_destroy im')"
    unfolding handles_def by blast
  with run show ?thesis by auto
qed

text \<open>
  C14. The mount never outlives \<open>run\<close>: if \<open>move_mount\<close> installed it, then the very last actions
  are to close the device and then to unmount the place it was moved to, once; if it did not, nothing is unmounted.
\<close>

theorem umount_after_close:
  assumes "filesystem_contract F" "opts_ok opts" "session_env_ok (opt_uring_payload_bytes opts) env"
    and "session_run F s env (Impl_new opts s0) = Some (Returned ec, evs, im')"
  shows "\<not> im_mount_installed im' \<and>
    (if moved evs
     then \<exists>before dev mp. dev \<ge> 0 \<and> unmounts before = 0 \<and> moved_to mp before \<and>
       evs = before @ [Sys_close dev, Sys_umount2 mp]
     else unmounts evs = 0)"
  using filesystem_contract.session_exit [OF assms(1), of "Impl_new opts s0" env s] assms(2-4)
  by (auto simp: fresh_session_def Impl_new_def exit_ok_def released_def split: if_splits)

theorem umount_after_close_witness:
  "\<exists>evs im'. session_run journal_fs [] (sample_session_env [Turn 0 sample_stop_turn]) (Impl_new sample_opts []) =
     Some (Returned 0, evs, im') \<and> moved evs \<and>
     (\<exists>before dev mp. unmounts before = 0 \<and> moved_to mp before \<and>
       evs = before @ [Sys_close dev, Sys_umount2 mp])"
proof -
  obtain evs im' where run: "session_run journal_fs [] (sample_session_env [Turn 0 sample_stop_turn])
      (Impl_new sample_opts []) = Some (Returned 0, evs, im')" "moved evs"
    using sample_session_runs(1) by fastforce
  from umount_after_close [OF journal.filesystem_contract_axioms sample_env_ok(3) _ run(1)] run show ?thesis
    by (auto simp: sample_env_ok)
qed



text \<open>
  C17. \<open>run\<close> returns: whatever succeeds or fails before, once every queue's worker sees the stop
  poll (or a failing wait), \<open>run\<close> has joined them all and comes back.
\<close>

theorem session_returns:
  assumes "filesystem_contract F" "opts_ok opts" "session_env_ok (opt_uring_payload_bytes opts) env"
    and "ends_all (num_queues (opt_uring_queues opts) (v_hw env)) (v_serve env)"
  shows "\<exists>ec evs im'. session_run F s env (Impl_new opts s0) = Some (Returned ec, evs, im')"
proof -
  obtain x where "session_run F s env (Impl_new opts s0) = Some x" "exit_ok (owned (opt_dev_fd opts)) True x"
    using filesystem_contract.session_exit [OF assms(1), of "Impl_new opts s0" env s] assms(2-4)
    by (auto simp: fresh_session_def Impl_new_def)
  then show ?thesis by (cases x; cases "fst x") (auto simp: exit_ok_def)
qed

theorem session_returns_witness:
  "\<exists>ec evs im'. session_run journal_fs [] (sample_session_env [Turn 0 sample_stop_turn]) (Impl_new sample_opts []) =
     Some (Returned ec, evs, im')"
  by (rule session_returns [OF journal.filesystem_contract_axioms sample_env_ok(3)])
    (simp_all add: sample_env_ok num_queues_def ends_all_def, simp add: sample_session_defs ends_loop_def)




text \<open>
  C37. A \<open>stop\<close> that arrives before \<open>run\<close> has created the eventfd is not delivered: if no
  further \<open>stop\<close> follows and the mount succeeds, \<open>run\<close> goes on to wait for its workers without
  ever having written the eventfd that would wake them; and \<open>destroy\<close> is not called.
\<close>

theorem early_stop_not_delivered:
  assumes "filesystem_contract F" "opts_ok opts" "session_env_ok (opt_uring_payload_bytes opts) env"
    and "Stop_call \<notin> set (v_boot env @ v_serve env)"
    and "session_run F s env (snd (session_stop (Impl_new opts s0))) = Some (res, evs, im')" "moved evs"
  shows "Sys_write_efd fd \<notin> set evs \<and> Fs_destroy \<notin> set evs"
  using filesystem_contract.run_stopped_early [OF assms(1), of "snd (session_stop (Impl_new opts s0))" env s res evs im']
    assms(2-6)
  by (simp add: fresh_session_def session_stop_def Impl_new_def silent_def)

theorem early_stop_not_delivered_witness:
  "\<exists>evs im'. session_run journal_fs [] (sample_session_env []) (snd (session_stop (Impl_new sample_opts []))) =
     Some (Blocked, evs, im') \<and> Sys_write_efd 4 \<notin> set evs"
proof -
  obtain evs im' where run: "session_run journal_fs [] (sample_session_env [])
      (snd (session_stop (Impl_new sample_opts []))) = Some (Blocked, evs, im')" "moved evs"
    using sample_session_runs(2) by fastforce
  have "Stop_call \<notin> set (v_boot (sample_session_env []) @ v_serve (sample_session_env []))"
    by (simp add: sample_session_env_def)
  from early_stop_not_delivered [OF journal.filesystem_contract_axioms sample_env_ok(3) _ this run, of 4] run(1)
  show ?thesis by (auto simp: sample_env_ok)
qed

end
