(* ===== verification/Passthrough_Safe.thy ===== *)
theory Passthrough_Safe
  imports Passthrough_Fds Fs_Steps Session_Exit
begin

text \<open>
  The passthrough daemon behind the library: it satisfies the contract of the dispatcher, its
  descriptor invariant holds at any time of any session, its inode table is a reference
  count, its \<open>readdir\<close> packs what the directory stream delivers, and where it does not reach
  the backing file.
\<close>

subsection \<open>readdir\<close>

text \<open>One entry of a directory stream with the position after it, and \<open>n\<close> of them.\<close>

definition next_entry :: "os \<Rightarrow> int \<Rightarrow> PassthroughFs \<Rightarrow> (i32 + dirent) \<times> PassthroughFs" where
  "next_entry os d s = (case sys os (Readdir d) s of
     (Inl e, s1) \<Rightarrow> (Inl e, s1)
   | (Inr v, s1) \<Rightarrow>
       let de = os_dirent os (pt_log s) (Readdir d) in
       case sys os (Telldir d) s1 of (r, s2) \<Rightarrow>
         (Inr \<lparr>d_name = c_str (sd_name de), d_ino = sd_ino de,
               d_off = (case r of Inl e \<Rightarrow> -1 | Inr t \<Rightarrow> word_of_int t), d_type = ucast (sd_type de)\<rparr>, s2))"

fun read_n :: "os \<Rightarrow> int \<Rightarrow> nat \<Rightarrow> PassthroughFs \<Rightarrow> (dirent list \<times> PassthroughFs) option" where
  "read_n os d 0 s = Some ([], s)"
| "read_n os d (Suc n) s = (case next_entry os d s of
     (Inl e, s1) \<Rightarrow> None
   | (Inr e, s1) \<Rightarrow> map_option (\<lambda>(es, s2). (e # es, s2)) (read_n os d n s1))"

lemma readdir_loop_next:
  "readdir_loop os d off w s = (case next_entry os d s of
     (Inl e, s1) \<Rightarrow> Some (if e \<noteq> 0 then Inl e else Inr (), w, s1)
   | (Inr e, s2) \<Rightarrow>
       (case DirentWriter_add w (d_name e) (d_ino e) (d_off e) (d_type e) of
          None \<Rightarrow> None
        | Some (False, w) \<Rightarrow> Some (Inr (), w, snd (sys os (Seekdir d off) s2))
        | Some (True, w) \<Rightarrow> readdir_loop os d (d_off e) w s2))"
  by (subst readdir_loop.simps) (simp add: next_entry_def Let_def split: prod.split sum.split option.split bool.split)

declare readdir_loop.simps [simp del]

text \<open>
  How a \<open>readdir\<close> ends: with the stream (at its end, or with an error), or with the first entry
  that does not fit, and then the stream is back behind the last entry packed.
\<close>

definition readdir_ends :: "os \<Rightarrow> int \<Rightarrow> u64 \<Rightarrow> PassthroughFs \<Rightarrow> DirentWriter \<Rightarrow> dirent list \<Rightarrow>
    Errc + unit \<Rightarrow> PassthroughFs \<Rightarrow> bool" where
  "readdir_ends os d off s w es rv s' \<longleftrightarrow> (\<exists>s1. read_n os d (length es) s = Some (es, s1) \<and>
     ((\<exists>e. next_entry os d s1 = (Inl e, s') \<and> rv = (if e \<noteq> 0 then Inl e else Inr ())) \<or>
      (\<exists>e s2. next_entry os d s1 = (Inr e, s2) \<and> length (dw_buf w) < dw_pos w + length (dirent_bytes e) \<and>
         rv = Inr () \<and> s' = snd (sys os (Seekdir d (last (off # map d_off es))) s2))))"

lemma readdir_loop_ends:
  assumes "dw_holds w pre"
  shows "\<exists>rv w' s' es. readdir_loop os d off w s = Some (rv, w', s') \<and> dw_reach w w' \<and>
    dw_holds w' (pre @ es) \<and> readdir_ends os d off s w' es rv s'"
  using assms
proof (induction "length (dw_buf w) - dw_pos w" arbitrary: w s off pre rule: less_induct)
  case less
  obtain r s1 where nx: "next_entry os d s = (r, s1)" by fastforce
  show ?case
  proof (cases r)
    case (Inl e)
    with nx less.prems show ?thesis
      by (subst readdir_loop_next)
        (auto simp: readdir_ends_def intro!: exI [of _ "[] :: dirent list"] dw_refl)
  next
    case (Inr e)
    from dw_holds_add [OF less.prems, of e] show ?thesis
    proof (elim disjE exE conjE)
      assume full: "DirentWriter_add w (d_name e) (d_ino e) (d_off e) (d_type e) = Some (False, w)"
        "length (dw_buf w) < dw_pos w + length (dirent_bytes e)"
      with nx Inr less.prems show ?thesis
        by (subst readdir_loop_next)
          (auto simp: readdir_ends_def intro!: exI [of _ "[] :: dirent list"] dw_refl)
    next
      fix w1
      assume add: "DirentWriter_add w (d_name e) (d_ino e) (d_off e) (d_type e) = Some (True, w1)"
        and w1: "dw_holds w1 (pre @ [e])" "length (dw_buf w1) = length (dw_buf w)"
      obtain rv w' s' es where ih: "readdir_loop os d (d_off e) w1 s1 = Some (rv, w', s')" "dw_reach w1 w'"
          "dw_holds w' ((pre @ [e]) @ es)" "readdir_ends os d (d_off e) s1 w' es rv s'"
        using less.hyps [OF DirentWriter_add_less [OF add] w1(1), of "d_off e" s1] by blast
      have "dw_reach w w1" using dw_add [OF dw_refl add] .
      then have "dw_reach w w'" by (rule dw_reach_trans [OF ih(2)])
      moreover have "readdir_ends os d off s w' (e # es) rv s'"
        using ih(4) nx Inr by (auto simp: readdir_ends_def)
      moreover have "readdir_loop os d off w s = Some (rv, w', s')"
        using nx Inr add ih(1) by (subst readdir_loop_next) simp
      ultimately show ?thesis using ih(3) by (intro exI [of _ rv] exI [of _ w'] exI [of _ s'] exI [of _ "e # es"]) simp
    qed
  qed
qed

subsection \<open>The contract of the dispatcher\<close>

lemma length_fill [simp]: "length (fill buf d) = length buf"
  by (simp add: fill_def)

lemma sys_read_span: "sys_read os c buf s = (rv, buf', s') \<Longrightarrow> length buf' = length buf"
  by (auto simp: sys_read_def split: prod.splits sum.splits)

text \<open>For the contract the entries already in the writer do not matter.\<close>

lemma readdir_loop_reach:
  assumes "dw_ok w"
  shows "\<exists>rv w' s'. readdir_loop os d off w s = Some (rv, w', s') \<and> dw_reach w w'"
  using assms
proof (induction "length (dw_buf w) - dw_pos w" arbitrary: w s off rule: less_induct)
  case less
  obtain r s1 where nx: "next_entry os d s = (r, s1)" by fastforce
  show ?case
  proof (cases r)
    case (Inl e)
    with nx show ?thesis by (subst readdir_loop_next) (auto intro: dw_refl)
  next
    case (Inr e)
    obtain b w1 where add: "DirentWriter_add w (d_name e) (d_ino e) (d_off e) (d_type e) = Some (b, w1)" "dw_ok w1"
      using DirentWriter_add_safe [OF less.prems] by blast
    have r: "dw_reach w w1" using dw_add [OF dw_refl add(1)] .
    show ?thesis
    proof (cases b)
      case True
      then have "length (dw_buf w1) - dw_pos w1 < length (dw_buf w) - dw_pos w"
        using add(1) DirentWriter_add_less [of w "d_name e" "d_ino e" "d_off e" "d_type e" w1] by simp
      from less.hyps [OF this add(2), of "d_off e" s1] obtain rv w' s' where
        "readdir_loop os d (d_off e) w1 s1 = Some (rv, w', s')" "dw_reach w1 w'" by blast
      with nx Inr add True dw_reach_trans [OF _ r] show ?thesis by (subst readdir_loop_next) auto
    next
      case False
      with nx Inr add r show ?thesis by (subst readdir_loop_next) auto
    qed
  qed
qed

interpretation passthrough: filesystem_contract "passthrough_fs os"
proof unfold_locales
  fix s c n fh off buf rv buf' s'
  assume "fs_read (passthrough_fs os) s c n fh off buf = (rv, buf', s')"
  then show "length buf' = length buf"
    by (auto simp: passthrough_fs_def pt_read_def split: prod.splits sum.splits dest: sys_read_span)
next
  fix s c n name buf rv buf' s'
  assume "fs_getxattr (passthrough_fs os) s c n name buf = (rv, buf', s')"
  then show "length buf' = length buf"
    by (auto simp: passthrough_fs_def pt_getxattr_def split: option.splits dest: sys_read_span)
next
  fix s c n buf rv buf' s'
  assume "fs_listxattr (passthrough_fs os) s c n buf = (rv, buf', s')"
  then show "length buf' = length buf"
    by (auto simp: passthrough_fs_def pt_listxattr_def split: option.splits dest: sys_read_span)
next
  fix w s c n fh off
  assume "dw_ok w"
  then show "\<exists>rv w' s'. fs_readdir (passthrough_fs os) s c n fh off w = Some (rv, w', s') \<and> dw_reach w w'"
    using readdir_loop_reach
    by (auto simp: passthrough_fs_def pt_readdir_def intro: dw_refl split: option.split)
qed

subsection \<open>The descriptor invariant\<close>

lemma owns_simple:
  assumes "owns T s"
  shows "owns T (snd (pt_unlink os s ctx n name))" "owns T (snd (pt_rmdir os s ctx n name))"
    "owns T (snd (pt_rename os s ctx n name n2 name2 fl))" "owns T (snd (pt_link os s ctx n n2 name))"
    "owns T (snd (pt_setxattr os s ctx n name val fl))" "owns T (snd (pt_removexattr os s ctx n name))"
    "owns T (snd (snd (pt_getxattr os s ctx n name buf)))" "owns T (snd (snd (pt_listxattr os s ctx n buf)))"
  using assms
  by (simp_all add: pt_unlink_def pt_rmdir_def pt_rename_def pt_link_def pt_setxattr_def pt_removexattr_def
      pt_getxattr_def pt_listxattr_def owns_intros split: option.split)

lemma owns_readlink: "owns T s \<Longrightarrow> owns T (snd (pt_readlink os s ctx n))"
proof (cases "pt_map s n")
  case (Some i)
  assume "owns T s"
  obtain rv buf s' where r: "sys_read os (Readlinkat (in_path_fd i) 4096) (zeros 4096) s = (rv, buf, s')"
    by (rule prod_cases3)
  with owns_sys_read [of "Readlinkat (in_path_fd i) 4096" T s os "zeros 4096"] \<open>owns T s\<close> have "owns T s'" by simp
  with r Some show ?thesis by (cases rv) (simp_all add: pt_readlink_def table_get_def)
qed (simp add: pt_readlink_def table_get_def)

lemma owns_statfs: "owns T s \<Longrightarrow> owns T (snd (pt_statfs os s ctx n))"
  by (auto simp: pt_statfs_def Let_def split: option.split prod.split sum.split dest: owns_sys)

lemma owns_result: "owns T (snd x) \<Longrightarrow> x = (rv, s') \<Longrightarrow> owns T s'"
  "owns T (snd (snd y)) \<Longrightarrow> y = (rv, buf, s') \<Longrightarrow> owns T s'"
  by simp_all

lemma pt_step_inv:
  assumes "fs_step (passthrough_fs os) s s'" "os_ok os" "owns T s"
  shows "owns T s'"
proof -
  note keeps = owns_lookupx [OF assms(2,3), THEN owns_result(1)] owns_statx [OF assms(3), THEN owns_result(1)]
    owns_setstatx [OF assms(3), THEN owns_result(1)] owns_mkobjx [OF assms(2,3), THEN owns_result(1)]
    owns_simple(1-6) [OF assms(3), THEN owns_result(1)] owns_simple(7,8) [OF assms(3), THEN owns_result(2)]
    owns_readlink [OF assms(3), THEN owns_result(1)] owns_open [OF assms(2,3), THEN owns_result(1)]
    owns_release [OF assms(3), THEN owns_result(1)] owns_read [OF assms(2,3), THEN owns_result(2)]
    owns_write [OF assms(2,3), THEN owns_result(1)] owns_fallocate [OF assms(2,3), THEN owns_result(1)]
    owns_statfs [OF assms(3), THEN owns_result(1)] owns_opendir [OF assms(2,3), THEN owns_result(1)]
    owns_releasedir [OF assms(3), THEN owns_result(1)] owns_readdir [OF assms(3)]
  from assms(1) show ?thesis
    using assms(3) by cases (auto simp: passthrough_fs_def pt_init_def pt_lookup_root_def default_destroy_def pt_forget_def
        table_forget_def pt_forget_multi_def intro: owns_forget owns_forget_many dest: keeps)
qed

lemma pt_new_inv:
  "backing \<ge> 0 \<Longrightarrow> owns {#} (PassthroughFs_new backing [(Open p fl, Inr backing)])"
  by (simp add: owns_def fds_ok_def PassthroughFs_new_def held_def map_fds_new fd_step_def opened_def)

subsection \<open>The inode table as a reference count\<close>

definition lookups :: "PassthroughFs \<Rightarrow> NodeId \<Rightarrow> nat" where
  "lookups s n = (case pt_map s n of None \<Rightarrow> 0 | Some i \<Rightarrow> unat (in_nlookup i))"

definition counts_ok :: "PassthroughFs \<Rightarrow> bool" where
  "counts_ok s \<longleftrightarrow> (\<forall>n i. pt_map s n = Some i \<longrightarrow> in_nlookup i \<noteq> 0)"

text \<open>The operations of the table, and what they mean for the counts.\<close>

datatype table_op = Insert int u64 | Forget NodeId u64 | Forget_many "(NodeId \<times> u64) list"

fun table_do :: "os \<Rightarrow> table_op \<Rightarrow> PassthroughFs \<Rightarrow> PassthroughFs" where
  "table_do os (Insert fd ino) s = snd (table_insert os fd ino s)"
| "table_do os (Forget n k) s = table_forget os s n k"
| "table_do os (Forget_many items) s = forget_many os s items"

definition drop_count :: "NodeId \<times> u64 \<Rightarrow> (NodeId \<Rightarrow> nat) \<Rightarrow> NodeId \<Rightarrow> nat" where
  "drop_count x c = (case x of (n, k) \<Rightarrow> if n = NodeId_root then c else c(n := c n - unat k))"

fun count_do :: "table_op \<Rightarrow> (NodeId \<Rightarrow> nat) \<Rightarrow> NodeId \<Rightarrow> nat" where
  "count_do (Insert fd ino) c = c(ino := c ino + 1)"
| "count_do (Forget n k) c = drop_count (n, k) c"
| "count_do (Forget_many items) c = fold drop_count items c"

lemma close_fd_map [simp]: "pt_map (close_fd os fd s) = pt_map s"
  by (simp add: close_fd_def sys_def Let_def)

lemma lookups_insert:
  assumes "lookups s ino + 1 < 2 ^ 64"
  shows "lookups (snd (table_insert os fd ino s)) = (lookups s)(ino := lookups s ino + 1)"
    "counts_ok s \<Longrightarrow> counts_ok (snd (table_insert os fd ino s))"
proof -
  have suc: "unat (in_nlookup i + 1) = unat (in_nlookup i) + 1" if "pt_map s ino = Some i" for i
    using assms that by (simp add: lookups_def unat_word_ariths)
  then have "in_nlookup i + 1 \<noteq> 0" if "pt_map s ino = Some i" for i
    using that by (metis Suc_eq_plus1 Zero_neq_Suc unat_0)
  with suc show "lookups (snd (table_insert os fd ino s)) = (lookups s)(ino := lookups s ino + 1)"
    "counts_ok s \<Longrightarrow> counts_ok (snd (table_insert os fd ino s))"
    by (auto simp: table_insert_def lookups_def counts_ok_def split: option.splits if_splits)
qed

lemma lookups_forget:
  "lookups (forget_locked os key n s) = (lookups s)(key := lookups s key - unat n)"
  "counts_ok s \<Longrightarrow> counts_ok (forget_locked os key n s)"
proof -
  have sub: "unat (w - n) = unat w - unat n" if "\<not> w \<le> n" for w :: u64
    using that by (simp add: unat_sub word_le_nat_alt)
  have le: "unat w - unat n = 0" if "w \<le> n" for w :: u64 using that by (simp add: word_le_nat_alt)
  show "lookups (forget_locked os key n s) = (lookups s)(key := lookups s key - unat n)"
    by (auto simp: forget_locked_def lookups_def Let_def sub le word_le_nat_alt split: option.split)
  show "counts_ok s \<Longrightarrow> counts_ok (forget_locked os key n s)"
    by (auto simp: forget_locked_def counts_ok_def Let_def split: option.split if_splits)
qed

lemma lookups_forget_many:
  "lookups (forget_many os s items) = fold drop_count items (lookups s)"
  "counts_ok s \<Longrightarrow> counts_ok (forget_many os s items)"
  by (induction os s items rule: forget_many.induct) (simp_all add: drop_count_def lookups_forget)

lemma drop_count_le: "fold drop_count items c n \<le> c n"
proof (induction items arbitrary: c)
  case (Cons x items)
  have "drop_count x c n \<le> c n" by (cases x) (simp add: drop_count_def)
  with Cons [of "drop_count x c"] show ?case by simp
qed simp

lemma table_do_counts:
  assumes "counts_ok s" "\<forall>n. lookups s n + 1 < 2 ^ 64"
  shows "lookups (table_do os t s) = count_do t (lookups s)" "counts_ok (table_do os t s)"
    "count_do t (lookups s) n \<le> lookups s n + 1"
  using assms drop_count_le [of _ "lookups s" n]
  by (cases t; auto simp: lookups_insert lookups_forget lookups_forget_many table_forget_def drop_count_def
      intro: le_SucI)+

lemma counted_present: "counts_ok s \<Longrightarrow> n \<in> dom (pt_map s) \<longleftrightarrow> 0 < lookups s n"
  by (auto simp: counts_ok_def lookups_def unat_gt_0 split: option.splits)

lemma table_run_counts:
  assumes "counts_ok s" "\<forall>n. lookups s n + length ops < 2 ^ 64"
  shows "lookups (fold (table_do os) ops s) = fold count_do ops (lookups s) \<and> counts_ok (fold (table_do os) ops s)"
  using assms
proof (induction ops arbitrary: s)
  case (Cons t ops)
  have b: "\<forall>n. lookups s n + 1 < 2 ^ 64"
  proof
    fix n show "lookups s n + 1 < 2 ^ 64" using Cons.prems(2) [rule_format, of n] by simp
  qed
  note t = table_do_counts(1,2) [OF Cons.prems(1) b, of os t] table_do_counts(3) [OF Cons.prems(1) b, of t]
  have "lookups (table_do os t s) n + length ops < 2 ^ 64" for n
    using t(1) t(3) [of n] Cons.prems(2) [rule_format, of n] by simp
  with Cons.IH [OF t(2)] t(1) show ?case by simp
qed simp

subsection \<open>What a call addresses\<close>



definition new_calls :: "PassthroughFs \<Rightarrow> PassthroughFs \<Rightarrow> call list" where
  "new_calls s s' = map fst (drop (length (pt_log s)) (pt_log s'))"

lemma new_calls_sys [simp]: "new_calls s (snd (sys os c s)) = [c]"
  by (simp add: new_calls_def sys_def Let_def)

lemma snd_sys_unit [simp]: "snd (sys_unit os c s) = snd (sys os c s)"
  by (simp add: sys_unit_def split: prod.split sum.split)

lemma snd_sys_read [simp]: "snd (snd (sys_read os c buf s)) = snd (sys os c s)"
  by (simp add: sys_read_def split: prod.split sum.split)

subsection \<open>Properties\<close>

definition sample_stat :: "u64 \<Rightarrow> stat" where
  "sample_stat ino =
     \<lparr>st_dev = 0, st_ino = ino, st_mode = 0x81a4, st_nlink = 1, st_uid = 0, st_gid = 0, st_rdev = 0, st_size = 0,
      st_blksize = 4096, st_blocks = 0, st_atim = \<lparr>tv_sec = 0, tv_nsec = 0\<rparr>,
      st_mtim = \<lparr>tv_sec = 0, tv_nsec = 0\<rparr>, st_ctim = \<lparr>tv_sec = 0, tv_nsec = 0\<rparr>\<rparr>"

text \<open>A system in which every open gives a new descriptor and directories are empty.\<close>

definition sample_os :: "u64 \<Rightarrow> os" where
  "sample_os ino =
     \<lparr>os_call = (\<lambda>log c. case c of Readdir d \<Rightarrow> Inl 0 | _ \<Rightarrow> Inr (int (length log) + 10)),
      os_stat = (\<lambda>log c. sample_stat ino),
      os_statvfs = (\<lambda>log c. \<lparr>f_bsize = 0, f_frsize = 0, f_blocks = 0, f_bfree = 0, f_bavail = 0, f_files = 0,
                               f_ffree = 0, f_namemax = 255\<rparr>),
      os_data = (\<lambda>log c. []), os_dirent = (\<lambda>log c. \<lparr>sd_ino = 0, sd_type = 0, sd_name = []\<rparr>)\<rparr>"

lemma sample_os_ok: "os_ok (sample_os ino)"
  by (auto simp: os_ok_def sample_os_def split: call.splits)

definition sample_pt :: PassthroughFs where
  "sample_pt = PassthroughFs_new 9 [(Open (Path [47]) (O_PATH OR O_DIRECTORY OR O_CLOEXEC), Inr 9)]"

text \<open>
  C5. End to end, from the bytes in the rings to the daemon's system calls: at any point of any
  session of the passthrough daemon, whatever the kernel sends and however the workers are
  interleaved, the descriptors the daemon has open are exactly those in its inode, file and
  directory tables (so nothing leaks on any error path), no descriptor is closed twice, and
  the root is still in the table. (Stated for fewer than \<open>2 ^ 64\<close> system calls, so that the
  handle counter does not wrap around.)
\<close>

theorem daemon_descriptors:
  assumes "os_ok os" "backing \<ge> 0"
    and "session_run (passthrough_fs os) (PassthroughFs_new backing [(Open p fl, Inr backing)]) env im =
      Some (res, evs, im')"
    and "length (pt_log (im_fs im')) < 2 ^ 64"
  shows "opened {#} (pt_log (im_fs im')) = held (im_fs im') \<and> closes_valid {#} (pt_log (im_fs im')) \<and>
    NodeId_root \<in> dom (pt_map (im_fs im'))"
proof -
  have "owns {#} (im_fs im')"
    by (rule fs_reach_invariant [OF session_run_reaches [OF assms(3)]])
      (use assms(1,2) in \<open>simp_all add: pt_new_inv pt_step_inv\<close>)
  with assms(4) show ?thesis by (simp add: owns_def fds_ok_def)
qed

theorem daemon_descriptors_witness:
  "\<exists>res evs im'. session_run (passthrough_fs (sample_os 5)) sample_pt
      (sample_session_env [Turn 0 sample_turn, Turn 0 sample_stop_turn]) (Impl_new sample_opts sample_pt) =
        Some (res, evs, im') \<and>
      (length (pt_log (im_fs im')) < 2 ^ 64 \<longrightarrow> opened {#} (pt_log (im_fs im')) = held (im_fs im'))"
proof -
  let ?env = "sample_session_env [Turn 0 sample_turn, Turn 0 sample_stop_turn]"
  have ok: "session_env_ok 32 ?env"
    using sample_env_ok(1) sample_turn_ok by (simp add: session_env_ok_def sample_session_env_def)
  have "fresh_session (Impl_new sample_opts sample_pt)" "im_opts (Impl_new sample_opts sample_pt) = sample_opts"
    by (simp_all add: fresh_session_def Impl_new_def)
  then obtain res evs im' where run: "session_run (passthrough_fs (sample_os 5)) sample_pt ?env
      (Impl_new sample_opts sample_pt) = Some (res, evs, im')"
    using passthrough.session_exit [of "Impl_new sample_opts sample_pt" ?env "sample_os 5" sample_pt] ok sample_env_ok
    by fastforce
  from daemon_descriptors [OF sample_os_ok _ run [unfolded sample_pt_def]] run show ?thesis
    by (auto simp: sample_pt_def)
qed

text \<open>
  C18. The inode table is a reference count of what the kernel knows: under any sequence of
  insertions (one per successful lookup or creation), forgets and batches of forgets, an
  entry's count is the insertions minus the forgets, saturating at zero, with the root
  pinned; and an object is in the table exactly as long as its count is positive.
\<close>

theorem inode_table_counts:
  assumes "counts_ok s" "\<forall>n. lookups s n + length ops < 2 ^ 64"
  shows "lookups (fold (table_do os) ops s) = fold count_do ops (lookups s) \<and>
    (n \<in> dom (pt_map (fold (table_do os) ops s)) \<longleftrightarrow> 0 < fold count_do ops (lookups s) n)"
  using table_run_counts [OF assms, of os] counted_present [of "fold (table_do os) ops s" n] by simp

theorem inode_table_counts_witness:
  "lookups (fold (table_do (sample_os 5)) [Insert 7 5, Insert 8 5, Forget 5 1, Forget 1 1] sample_pt) 5 = 1 \<and>
   5 \<in> dom (pt_map (fold (table_do (sample_os 5)) [Insert 7 5, Insert 8 5, Forget 5 1, Forget 1 1] sample_pt))"
proof -
  have l: "lookups sample_pt = (\<lambda>n. if n = 1 then 1 else 0)"
    by (auto simp: lookups_def sample_pt_def PassthroughFs_new_def NodeId_root_def)
  have ok: "counts_ok sample_pt" by (simp add: counts_ok_def sample_pt_def PassthroughFs_new_def)
  have b: "\<forall>n. lookups sample_pt n + length [Insert 7 5, Insert 8 5, Forget 5 1, Forget 1 1] < 2 ^ 64"
    by (simp add: l)
  have "fold count_do [Insert 7 5, Insert 8 5, Forget 5 1, Forget 1 1] (lookups sample_pt) 5 = 1"
    by (simp add: l drop_count_def NodeId_root_def)
  with inode_table_counts [OF ok b, of "sample_os 5" 5] show ?thesis by (simp only:) simp
qed

text \<open>
  C29. The batched \<open>forget_multi\<close>, which takes the lock once, is equivalent to the base class's
  default of one \<open>forget\<close> per entry: same tables, same descriptors closed, in the same order.
\<close>

theorem forget_multi_is_default:
  "fs_forget_multi (passthrough_fs os) s items = default_forget_multi (fs_forget (passthrough_fs os)) s items"
proof -
  have "forget_many os s items = default_forget_multi (pt_forget os) s items"
    by (induction os s items rule: forget_many.induct) (simp_all add: pt_forget_def table_forget_def)
  then show ?thesis by (simp add: passthrough_fs_def pt_forget_multi_def)
qed

text \<open>
  C19. \<open>readdir\<close> always returns, even on a stream that never ends, and the reply holds exactly
  the entries the stream delivers from the requested position on, in order, each with the
  position after it. It ends with the stream or with the first entry that does not fit; in
  the latter case the stream is set back to the position of the last entry packed, which is
  where the kernel will continue.
\<close>

theorem readdir_packs_stream:
  assumes "pt_dirs s fh = Some d"
  shows "\<exists>rv w s' es. pt_readdir os s ctx n fh off (DirentWriter_init buf) = Some (rv, w, s') \<and>
    dw_holds w es \<and> readdir_ends os d off (snd (sys os (Seekdir d off) s)) w es rv s'"
  using readdir_loop_ends [OF dw_holds_init, of os d off buf "snd (sys os (Seekdir d off) s)"] assms
  by (auto simp: pt_readdir_def)

theorem readdir_packs_stream_witness:
  "\<exists>rv w s' es. pt_readdir (sample_os 5) (sample_pt\<lparr>pt_dirs := [1 \<mapsto> 12]\<rparr>) Context_default 1 1 0
      (DirentWriter_init (zeros 64)) = Some (rv, w, s') \<and> dw_holds w es"
proof -
  have "pt_dirs (sample_pt\<lparr>pt_dirs := [1 \<mapsto> 12]\<rparr>) 1 = Some 12" by simp
  from readdir_packs_stream [OF this, of "sample_os 5" Context_default 1 0 "zeros 64"] show ?thesis by blast
qed



text \<open>
  Node ids are inode numbers of the backing file system, and 1 is the root: looking up an
  object whose inode number is 1 answers with the root's node id, closes the descriptor of
  the object and keeps that of the root, so that later requests for the object go to the root.
\<close>

theorem inode_one_is_root:
  assumes "table_get s parent = Some p" "table_get s NodeId_root = Some root"
    and "sys os (Openat (in_path_fd p) (c_str name) (O_PATH OR O_NOFOLLOW OR O_CLOEXEC) 0) s = (Inr fd, s1)" "fd \<ge> 0"
    and "sys os (Fstatat fd) s1 = (Inr v, s2)" "st_ino (os_stat os (pt_log s1) (Fstatat fd)) = 1"
  shows "\<exists>e s'. pt_lookupx os s ctx parent name = (Inr e, s') \<and> eo_nodeid e = NodeId_root \<and> \<not> eo_negative e \<and>
    map_option in_path_fd (table_get s' NodeId_root) = Some (in_path_fd root) \<and> fst (last (pt_log s')) = Close fd"
proof -
  have m: "pt_map s2 = pt_map s" using assms(3,5) by (auto simp: sys_def Let_def)
  let ?s = "s2\<lparr>pt_map := (pt_map s2)(1 \<mapsto> root\<lparr>in_nlookup := in_nlookup root + 1\<rparr>)\<rparr>"
  have "table_insert os fd 1 s2 = (1, close_fd os fd ?s)"
    using assms(2) m by (simp add: table_insert_def table_get_def NodeId_root_def)
  with assms have "pt_lookupx os s ctx parent name =
      (Inr (EntryOut_default\<lparr>eo_nodeid := 1, eo_entry_valid := one_sec\<rparr>), close_fd os fd ?s)"
    by (simp add: pt_lookupx_def enter_def)
  moreover have "fst (last (pt_log (close_fd os fd ?s))) = Close fd"
    using assms(4) by (simp add: close_fd_def sys_def Let_def)
  ultimately show ?thesis by (simp add: table_get_def NodeId_root_def EntryOut_default_def)
qed

lemma sample_sys:
  "(\<And>d. c \<noteq> Readdir d) \<Longrightarrow> sys (sample_os ino) c s =
     (Inr (int (length (pt_log s)) + 10), s\<lparr>pt_log := pt_log s @ [(c, Inr (int (length (pt_log s)) + 10))]\<rparr>)"
  by (cases c) (auto simp: sys_def sample_os_def Let_def)

theorem inode_one_is_root_witness:
  "\<exists>e s'. pt_lookupx (sample_os 1) sample_pt Context_default 1 [102] = (Inr e, s') \<and> eo_nodeid e = NodeId_root"
proof -
  have root: "table_get sample_pt 1 = Some \<lparr>in_path_fd = 9, in_nlookup = 1\<rparr>"
    "table_get sample_pt NodeId_root = Some \<lparr>in_path_fd = 9, in_nlookup = 1\<rparr>"
    by (simp_all add: table_get_def sample_pt_def PassthroughFs_new_def NodeId_root_def)
  have ino: "st_ino (os_stat (sample_os 1) l c) = 1" for l c by (simp add: sample_os_def sample_stat_def)
  from inode_one_is_root [OF root sample_sys _ sample_sys ino, of "[102]" Context_default] show ?thesis by fastforce
qed

end
