(* ===== verification/Daemon.thy ===== *)
theory Daemon
  imports Passthrough_Safe
begin

text \<open>
  The program around the passthrough daemon (\<open>main\<close> and its helpers in
  \<open>examples/passthrough.cpp\<close>): the command line, the options of the session, the signal
  handlers, and the two processes of the mount helper with their readiness pipe.

  A process is the trace of what it does, in order, up to the end of the destructors of
  \<open>main\<close>'s objects, and its exit status, \<^term>\<open>None\<close> if it does not get there. Failing calls
  that open nothing leave only their message. What the watchdog thread does is put before
  what \<open>run\<close> does on the main thread; their order is not represented.
\<close>

subsection \<open>Command line\<close>

record main_args =
  ma_foreground :: bool
  ma_source :: "string option"
  ma_backing :: string
  ma_mountpoint :: string

text \<open>What is printed before the program gives up: the usage text, a message, or both.\<close>

datatype parsed = Quit nat "string option" bool | Go main_args

function parse_args :: "bool \<Rightarrow> string option \<Rightarrow> string list \<Rightarrow> parsed" where
  "parse_args fg src [] = Quit 2 None True"
| "parse_args fg src (a # rest) =
     (if a = ''-f'' \<or> a = ''--foreground'' then parse_args True src rest
      else if a = ''-h'' \<or> a = ''--help'' then Quit 0 None True
      else if a = ''--source''
      then (case rest of [] \<Rightarrow> Quit 2 (Some ''--source requires an argument'') False | v # rest \<Rightarrow> parse_args fg (Some v) rest)
      else if take 9 a = ''--source='' then parse_args fg (Some (drop 9 a)) rest
      else if a \<noteq> [] \<and> hd a = CHR ''-'' then Quit 2 (Some (''unknown option: '' @ a)) True
      else case rest of
        [m] \<Rightarrow> Go \<lparr>ma_foreground = fg, ma_source = src, ma_backing = a, ma_mountpoint = m\<rparr>
      | _ \<Rightarrow> Quit 2 None True)"
  by pat_completeness auto
termination
  by (relation "measure (\<lambda>(fg, src, args). length args)") auto

definition session_options :: "main_args \<Rightarrow> string option \<Rightarrow> SessionOptions" where
  "session_options a realpath =
     SessionOptions_default\<lparr>opt_mountpoint := ma_mountpoint a, opt_fsname := ''fex-passthrough'',
       opt_source := (case ma_source a of Some src \<Rightarrow> src
         | None \<Rightarrow> (case realpath of Some rp \<Rightarrow> rp | None \<Rightarrow> ma_backing a))\<rparr>"

subsection \<open>Events\<close>

datatype signal = SIGINT | SIGTERM | SIGHUP | SIGPIPE

datatype handler = On_term_signal | SIG_IGN

datatype main_event =
    M_usage
  | M_message string
  | M_open_backing int
  | M_set_g_session
  | M_sigaction signal handler
  | M_pipe int int
  | M_fork int
  | M_close int
  | M_read int "i32 + nat"
  | M_waitpid int
  | M_setsid
  | M_open_null int
  | M_dup2 int int
  | M_watchdog
  | M_write_byte int
  | M_run "sys_event list"
  | M_session_destroy "sys_event list"
  | M_fs_destroy PassthroughFs

text \<open>\<open>PipePair\<close> and its destructor.\<close>

record PipePair =
  pp_r :: int
  pp_w :: int

definition PipePair_destroy :: "PipePair \<Rightarrow> main_event list" where
  "PipePair_destroy pp =
     (if pp_r pp \<ge> 0 then [M_close (pp_r pp)] else []) @ (if pp_w pp \<ge> 0 then [M_close (pp_w pp)] else [])"

definition install_signal_handlers :: "main_event list" where
  "install_signal_handlers =
     [M_set_g_session, M_sigaction SIGINT On_term_signal, M_sigaction SIGTERM On_term_signal,
      M_sigaction SIGHUP On_term_signal, M_sigaction SIGPIPE SIG_IGN]"

subsection \<open>The readiness watchdog\<close>

text \<open>
  \<open>finished i\<close>: \<open>done\<close> at the \<open>i\<close>-th poll; \<open>dev_at i\<close>: the device of the mountpoint then, if \<open>stat\<close>
  succeeds. The loop tells whether it wrote the byte; then the watchdog closes its end.
\<close>

record DaemonReady =
  dr_done :: "nat \<Rightarrow> bool"
  dr_pipe_w :: int

definition kMaxIters :: nat where "kMaxIters = 600"

fun watchdog_loop :: "(nat \<Rightarrow> bool) \<Rightarrow> (nat \<Rightarrow> u64 option) \<Rightarrow> u64 \<Rightarrow> nat \<Rightarrow> nat \<Rightarrow> bool" where
  "watchdog_loop finished dev_at before_dev i 0 = False"
| "watchdog_loop finished dev_at before_dev i (Suc left) =
     (if finished i then False
      else if (case dev_at i of Some d \<Rightarrow> d \<noteq> before_dev | None \<Rightarrow> False) then True
      else watchdog_loop finished dev_at before_dev (Suc i) left)"

definition readiness_watchdog :: "DaemonReady \<Rightarrow> (nat \<Rightarrow> u64 option) \<Rightarrow> u64 \<Rightarrow> main_event list \<times> DaemonReady" where
  "readiness_watchdog ready dev_at before_dev =
     ((if watchdog_loop (dr_done ready) dev_at before_dev 0 kMaxIters then [M_write_byte (dr_pipe_w ready)] else []) @
      (if dr_pipe_w ready \<ge> 0 then [M_close (dr_pipe_w ready)] else []),
      ready\<lparr>dr_pipe_w := -1\<rparr>)"

subsection \<open>main\<close>

record main_env =
  mv_open :: "i32 + int"
  mv_realpath :: "string option"
  mv_stat :: "i32 + u64"
  mv_pipe :: "i32 + (int \<times> int)"
  mv_fork :: "i32 + int"
  mv_reads :: "(i32 + nat) list"
  mv_null :: "i32 + int"
  mv_finished :: "nat \<Rightarrow> bool"
  mv_dev_at :: "nat \<Rightarrow> u64 option"
  mv_session :: session_env

text \<open>Returning from \<open>main\<close>: the pipe, the session and the file system are destroyed, in this order.\<close>

definition main_return :: "nat \<Rightarrow> PipePair \<Rightarrow> PassthroughFs Impl \<Rightarrow> main_event list \<Rightarrow> main_event list \<times> nat option" where
  "main_return status pp im evs =
     (evs @ PipePair_destroy pp @ [M_session_destroy (session_destroy im), M_fs_destroy (im_fs im)], Some status)"

definition no_pipe :: PipePair where "no_pipe = \<lparr>pp_r = -1, pp_w = -1\<rparr>"

text \<open>\<open>session.run(fs)\<close>; no error code if it does not come back.\<close>

definition main_run :: "os \<Rightarrow> session_env \<Rightarrow> PassthroughFs Impl \<Rightarrow> main_event list \<times> i32 option \<times> PassthroughFs Impl" where
  "main_run os env im = (case session_run (passthrough_fs os) (im_fs im) env im of
     Some (Returned ec, evs, im) \<Rightarrow> ([M_run evs], Some ec, im)
   | Some (Blocked, evs, im) \<Rightarrow> ([M_run evs], None, im)
   | None \<Rightarrow> ([], None, im))"

definition run_foreground :: "os \<Rightarrow> session_env \<Rightarrow> PassthroughFs Impl \<Rightarrow> main_event list \<Rightarrow> main_event list \<times> nat option" where
  "run_foreground os env im evs = (case main_run os env im of
     (revs, None, im) \<Rightarrow> (evs @ revs, None)
   | (revs, Some ec, im) \<Rightarrow>
       if ec \<noteq> 0 then main_return 1 no_pipe im (evs @ revs @ [M_message ''fex session''])
       else main_return 0 no_pipe im (evs @ revs))"

text \<open>The parent: repeat an interrupted read. The reads made, and the status; \<^term>\<open>None\<close> while it waits.\<close>

fun parent_wait :: "(i32 + nat) list \<Rightarrow> (i32 + nat) list \<times> nat option" where
  "parent_wait [] = ([], None)"
| "parent_wait (Inl e # reads) =
     (if e = EINTR then (case parent_wait reads of (rs, status) \<Rightarrow> (Inl e # rs, status)) else ([Inl e], Some 1))"
| "parent_wait (Inr n # reads) = ([Inr n], Some (if n = 1 then 0 else 1))"

definition parent_process :: "main_env \<Rightarrow> int \<Rightarrow> PipePair \<Rightarrow> PassthroughFs Impl \<Rightarrow> main_event list \<Rightarrow>
    main_event list \<times> nat option" where
  "parent_process env pid pp im evs = (case parent_wait (mv_reads env) of (rs, status) \<Rightarrow>
     let evs = evs @ [M_close (pp_w pp)] @ map (M_read (pp_r pp)) rs; pp = pp\<lparr>pp_w := -1\<rparr> in
     case status of
       None \<Rightarrow> (evs, None)
     | Some status \<Rightarrow>
         main_return status pp im
           (if status = 0 then evs
            else evs @ [M_message ''fex-passthrough: child exited before mount came up'', M_waitpid pid]))"

definition redirect_stdio :: "i32 + int \<Rightarrow> main_event list" where
  "redirect_stdio r = (case r of
     Inl e \<Rightarrow> []
   | Inr devnull \<Rightarrow>
       [M_open_null devnull, M_dup2 devnull 0, M_dup2 devnull 1, M_dup2 devnull 2] @
       (if devnull > 2 then [M_close devnull] else []))"

definition child_process :: "os \<Rightarrow> main_env \<Rightarrow> u64 \<Rightarrow> PipePair \<Rightarrow> PassthroughFs Impl \<Rightarrow> main_event list \<Rightarrow>
    main_event list \<times> nat option" where
  "child_process os env before_dev pp im evs =
     (let evs = evs @ [M_close (pp_r pp), M_setsid] @ redirect_stdio (mv_null env);
          pp = pp\<lparr>pp_r := -1\<rparr>;
          ready = \<lparr>dr_done = mv_finished env, dr_pipe_w = pp_w pp\<rparr>;
          pp = pp\<lparr>pp_w := -1\<rparr>;
          (wevs, ready) = readiness_watchdog ready (mv_dev_at env) before_dev
      in case main_run os (mv_session env) im of
           (revs, None, im) \<Rightarrow> (evs @ M_watchdog # wevs @ revs, None)
         | (revs, Some ec, im) \<Rightarrow> main_return (if ec \<noteq> 0 then 1 else 0) pp im (evs @ M_watchdog # wevs @ revs))"

definition path_bytes :: "string \<Rightarrow> byte list" where
  "path_bytes s = map of_char s"

definition backing_fs :: "main_args \<Rightarrow> int \<Rightarrow> PassthroughFs" where
  "backing_fs a rfd = PassthroughFs_new rfd
     [(Open (Path (path_bytes (ma_backing a))) (O_PATH OR O_DIRECTORY OR O_CLOEXEC), Inr rfd)]"

definition daemonize :: "os \<Rightarrow> main_env \<Rightarrow> PassthroughFs Impl \<Rightarrow> main_event list \<Rightarrow> main_event list \<times> nat option" where
  "daemonize os env im evs = (case mv_stat env of
     Inl e \<Rightarrow> main_return 1 no_pipe im (evs @ [M_message ''stat mountpoint''])
   | Inr before_dev \<Rightarrow>
       (case mv_pipe env of
          Inl e \<Rightarrow> main_return 1 no_pipe im (evs @ [M_message ''pipe2''])
        | Inr (r, w) \<Rightarrow>
            let pp = \<lparr>pp_r = r, pp_w = w\<rparr>; evs = evs @ [M_pipe r w] in
            case mv_fork env of
              Inl e \<Rightarrow> main_return 1 pp im (evs @ [M_message ''fork''])
            | Inr pid \<Rightarrow>
                if pid > 0 then parent_process env pid pp im (evs @ [M_fork pid])
                else child_process os env before_dev pp im (evs @ [M_fork pid])))"

definition passthrough_main :: "os \<Rightarrow> main_env \<Rightarrow> string list \<Rightarrow> main_event list \<times> nat option" where
  "passthrough_main os env argv = (case parse_args False None (drop 1 argv) of
     Quit c msg show_usage \<Rightarrow>
       ((case msg of None \<Rightarrow> [] | Some m \<Rightarrow> [M_message m]) @ (if show_usage then [M_usage] else []), Some c)
   | Go a \<Rightarrow>
       (case mv_open env of
          Inl e \<Rightarrow> ([M_message ''open backing''], Some 1)
        | Inr rfd \<Rightarrow>
            let im = Impl_new (session_options a (mv_realpath env)) (backing_fs a rfd);
                evs = M_open_backing rfd # install_signal_handlers
            in if ma_foreground a then run_foreground os (mv_session env) im evs
               else daemonize os env im evs))"

subsection \<open>Signals\<close>

text \<open>What \<open>g_session\<close> points to, and what is installed for a signal, after a trace.\<close>

datatype session_ref = Null_session | Live_session | Destroyed_session

fun ref_step :: "main_event \<Rightarrow> session_ref \<Rightarrow> session_ref" where
  "ref_step M_set_g_session x = Live_session"
| "ref_step (M_session_destroy evs) x = (if x = Live_session then Destroyed_session else x)"
| "ref_step _ x = x"

fun handler_step :: "signal \<Rightarrow> main_event \<Rightarrow> handler option \<Rightarrow> handler option" where
  "handler_step sig (M_sigaction sig' h) x = (if sig' = sig then Some h else x)"
| "handler_step sig _ x = x"

datatype signal_effect = Default_action | Ignored | Stop_called | Use_after_destruction

definition on_term_signal :: "session_ref \<Rightarrow> signal_effect" where
  "on_term_signal g_session = (case g_session of
     Null_session \<Rightarrow> Ignored | Live_session \<Rightarrow> Stop_called | Destroyed_session \<Rightarrow> Use_after_destruction)"

definition deliver :: "signal \<Rightarrow> main_event list \<Rightarrow> signal_effect" where
  "deliver sig evs = (case fold (handler_step sig) evs None of
     None \<Rightarrow> Default_action
   | Some SIG_IGN \<Rightarrow> Ignored
   | Some On_term_signal \<Rightarrow> on_term_signal (fold ref_step evs Null_session))"

end
