(* ===== verification/Daemon_Safe.thy ===== *)
theory Daemon_Safe
  imports Daemon
begin

text \<open>
  Properties of the passthrough program: the shape of the traces of its processes, what its
  descriptors refer to, who closes them, what a signal does at which time, and what the exit
  status of the mount helper tells.
\<close>

subsection \<open>The shape of a trace\<close>

text \<open>Events that neither set up signals nor end the session.\<close>

fun plain :: "main_event \<Rightarrow> bool" where
  "plain M_set_g_session = False"
| "plain (M_sigaction sig h) = False"
| "plain (M_session_destroy evs) = False"
| "plain (M_open_backing fd) = False"
| "plain (M_fs_destroy s) = False"
| "plain _ = True"



text \<open>The shape of every trace.\<close>

definition shaped :: "main_event list \<Rightarrow> bool" where
  "shaped evs \<longleftrightarrow> list_all plain evs \<or>
     (\<exists>rfd mid tail. evs = M_open_backing rfd # install_signal_handlers @ mid @ tail \<and> list_all plain mid \<and>
        (tail = [] \<or> (\<exists>ds s. tail = [M_session_destroy ds, M_fs_destroy s])))"

lemma plain_parts [simp]:
  "list_all plain (PipePair_destroy pp)" "list_all plain (redirect_stdio r)"
  "list_all plain (fst (readiness_watchdog ready dev_at before_dev))" "list_all plain (map (M_read fd) xs)"
  "list_all plain (fst (main_run os env im))"
  by (auto simp: PipePair_destroy_def redirect_stdio_def readiness_watchdog_def main_run_def list_all_iff
      split: sum.split option.split run_result.split)

lemma shaped_return:
  assumes "list_all plain mid"
  shows "shaped (fst (main_return status pp im (M_open_backing rfd # install_signal_handlers @ mid)))"
  unfolding shaped_def main_return_def using assms
  by (intro disjI2 exI [of _ rfd] exI [of _ "mid @ PipePair_destroy pp"]
      exI [of _ "[M_session_destroy (session_destroy im), M_fs_destroy (im_fs im)]"]) simp

lemma shaped_open: "list_all plain mid \<Longrightarrow> shaped (M_open_backing rfd # install_signal_handlers @ mid)"
  unfolding shaped_def by (intro disjI2 exI [of _ rfd] exI [of _ mid] exI [of _ "[]"]) simp

lemmas shaped_intros = shaped_return shaped_open

lemma shaped_run_foreground:
  "shaped (fst (run_foreground os env im (M_open_backing rfd # install_signal_handlers)))"
proof -
  obtain revs r im' where run: "main_run os env im = (revs, r, im')" by (metis prod_cases3)
  have "list_all plain revs" using plain_parts(5) [of os env im] run by simp
  then show ?thesis
    using shaped_open [of revs rfd] shaped_return [of revs] shaped_return [of "revs @ [M_message ''fex session'']"]
    by (auto simp: run_foreground_def run split: option.split)
qed

lemma shaped_parent:
  assumes "list_all plain mid"
  shows "shaped (fst (parent_process env pid pp im (M_open_backing rfd # install_signal_handlers @ mid)))"
proof -
  obtain rs st where w: "parent_wait (mv_reads env) = (rs, st)" by fastforce
  let ?mid = "mid @ [M_close (pp_w pp)] @ map (M_read (pp_r pp)) rs"
  have "list_all plain ?mid" using assms by simp
  then show ?thesis
    using shaped_open [of ?mid rfd] shaped_return [of ?mid]
      shaped_return [of "?mid @ [M_message ''fex-passthrough: child exited before mount came up'', M_waitpid pid]"]
    by (auto simp: parent_process_def w Let_def split: option.split)
qed

lemma shaped_child:
  assumes "list_all plain mid"
  shows "shaped (fst (child_process os env before_dev pp im (M_open_backing rfd # install_signal_handlers @ mid)))"
proof -
  obtain revs r im' where run: "main_run os (mv_session env) im = (revs, r, im')" by (metis prod_cases3)
  let ?ready = "\<lparr>dr_done = mv_finished env, dr_pipe_w = pp_w pp\<rparr>"
  obtain wevs ready where wd: "readiness_watchdog ?ready (mv_dev_at env) before_dev = (wevs, ready)" by fastforce
  let ?mid = "mid @ [M_close (pp_r pp), M_setsid] @ redirect_stdio (mv_null env) @ M_watchdog # wevs @ revs"
  have "list_all plain ?mid"
    using assms plain_parts(5) [of os "mv_session env" im] plain_parts(3) [of ?ready "mv_dev_at env" before_dev] run wd by simp
  then show ?thesis
    using shaped_open [of ?mid rfd] shaped_return [of ?mid]
    by (auto simp: child_process_def run wd Let_def split: option.split)
qed

lemma shaped_main: "shaped (fst (passthrough_main os env argv))"
proof (cases "parse_args False None (drop 1 argv)")
  case (Quit c msg h)
  then show ?thesis by (simp add: passthrough_main_def shaped_def split: option.split)
next
  case (Go a)
  have "shaped (fst (daemonize os env im (M_open_backing rfd # install_signal_handlers)))" for im rfd
    using shaped_return [of "[M_message ''stat mountpoint'']"] shaped_return [of "[M_message ''pipe2'']"]
      shaped_return [of "[M_pipe r w, M_message ''fork'']" for r w] shaped_parent [of "[M_pipe r w, M_fork pid]" for r w pid]
      shaped_child [of "[M_pipe r w, M_fork pid]" for r w pid]
    by (auto simp: daemonize_def Let_def split: sum.split)
  with Go shaped_run_foreground show ?thesis
    by (simp add: passthrough_main_def Let_def shaped_def [of "[M_message ''open backing'']"] split: sum.split)
qed

subsection \<open>Descriptors\<close>

text \<open>What the descriptors of a process refer to.\<close>

datatype fd_object = F_backing | F_pipe_r | F_pipe_w | F_null | F_inherited

fun fd_effect :: "main_event \<Rightarrow> (int \<rightharpoonup> fd_object) \<Rightarrow> int \<rightharpoonup> fd_object" where
  "fd_effect (M_open_backing fd) t = t(fd \<mapsto> F_backing)"
| "fd_effect (M_pipe r w) t = t(r \<mapsto> F_pipe_r, w \<mapsto> F_pipe_w)"
| "fd_effect (M_open_null fd) t = t(fd \<mapsto> F_null)"
| "fd_effect (M_dup2 fd fd') t = (if t fd = None then t else t(fd' := t fd))"
| "fd_effect (M_close fd) t = t(fd := None)"
| "fd_effect _ t = t"

text \<open>The system hands out descriptors that are not in use.\<close>

fun fresh_fds :: "main_event list \<Rightarrow> (int \<rightharpoonup> fd_object) \<Rightarrow> bool" where
  "fresh_fds [] t = True"
| "fresh_fds (ev # evs) t =
     ((case ev of
         M_open_backing fd \<Rightarrow> fd \<ge> 0 \<and> t fd = None
       | M_pipe r w \<Rightarrow> r \<ge> 0 \<and> w \<ge> 0 \<and> r \<noteq> w \<and> t r = None \<and> t w = None
       | M_open_null fd \<Rightarrow> fd \<ge> 0 \<and> t fd = None
       | _ \<Rightarrow> True) \<and> fresh_fds evs (fd_effect ev t))"

definition before_watchdog :: "main_event list \<Rightarrow> main_event list" where
  "before_watchdog evs = takeWhile (\<lambda>ev. ev \<noteq> M_watchdog) evs"

lemma no_watchdog [simp]:
  "M_watchdog \<notin> set install_signal_handlers" "M_watchdog \<notin> set (redirect_stdio r)"
  "M_watchdog \<notin> set (PipePair_destroy pp)" "M_watchdog \<notin> set (fst (main_run os env im))"
  by (auto simp: install_signal_handlers_def redirect_stdio_def PipePair_destroy_def main_run_def
      split: sum.split option.split run_result.split)

lemma watchdog_return [simp]: "M_watchdog \<in> set (fst (main_return status pp im evs)) \<longleftrightarrow> M_watchdog \<in> set evs"
  by (simp add: main_return_def)

lemma watchdog_foreground [simp]: "M_watchdog \<in> set (fst (run_foreground os env im evs)) \<longleftrightarrow> M_watchdog \<in> set evs"
proof -
  obtain revs r im' where run: "main_run os env im = (revs, r, im')" by (metis prod_cases3)
  with no_watchdog(4) [of os env im] show ?thesis by (simp add: run_foreground_def split: option.split)
qed

lemma watchdog_parent [simp]: "M_watchdog \<in> set (fst (parent_process env pid pp im evs)) \<longleftrightarrow> M_watchdog \<in> set evs"
proof -
  obtain rs st where w: "parent_wait (mv_reads env) = (rs, st)" by fastforce
  then show ?thesis by (auto simp: parent_process_def Let_def split: option.split)
qed

lemma child_prefix:
  "\<exists>rest. fst (child_process os env before_dev pp im evs) =
     (evs @ [M_close (pp_r pp), M_setsid] @ redirect_stdio (mv_null env)) @ M_watchdog # rest"
proof -
  obtain revs r im' where run: "main_run os (mv_session env) im = (revs, r, im')" by (metis prod_cases3)
  obtain wevs ready where wd: "readiness_watchdog \<lparr>dr_done = mv_finished env, dr_pipe_w = pp_w pp\<rparr> (mv_dev_at env) before_dev = (wevs, ready)"
    by fastforce
  show ?thesis
    by (cases r) (simp_all add: child_process_def run wd Let_def main_return_def)
qed

text \<open>What a child does before it has more than one thread.\<close>

lemma child_trace:
  assumes "M_watchdog \<in> set (fst (passthrough_main os env argv))"
  obtains rfd r w pid where "mv_open env = Inr rfd" "mv_pipe env = Inr (r, w)"
    "before_watchdog (fst (passthrough_main os env argv)) =
       M_open_backing rfd # install_signal_handlers @ [M_pipe r w, M_fork pid, M_close r, M_setsid] @ redirect_stdio (mv_null env)"
proof -
  let ?start = "\<lambda>rfd. M_open_backing rfd # install_signal_handlers"
  from assms obtain a where a: "parse_args False None (drop 1 argv) = Go a"
    by (cases "parse_args False None (drop 1 argv)") (auto simp: passthrough_main_def split: option.splits if_splits)
  with assms obtain rfd where o: "mv_open env = Inr rfd"
    by (cases "mv_open env") (auto simp: passthrough_main_def)
  let ?im = "Impl_new (session_options a (mv_realpath env)) (backing_fs a rfd)"
  have m: "passthrough_main os env argv = daemonize os env ?im (?start rfd)"
    using assms a o by (auto simp: passthrough_main_def Let_def split: if_splits)
  from assms m obtain before where st: "mv_stat env = Inr before"
    by (cases "mv_stat env") (simp_all add: daemonize_def)
  from assms m st obtain r w where p: "mv_pipe env = Inr (r, w)"
    by (cases "mv_pipe env") (auto simp: daemonize_def)
  let ?pp = "\<lparr>pp_r = r, pp_w = w\<rparr>"
  from assms m st p obtain pid where f: "mv_fork env = Inr pid" "\<not> pid > 0"
    by (cases "mv_fork env") (auto simp: daemonize_def Let_def split: if_splits)
  then have "passthrough_main os env argv = child_process os env before ?pp ?im (?start rfd @ [M_pipe r w, M_fork pid])"
    using m st p by (simp add: daemonize_def)
  then obtain rest where "fst (passthrough_main os env argv) =
      ((?start rfd @ [M_pipe r w, M_fork pid]) @ [M_close r, M_setsid] @ redirect_stdio (mv_null env)) @ M_watchdog # rest"
    using child_prefix [of os env before ?pp ?im "?start rfd @ [M_pipe r w, M_fork pid]"] by auto
  then have "before_watchdog (fst (passthrough_main os env argv)) =
      (?start rfd @ [M_pipe r w, M_fork pid]) @ [M_close r, M_setsid] @ redirect_stdio (mv_null env)"
    unfolding before_watchdog_def by (simp only:) (subst takeWhile_append2, auto)
  with that o p show ?thesis by simp
qed


lemma watchdog_loop_iff:
  "watchdog_loop finished dev_at before_dev i left \<longleftrightarrow>
     (\<exists>k < left. (\<exists>d. dev_at (i + k) = Some d \<and> d \<noteq> before_dev) \<and> (\<forall>j \<le> k. \<not> finished (i + j)))"
  (is "_ \<longleftrightarrow> (\<exists>k < left. ?seen i k)")
proof (induction left arbitrary: i)
  case (Suc left)
  have split: "(\<exists>k < Suc left. P k) \<longleftrightarrow> P 0 \<or> (\<exists>k < left. P (Suc k))" for P
    by (auto simp: less_Suc_eq_0_disj)
  have "?seen i (Suc k) \<longleftrightarrow> \<not> finished i \<and> ?seen (Suc i) k" for k
    by (auto simp: le_Suc_eq all_simps) (metis Suc_le_mono add_Suc_right not0_implies_Suc add.right_neutral le0 le_Suc_eq)+
  then show ?case
    unfolding split by (auto simp: Suc split: option.split)
qed simp

text \<open>The descriptors \<open>main\<close> itself owns: the pipe and \<open>/dev/null\<close>.\<close>

definition own_step :: "main_event \<Rightarrow> int multiset \<Rightarrow> int multiset" where
  "own_step ev fds = (case ev of
     M_pipe r w \<Rightarrow> add_mset r (add_mset w fds)
   | M_open_null fd \<Rightarrow> add_mset fd fds
   | M_close fd \<Rightarrow> fds - {#fd#}
   | _ \<Rightarrow> fds)"

fun own_closes_ok :: "int multiset \<Rightarrow> main_event list \<Rightarrow> bool" where
  "own_closes_ok fds [] = True"
| "own_closes_ok fds (ev # evs) =
     ((case ev of M_close fd \<Rightarrow> fd \<in># fds | _ \<Rightarrow> True) \<and> own_closes_ok (own_step ev fds) evs)"

definition owning :: "int multiset \<Rightarrow> main_event list \<Rightarrow> int multiset \<Rightarrow> bool" where
  "owning own evs own' \<longleftrightarrow> fold own_step evs own = own' \<and> own_closes_ok own evs"

lemma own_closes_ok_append [simp]:
  "own_closes_ok fds (xs @ ys) \<longleftrightarrow> own_closes_ok fds xs \<and> own_closes_ok (fold own_step xs fds) ys"
  by (induction fds xs rule: own_closes_ok.induct) simp_all

lemma owning_append: "owning A xs B \<Longrightarrow> owning B ys C \<Longrightarrow> owning A (xs @ ys) C"
  by (simp add: owning_def)

text \<open>What the session does, as one trace; its destructor included.\<close>

fun session_part :: "main_event \<Rightarrow> sys_event list" where
  "session_part (M_run evs) = evs"
| "session_part (M_session_destroy evs) = evs"
| "session_part _ = []"

definition session_events :: "main_event list \<Rightarrow> sys_event list" where
  "session_events evs = concat (map session_part evs)"

lemma session_events_simps [simp]:
  "session_events [] = []" "session_events (ev # evs) = session_part ev @ session_events evs"
  "session_events (xs @ ys) = session_events xs @ session_events ys"
  by (simp_all add: session_events_def)

lemma quiet_parts [simp]:
  "session_events install_signal_handlers = []" "session_events (redirect_stdio r) = []"
  "session_events (PipePair_destroy pp) = []" "session_events (map (M_read fd) rs) = []"
  "session_events (fst (readiness_watchdog ready dev_at before_dev)) = []"
  by (auto simp: session_events_def install_signal_handlers_def redirect_stdio_def PipePair_destroy_def
      readiness_watchdog_def split: sum.split)

lemma owning_reads [simp]: "owning A (map (M_read fd) rs) A"
  by (induction rs) (simp_all add: owning_def own_step_def)

lemma owning_main_run [simp]: "owning A (fst (main_run os env im)) A"
  by (simp add: owning_def own_step_def main_run_def split: option.split run_result.split)

lemma owning_watchdog:
  "w \<ge> 0 \<Longrightarrow> owning (add_mset w A) (fst (readiness_watchdog \<lparr>dr_done = d, dr_pipe_w = w\<rparr> dev_at b)) A"
  by (simp add: owning_def own_step_def readiness_watchdog_def)

text \<open>The descriptor of \<open>/dev/null\<close> stays if it is one of the standard streams.\<close>

definition null_left :: "i32 + int \<Rightarrow> int multiset" where
  "null_left r = (case r of Inl e \<Rightarrow> {#} | Inr n \<Rightarrow> if n \<le> 2 then {#n#} else {#})"

lemma owning_redirect: "owning A (redirect_stdio r) (null_left r + A)"
  by (auto simp: owning_def own_step_def redirect_stdio_def null_left_def split: sum.split)

text \<open>
  How a process ends in which \<open>main\<close> got past opening the backing directory: what it owned is
  closed but for \<open>/dev/null\<close> as a standard stream, and the session that is destroyed is the
  one constructed, or what \<open>run\<close> made of it.
\<close>

definition ends_well :: "os \<Rightarrow> main_env \<Rightarrow> PassthroughFs Impl \<Rightarrow> main_event list \<Rightarrow> main_event list \<times> nat option \<Rightarrow> bool" where
  "ends_well os env im evs out \<longleftrightarrow> snd out = None \<or> (\<exists>mid im'.
     fst out = evs @ mid @ [M_session_destroy (session_destroy im'), M_fs_destroy (im_fs im')] \<and>
     (\<exists>left. owning {#} mid left \<and> left \<subseteq># null_left (mv_null env)) \<and>
     (session_events mid = [] \<and> im' = im \<or>
      (\<exists>ec. session_run (passthrough_fs os) (im_fs im) (mv_session env) im = Some (Returned ec, session_events mid, im'))))"

lemma ends_return:
  assumes "owning {#} (mid @ PipePair_destroy pp) left" "left \<subseteq># null_left (mv_null env)"
    and "session_events mid = [] \<and> im' = im \<or>
      (\<exists>ec. session_run (passthrough_fs os) (im_fs im) (mv_session env) im = Some (Returned ec, session_events mid, im'))"
  shows "ends_well os env im evs (main_return status pp im' (evs @ mid))"
  unfolding ends_well_def main_return_def using assms
  by (intro disjI2 exI [of _ "mid @ PipePair_destroy pp"] exI [of _ im']) auto

lemma main_run_returned:
  assumes "main_run os env im = (revs, Some ec, im')"
  shows "session_run (passthrough_fs os) (im_fs im) env im = Some (Returned ec, session_events revs, im')"
  using assms by (auto simp: main_run_def split: option.splits run_result.splits)

lemma ends_foreground: "ends_well os env im evs (run_foreground os (mv_session env) im evs)"
proof -
  obtain revs r im' where run: "main_run os (mv_session env) im = (revs, r, im')" by (metis prod_cases3)
  have o: "owning {#} revs {#}" using owning_main_run [of "{#}" os "mv_session env" im] run by simp
  show ?thesis
  proof (cases r)
    case (Some ec)
    have "ends_well os env im evs (main_return st no_pipe im' (evs @ revs))" for st
      by (rule ends_return [where left = "{#}"])
        (use o main_run_returned run Some in \<open>auto simp: PipePair_destroy_def no_pipe_def\<close>)
    moreover have "ends_well os env im evs (main_return st no_pipe im' (evs @ revs @ [M_message m]))" for st m
      by (rule ends_return [where left = "{#}"])
        (use o main_run_returned run Some in \<open>auto simp: PipePair_destroy_def no_pipe_def owning_def own_step_def\<close>)
    ultimately show ?thesis using run Some by (simp add: run_foreground_def)
  qed (simp add: run_foreground_def run ends_well_def)
qed

lemma ends_parent:
  assumes "r \<ge> 0"
  shows "ends_well os env im evs (parent_process env pid \<lparr>pp_r = r, pp_w = w\<rparr> im (evs @ [M_pipe r w, M_fork pid]))"
proof -
  obtain rs st where pw: "parent_wait (mv_reads env) = (rs, st)" by fastforce
  let ?mid = "[M_pipe r w, M_fork pid, M_close w] @ map (M_read r) rs"
  have o: "owning {#} ?mid {#r#}"
    by (rule owning_append [OF _ owning_reads]) (simp add: owning_def own_step_def)
  have ret: "ends_well os env im evs (main_return st \<lparr>pp_r = r, pp_w = -1\<rparr> im (evs @ ?mid @ tail))"
    if "owning {#r#} tail {#r#}" "session_events tail = []" for tail st
  proof (rule ends_return)
    have "owning {#r#} (PipePair_destroy \<lparr>pp_r = r, pp_w = -1\<rparr>) {#}"
      using assms by (simp add: owning_def own_step_def PipePair_destroy_def)
    from owning_append [OF owning_append [OF o that(1)] this]
    show "owning {#} ((?mid @ tail) @ PipePair_destroy \<lparr>pp_r = r, pp_w = -1\<rparr>) {#}" .
  qed (use that(2) in simp_all)
  show ?thesis
  proof (cases st)
    case (Some n)
    then show ?thesis
      using ret [of "[]" 0] ret [of "[M_message m, M_waitpid pid]" n for m]
      by (simp add: parent_process_def pw Let_def owning_def own_step_def)
  qed (simp add: parent_process_def pw ends_well_def)
qed

lemma ends_child:
  assumes "w \<ge> 0"
  shows "ends_well os env im evs (child_process os env b \<lparr>pp_r = r, pp_w = w\<rparr> im (evs @ [M_pipe r w, M_fork pid]))"
proof -
  obtain revs x im' where run: "main_run os (mv_session env) im = (revs, x, im')" by (metis prod_cases3)
  let ?ready = "\<lparr>dr_done = mv_finished env, dr_pipe_w = w\<rparr>"
  obtain wevs ready where wd: "readiness_watchdog ?ready (mv_dev_at env) b = (wevs, ready)" by fastforce
  let ?mid = "[M_pipe r w, M_fork pid, M_close r, M_setsid] @ redirect_stdio (mv_null env) @ [M_watchdog] @ wevs @ revs"
  let ?N = "null_left (mv_null env)"
  have "owning {#} [M_pipe r w, M_fork pid, M_close r, M_setsid] {#w#}" by (simp add: owning_def own_step_def)
  moreover have "owning {#w#} (redirect_stdio (mv_null env)) (?N + {#w#})" by (rule owning_redirect)
  moreover have "owning (?N + {#w#}) [M_watchdog] (add_mset w ?N)" by (simp add: owning_def own_step_def)
  moreover have "owning (add_mset w ?N) wevs ?N" using owning_watchdog [OF assms, of ?N "mv_finished env" "mv_dev_at env" b] wd by simp
  moreover have "owning ?N revs ?N" using owning_main_run [of ?N os "mv_session env" im] run by simp
  ultimately have o: "owning {#} ?mid ?N" by (blast intro: owning_append)
  have q: "session_events wevs = []" using quiet_parts(5) [of ?ready "mv_dev_at env" b] wd by simp
  show ?thesis
  proof (cases x)
    case (Some ec)
    have "ends_well os env im evs (main_return st \<lparr>pp_r = -1, pp_w = -1\<rparr> im' (evs @ ?mid))" for st
      by (rule ends_return [where left = ?N])
        (use o q main_run_returned run Some in \<open>auto simp: PipePair_destroy_def\<close>)
    with Some show ?thesis by (simp add: child_process_def run wd Let_def)
  qed (simp add: child_process_def run wd ends_well_def)
qed

lemma ends_daemonize:
  assumes "\<forall>r w. mv_pipe env = Inr (r, w) \<longrightarrow> r \<ge> 0 \<and> w \<ge> 0"
  shows "ends_well os env im evs (daemonize os env im evs)"
proof -
  have fail: "ends_well os env im evs (main_return st no_pipe im (evs @ [M_message m]))" for st m
    by (rule ends_return [where left = "{#}"]) (simp_all add: owning_def own_step_def PipePair_destroy_def no_pipe_def)
  have "ends_well os env im evs (main_return st \<lparr>pp_r = r, pp_w = w\<rparr> im (evs @ [M_pipe r w, M_message m]))"
    if "r \<ge> 0" "w \<ge> 0" for st r w m
    by (rule ends_return [where left = "{#}"]) (use that in \<open>simp_all add: owning_def own_step_def PipePair_destroy_def\<close>)
  with assms fail ends_parent ends_child show ?thesis
    by (auto simp: daemonize_def Let_def split: sum.split)
qed

text \<open>\<open>~PassthroughFs\<close> closes the descriptors of its inodes and open files; directory streams are plain pointers.\<close>

definition fs_destructor :: "PassthroughFs \<Rightarrow> int multiset" where
  "fs_destructor s = map_fds in_path_fd (pt_map s) + map_fds id (pt_files s)"

lemma main_paths:
  assumes "passthrough_main os env argv = (evs, Some status)" "\<forall>r w. mv_pipe env = Inr (r, w) \<longrightarrow> r \<ge> 0 \<and> w \<ge> 0"
  obtains (early) "evs \<in> {[M_message ''open backing'']} \<or> (\<exists>c m h. parse_args False None (drop 1 argv) = Quit c m h)"
      "owning {#} evs {#}" "session_events evs = []" "list_all plain evs"
  | (late) a rfd mid im' left where "parse_args False None (drop 1 argv) = Go a" "mv_open env = Inr rfd"
      "evs = (M_open_backing rfd # install_signal_handlers) @ mid @ [M_session_destroy (session_destroy im'), M_fs_destroy (im_fs im')]"
      "owning {#} mid left" "left \<subseteq># null_left (mv_null env)"
      "session_events mid = [] \<and> im' = Impl_new (session_options a (mv_realpath env)) (backing_fs a rfd) \<or>
       (\<exists>ec. session_run (passthrough_fs os) (backing_fs a rfd) (mv_session env)
          (Impl_new (session_options a (mv_realpath env)) (backing_fs a rfd)) = Some (Returned ec, session_events mid, im'))"
proof (cases "parse_args False None (drop 1 argv)")
  case (Quit c m h)
  with assms(1) early show ?thesis
    by (auto simp: passthrough_main_def owning_def own_step_def split: option.splits if_splits)
next
  case (Go a)
  show ?thesis
  proof (cases "mv_open env")
    case (Inl e)
    with Go assms(1) early show ?thesis by (auto simp: passthrough_main_def owning_def own_step_def)
  next
    case (Inr rfd)
    let ?im = "Impl_new (session_options a (mv_realpath env)) (backing_fs a rfd)"
    have "ends_well os env ?im (M_open_backing rfd # install_signal_handlers) (passthrough_main os env argv)"
      using Go Inr ends_foreground ends_daemonize [OF assms(2)] by (simp add: passthrough_main_def Let_def)
    moreover have "im_fs ?im = backing_fs a rfd" by (simp add: Impl_new_def)
    ultimately show ?thesis
      using late [OF Go Inr] assms(1) unfolding ends_well_def by fastforce
  qed
qed

lemma null_left_std: "fd \<in># null_left r \<Longrightarrow> fd \<le> 2"
  by (auto simp: null_left_def split: sum.splits if_splits)

lemma session_options_ok:
  "opts_ok (session_options a rp)" "opt_dev_fd (session_options a rp) = -1"
  "opt_uring_payload_bytes (session_options a rp) = 2 ^ 20"
  by (simp_all add: session_options_def SessionOptions_default_def opts_ok_def split: option.split)

lemma passthrough_released:
  assumes "session_run (passthrough_fs os) s env (Impl_new (session_options a rp) s0) = Some (Returned ec, evs, im')"
    and "session_env_ok (2 ^ 20) env"
  shows "handles {#} (evs @ session_destroy im') {#}"
  using passthrough.session_exit [of "Impl_new (session_options a rp) s0" env os s] assms
  by (auto simp: fresh_session_def Impl_new_def exit_ok_def released_def session_options_ok)

lemma main_session_released:
  assumes "passthrough_main os env argv = (evs, Some status)" "\<forall>r w. mv_pipe env = Inr (r, w) \<longrightarrow> r \<ge> 0 \<and> w \<ge> 0"
    and "session_env_ok (2 ^ 20) (mv_session env)"
  shows "handles {#} (session_events evs) {#}"
  using assms(1,2)
proof (cases rule: main_paths)
  case (late a rfd mid im' left)
  have "session_destroy (Impl_new opts fs) = []" for opts and fs :: PassthroughFs
    by (simp add: session_destroy_def Impl_new_def UniqueFd_destroy_def UniqueFd_reset_def)
  then show ?thesis
    using late(6) passthrough_released [OF _ assms(3)] handles_Nil by (auto simp: late(3))
qed (simp add: handles_Nil)

lemma main_fs_owns:
  assumes "passthrough_main os env argv = (evs, Some status)" "\<forall>r w. mv_pipe env = Inr (r, w) \<longrightarrow> r \<ge> 0 \<and> w \<ge> 0"
    and "os_ok os" "\<forall>rfd. mv_open env = Inr rfd \<longrightarrow> rfd \<ge> 0" "M_fs_destroy s \<in> set evs"
  shows "owns {#} s"
  using assms(1,2)
proof (cases rule: main_paths)
  case early
  with assms(5) show ?thesis by (auto simp: list_all_iff)
next
  case (late a rfd mid im' left)
  have new: "owns {#} (backing_fs a rfd)" using late(2) assms(4) pt_new_inv by (simp add: backing_fs_def)
  have reach: "owns {#} (im_fs im')"
  proof (cases "im' = Impl_new (session_options a (mv_realpath env)) (backing_fs a rfd)")
    case True
    then show ?thesis using new by (simp add: Impl_new_def)
  next
    case False
    then obtain ec where "session_run (passthrough_fs os) (backing_fs a rfd) (mv_session env)
        (Impl_new (session_options a (mv_realpath env)) (backing_fs a rfd)) = Some (Returned ec, session_events mid, im')"
      using late(6) by blast
    from session_run_reaches [OF this] show ?thesis
      by (rule fs_reach_invariant) (use new assms(3) in \<open>simp_all add: pt_step_inv\<close>)
  qed
  have "M_fs_destroy s \<notin> set mid"
  proof -
    from shaped_main [of os env argv] assms(1) obtain mid' tail where e: "evs = M_open_backing rfd # install_signal_handlers @ mid' @ tail"
      "list_all plain mid'" "tail = [] \<or> (\<exists>ds s. tail = [M_session_destroy ds, M_fs_destroy s])"
      using late(3) by (auto simp: shaped_def install_signal_handlers_def)
    from e(3) have "set mid \<subseteq> set mid'"
    proof
      assume "tail = []"
      with e late(3) have "mid' = mid @ [M_session_destroy (session_destroy im'), M_fs_destroy (im_fs im')]" by simp
      with e(2) show ?thesis by simp
    qed (use e(1) late(3) in auto)
    with e(2) show ?thesis by (metis list_all_iff plain.simps(5) subsetD)
  qed
  with assms(5) reach show ?thesis by (auto simp: late(3) install_signal_handlers_def)
qed

text \<open>
  C15. The program as a whole: however \<open>main\<close> is called and whatever fails, in the parent and in
  the child, by the time a process has returned from \<open>main\<close> it has closed each end of the
  readiness pipe exactly once and nothing that it did not own (\<open>/dev/null\<close> stays only as a
  standard stream); the session has closed everything it opened, exactly once; and of what
  the file system had opened, only the streams of directories still open remain.
\<close>

theorem main_releases:
  assumes "passthrough_main os env argv = (evs, Some status)" "os_ok os" "session_env_ok (2 ^ 20) (mv_session env)"
    and "\<forall>rfd. mv_open env = Inr rfd \<longrightarrow> rfd \<ge> 0" "\<forall>r w. mv_pipe env = Inr (r, w) \<longrightarrow> r \<ge> 0 \<and> w \<ge> 0"
  shows "own_closes_ok {#} evs \<and> (\<forall>fd \<in># fold own_step evs {#}. fd \<le> 2) \<and>
    handles {#} (session_events evs) {#} \<and>
    (\<forall>s. M_fs_destroy s \<in> set evs \<longrightarrow> length (pt_log s) < 2 ^ 64 \<longrightarrow>
       opened {#} (pt_log s) = fs_destructor s + map_fds id (pt_dirs s))"
proof -
  have own: "own_closes_ok {#} evs \<and> (\<forall>fd \<in># fold own_step evs {#}. fd \<le> 2)"
    using assms(1,5)
  proof (cases rule: main_paths)
    case (late a rfd mid im' left)
    have "\<forall>fd \<in># left. fd \<le> 2"
      using mset_subset_eqD [OF late(5)] null_left_std by blast
    moreover have "owning {#} (M_open_backing rfd # install_signal_handlers) {#}"
      by (simp add: owning_def own_step_def install_signal_handlers_def)
    moreover have "owning left [M_session_destroy (session_destroy im'), M_fs_destroy (im_fs im')] left"
      by (simp add: owning_def own_step_def)
    ultimately show ?thesis
      using owning_append [OF _ owning_append [OF late(4)]] late(3) by (fastforce simp: owning_def)
  qed (auto simp: owning_def)
  have "opened {#} (pt_log s) = fs_destructor s + map_fds id (pt_dirs s)"
    if "M_fs_destroy s \<in> set evs" "length (pt_log s) < 2 ^ 64" for s
    using main_fs_owns [OF assms(1,5,2,4) that(1)] that(2)
    by (simp add: owns_def fds_ok_def held_def fs_destructor_def)
  with own main_session_released [OF assms(1,5,3)] show ?thesis by blast
qed

definition helper_env :: "int \<Rightarrow> main_env" where
  "helper_env pid =
     \<lparr>mv_open = Inr 3, mv_realpath = None, mv_stat = Inr 1, mv_pipe = Inr (4, 5), mv_fork = Inr pid,
      mv_reads = [Inl EINTR, Inr 1], mv_null = Inr 4, mv_finished = (\<lambda>i. False), mv_dev_at = (\<lambda>i. Some 2),
      mv_session = sample_session_env []\<rparr>"

lemma helper_env_ok: "session_env_ok (2 ^ 20) (mv_session (helper_env pid))"
  using sample_env_ok(1) by (simp add: helper_env_def session_env_ok_def sample_session_env_def)

lemma helper_parent:
  "\<exists>evs. passthrough_main (sample_os 5) (helper_env 77) [''fex'', ''/b'', ''/m''] = (evs, Some 0) \<and>
     M_close 4 \<in> set evs \<and> M_close 5 \<in> set evs"
  by (simp add: passthrough_main_def helper_env_def daemonize_def parent_process_def main_return_def PipePair_destroy_def
      Let_def)

theorem main_releases_witness:
  "\<exists>evs. passthrough_main (sample_os 5) (helper_env 77) [''fex'', ''/b'', ''/m''] = (evs, Some 0) \<and>
     M_close 4 \<in> set evs \<and> M_close 5 \<in> set evs \<and> own_closes_ok {#} evs \<and> (\<forall>fd \<in># fold own_step evs {#}. fd \<le> 2)"
proof -
  obtain evs where e: "passthrough_main (sample_os 5) (helper_env 77) [''fex'', ''/b'', ''/m''] = (evs, Some 0)"
    "M_close 4 \<in> set evs" "M_close 5 \<in> set evs" using helper_parent by blast
  have "own_closes_ok {#} evs \<and> (\<forall>fd \<in># fold own_step evs {#}. fd \<le> 2)"
    using main_releases [OF e(1) sample_os_ok helper_env_ok] by (simp add: helper_env_def)
  with e show ?thesis by blast
qed

subsection \<open>Delivery of signals\<close>










text \<open>
  C32. The standard streams: when the child starts its threads, descriptors 0, 1 and 2 all are
  \<open>/dev/null\<close>. If the program was started with all three open, the backing directory and the
  pipe are on other descriptors and are what they were. But a backing directory or a pipe
  that got one of these numbers, because the stream was closed, has been replaced: the
  daemon serves \<open>/dev/null\<close> as its root, or the parent never gets its byte.
\<close>

theorem stdio_redirected:
  assumes "evs = fst (passthrough_main os env argv)" "M_watchdog \<in> set evs"
    and "mv_open env = Inr rfd" "mv_pipe env = Inr (r, w)" "mv_null env = Inr devnull"
    and "fresh_fds (before_watchdog evs) t" "t' = fold fd_effect (before_watchdog evs) t"
  shows "(\<forall>fd \<in> {0, 1, 2}. t' fd = Some F_null) \<and>
    t' rfd = Some (if rfd \<le> 2 then F_null else F_backing) \<and>
    t' w = Some (if w \<le> 2 then F_null else F_pipe_w) \<and>
    ((\<forall>fd \<in> {0, 1, 2}. t fd \<noteq> None) \<longrightarrow> rfd > 2 \<and> w > 2)"
proof -
  obtain pid where b: "before_watchdog evs = M_open_backing rfd # install_signal_handlers @
      [M_pipe r w, M_fork pid, M_close r, M_setsid] @ redirect_stdio (Inr devnull)"
    using child_trace [of os env argv] assms(1-5) by (metis Inr_inject prod.inject)
  have f: "rfd \<ge> 0" "t rfd = None" "r \<ge> 0" "w \<ge> 0" "r \<noteq> w" "r \<noteq> rfd" "w \<noteq> rfd" "t r = None" "t w = None"
      "devnull \<ge> 0" "devnull \<noteq> rfd" "devnull \<noteq> w"
    using assms(6) unfolding b install_signal_handlers_def redirect_stdio_def by (simp_all split: if_splits)
  have t': "t' x = (if x = 0 \<or> x = 1 \<or> x = 2 then Some F_null
      else if x = devnull then None else if x = r then None else if x = w then Some F_pipe_w
      else if x = rfd then Some F_backing else t x)" for x
    unfolding assms(7) b using f(10) by (simp add: install_signal_handlers_def redirect_stdio_def)
  have small: "x \<le> 2 \<longleftrightarrow> x = 0 \<or> x = 1 \<or> x = 2" if "0 \<le> x" for x :: int using that by linarith
  have "t' rfd = Some (if rfd \<le> 2 then F_null else F_backing)" using f by (simp add: t' small)
  moreover have "t' w = Some (if w \<le> 2 then F_null else F_pipe_w)" using f by (simp add: t' small)
  moreover have "rfd > 2 \<and> w > 2" if "\<forall>fd \<in> {0, 1, 2}. t fd \<noteq> None"
    using that f small [OF f(1)] small [OF f(4)] by fastforce
  ultimately show ?thesis by (simp add: t')
qed

lemma helper_child: "M_watchdog \<in> set (fst (passthrough_main (sample_os 5) (helper_env 0) [''fex'', ''/b'', ''/m'']))"
proof -
  have "\<exists>b pp im evs. passthrough_main (sample_os 5) (helper_env 0) [''fex'', ''/b'', ''/m''] =
      child_process (sample_os 5) (helper_env 0) b pp im evs"
    by (auto simp: passthrough_main_def daemonize_def helper_env_def Let_def)
  then obtain b pp im evs where c: "passthrough_main (sample_os 5) (helper_env 0) [''fex'', ''/b'', ''/m''] =
      child_process (sample_os 5) (helper_env 0) b pp im evs" by blast
  from child_prefix [of "sample_os 5" "helper_env 0" b pp im evs] show ?thesis by (auto simp: c)
qed

theorem stdio_redirected_witness:
  "\<exists>t'. t' = fold fd_effect (before_watchdog (fst (passthrough_main (sample_os 5) (helper_env 0) [''fex'', ''/b'', ''/m''])))
       (\<lambda>fd. if fd \<in> {0, 1, 2} then Some F_inherited else None) \<and>
     t' 1 = Some F_null \<and> t' 3 = Some F_backing \<and> t' 5 = Some F_pipe_w"
proof -
  let ?evs = "fst (passthrough_main (sample_os 5) (helper_env 0) [''fex'', ''/b'', ''/m''])"
  let ?t = "\<lambda>fd :: int. if fd \<in> {0, 1, 2} then Some F_inherited else None"
  have env: "mv_open (helper_env 0) = Inr 3" "mv_pipe (helper_env 0) = Inr (4, 5)" "mv_null (helper_env 0) = Inr 4"
    by (simp_all add: helper_env_def)
  obtain pid where "before_watchdog ?evs = M_open_backing 3 # install_signal_handlers @
      [M_pipe 4 5, M_fork pid, M_close 4, M_setsid] @ redirect_stdio (Inr 4)"
    using child_trace [OF helper_child] env by (metis Inr_inject prod.inject)
  then have "fresh_fds (before_watchdog ?evs) ?t" by (simp add: install_signal_handlers_def redirect_stdio_def)
  from stdio_redirected [OF refl helper_child env this refl] show ?thesis by simp
qed

text \<open>What a reader gets from the pipe once the writer is gone: a byte, or end of file.\<close>

definition pipe_reads :: "main_event list \<Rightarrow> int \<Rightarrow> nat" where
  "pipe_reads evs w = (if M_write_byte w \<in> set evs then 1 else 0)"

text \<open>
  C30. The mount helper: with the child's watchdog at the other end of the pipe, and however
  often the parent's read is interrupted, the parent exits, and with status 0 exactly if
  the mount became visible at one of the 600 polls with \<open>run\<close> not having returned by then;
  and the watchdog always ends and closes the pipe once.
\<close>

theorem mount_helper_status:
  assumes "ready = \<lparr>dr_done = finished, dr_pipe_w = w\<rparr>" "w \<ge> 0"
    and "readiness_watchdog ready dev_at dev = (evs, ready')"
  shows "\<exists>status. snd (parent_wait (replicate k (Inl EINTR) @ [Inr (pipe_reads evs w)])) = Some status \<and>
      (status = 0 \<longleftrightarrow> (\<exists>i < 600. (\<exists>d. dev_at i = Some d \<and> d \<noteq> dev) \<and> \<not> (\<exists>j \<le> i. finished j))) \<and>
    filter (\<lambda>ev. ev = M_close w) evs = [M_close w] \<and> dr_pipe_w ready' = -1"
proof -
  have "snd (parent_wait (replicate k (Inl EINTR) @ [Inr n])) = Some (if n = 1 then 0 else 1)" for n
    by (induction k) (simp_all add: case_prod_unfold)
  moreover have "pipe_reads evs w = (if watchdog_loop finished dev_at dev 0 kMaxIters then 1 else 0)"
    using assms by (auto simp: pipe_reads_def readiness_watchdog_def)
  ultimately show ?thesis
    using assms by (auto simp: watchdog_loop_iff readiness_watchdog_def kMaxIters_def)
qed

theorem mount_helper_status_witness:
  "snd (parent_wait (replicate 2 (Inl EINTR) @
     [Inr (pipe_reads (fst (readiness_watchdog \<lparr>dr_done = (\<lambda>i. False), dr_pipe_w = 5\<rparr>
        (\<lambda>i. Some (if i < 3 then 1 else 2)) 1)) 5)])) = Some 0"
proof -
  have "\<exists>i < (600 :: nat). (\<exists>d. Some (if i < 3 then 1 else 2 :: u64) = Some d \<and> d \<noteq> 1) \<and> \<not> (\<exists>j \<le> i. False)"
    by (rule exI [of _ "3 :: nat"]) simp
  with mount_helper_status [OF refl _ surjective_pairing, of 5 2 "\<lambda>i. False" "\<lambda>i. Some (if i < 3 then 1 else 2)" 1]
  show ?thesis by auto
qed

end
