(* ===== verification/Passthrough_Threads.thy ===== *)
theory Passthrough_Threads
  imports Passthrough_Fds
begin

text \<open>
  \<open>PassthroughFs\<close> of \<open>examples/passthrough.cpp\<close> as its threads run it. The workers of a session
  call it concurrently; here a callback is a program of the actions between which the other
  threads may run: acquiring and releasing a mutex, one access to a table under its mutex,
  one system call, one use or release of a \<open>std::shared_ptr<Inode>\<close>. Inodes live in a heap with
  use counts, so that one that is forgotten while a callback holds it stays alive.

  The close that goes with an erased table entry or with the last \<open>shared_ptr\<close> is part of that
  action: no other thread can reach the descriptor's owner any more. That a callback
  that runs alone does what its definition in \<open>Passthrough\<close> says is shown in
  \<open>Passthrough_Alone\<close>; what holds when they run together, in \<open>Passthrough_Races\<close>.
\<close>

subsection \<open>The shared state\<close>

datatype mutex = Mu | Files_mu | Dirs_mu

text \<open>\<open>std::shared_mutex\<close>: readers or one writer. \<open>std::mutex\<close> only has writers.\<close>

datatype mutex_state = Readers nat | Writer

record shared =
  sh_mutex :: "mutex \<Rightarrow> mutex_state"
  sh_objs :: "nat \<rightharpoonup> Inode"
  sh_use :: "nat \<Rightarrow> nat"
  sh_next :: nat
  sh_map :: "u64 \<rightharpoonup> nat"
  sh_files :: "u64 \<rightharpoonup> int"
  sh_file_id :: u64
  sh_dirs :: "u64 \<rightharpoonup> int"
  sh_dir_id :: u64
  sh_log :: sys_log

definition shared_new :: "int \<Rightarrow> sys_log \<Rightarrow> shared" where
  "shared_new root_fd log =
     \<lparr>sh_mutex = (\<lambda>m. Readers 0), sh_objs = [0 \<mapsto> \<lparr>in_path_fd = root_fd, in_nlookup = 1\<rparr>],
      sh_use = (\<lambda>r. 0)(0 := 1), sh_next = 1, sh_map = [NodeId_root \<mapsto> 0],
      sh_files = Map.empty, sh_file_id = 0, sh_dirs = Map.empty, sh_dir_id = 0, sh_log = log\<rparr>"

definition sh_close :: "os \<Rightarrow> int \<Rightarrow> shared \<Rightarrow> shared" where
  "sh_close os fd s =
     (if fd \<ge> 0 then s\<lparr>sh_log := sh_log s @ [(Close fd, os_call os (sh_log s) (Close fd))]\<rparr> else s)"

text \<open>\<open>~shared_ptr\<close>: the last one destroys the inode, and \<open>~Fd\<close> closes its descriptor.\<close>

definition unref :: "os \<Rightarrow> nat \<Rightarrow> shared \<Rightarrow> shared option" where
  "unref os r s = (case sh_objs s r of
     None \<Rightarrow> None
   | Some i \<Rightarrow>
       if sh_use s r = 1
       then Some (sh_close os (in_path_fd i) (s\<lparr>sh_use := (sh_use s)(r := 0), sh_objs := (sh_objs s)(r := None)\<rparr>))
       else Some (s\<lparr>sh_use := (sh_use s)(r := sh_use s r - 1)\<rparr>))"

subsection \<open>Programs\<close>

text \<open>
  The continuation of a system call gets the log before the call, which determines what the
  call left in the caller's buffer. \<open>Find\<close> copies the \<open>shared_ptr\<close> out of the table.
\<close>

datatype 'a prog =
    Ret 'a
  | Sys call "sys_log \<Rightarrow> i32 + int \<Rightarrow> 'a prog"
  | Acquire mutex bool "'a prog"
  | Unlock mutex bool "'a prog"
  | Find NodeId "nat option \<Rightarrow> 'a prog"
  | Deref nat "int \<Rightarrow> 'a prog"
  | Drop nat "'a prog"
  | Tab_insert int u64 "bool \<Rightarrow> 'a prog"
  | Tab_forget u64 u64 "'a prog"
  | File_find u64 "int option \<Rightarrow> 'a prog"
  | File_new int "u64 \<Rightarrow> 'a prog"
  | File_erase u64 "'a prog"
  | Dir_find u64 "int option \<Rightarrow> 'a prog"
  | Dir_new int "u64 \<Rightarrow> 'a prog"
  | Dir_erase u64 "'a prog"

text \<open>One action. \<open>Fault\<close> is undefined behaviour: an inode used after its destruction, a mutex released that is not held.\<close>

datatype 'a stepped = Stepped "'a prog" shared | Waits | Fault

definition exec_unref :: "os \<Rightarrow> nat \<Rightarrow> 'a prog \<Rightarrow> shared \<Rightarrow> 'a stepped" where
  "exec_unref os r p s = (case unref os r s of None \<Rightarrow> Fault | Some s \<Rightarrow> Stepped p s)"

definition exec_forget :: "os \<Rightarrow> u64 \<Rightarrow> u64 \<Rightarrow> 'a prog \<Rightarrow> shared \<Rightarrow> 'a stepped" where
  "exec_forget os key n p s = (case sh_map s key of
     None \<Rightarrow> Stepped p s
   | Some r \<Rightarrow>
       (case sh_objs s r of
          None \<Rightarrow> Fault
        | Some i \<Rightarrow>
            let nl = (if n \<ge> in_nlookup i then 0 else in_nlookup i - n);
                s = s\<lparr>sh_objs := (sh_objs s)(r \<mapsto> i\<lparr>in_nlookup := nl\<rparr>)\<rparr>
            in if nl = 0 then exec_unref os r p (s\<lparr>sh_map := (sh_map s)(key := None)\<rparr>) else Stepped p s))"

definition exec_insert :: "int \<Rightarrow> u64 \<Rightarrow> (bool \<Rightarrow> 'a prog) \<Rightarrow> shared \<Rightarrow> 'a stepped" where
  "exec_insert fd ino k s = (case sh_map s ino of
     None \<Rightarrow>
       let r = sh_next s in
       Stepped (k True) (s\<lparr>sh_next := r + 1, sh_objs := (sh_objs s)(r \<mapsto> \<lparr>in_path_fd = fd, in_nlookup = 1\<rparr>),
         sh_use := (sh_use s)(r := 1), sh_map := (sh_map s)(ino \<mapsto> r)\<rparr>)
   | Some r \<Rightarrow>
       (case sh_objs s r of
          None \<Rightarrow> Fault
        | Some i \<Rightarrow>
            Stepped (k False) (s\<lparr>sh_objs := (sh_objs s)(r \<mapsto> i\<lparr>in_nlookup := in_nlookup i + 1\<rparr>)\<rparr>)))"

fun exec :: "os \<Rightarrow> 'a prog \<Rightarrow> shared \<Rightarrow> 'a stepped" where
  "exec os (Ret x) s = Waits"
| "exec os (Sys c k) s =
     (let r = os_call os (sh_log s) c in Stepped (k (sh_log s) r) (s\<lparr>sh_log := sh_log s @ [(c, r)]\<rparr>))"
| "exec os (Acquire m excl p) s = (case sh_mutex s m of
     Writer \<Rightarrow> Waits
   | Readers n \<Rightarrow>
       if excl then if n = 0 then Stepped p (s\<lparr>sh_mutex := (sh_mutex s)(m := Writer)\<rparr>) else Waits
       else Stepped p (s\<lparr>sh_mutex := (sh_mutex s)(m := Readers (n + 1))\<rparr>))"
| "exec os (Unlock m excl p) s = (case sh_mutex s m of
     Writer \<Rightarrow> if excl then Stepped p (s\<lparr>sh_mutex := (sh_mutex s)(m := Readers 0)\<rparr>) else Fault
   | Readers n \<Rightarrow>
       if excl \<or> n = 0 then Fault else Stepped p (s\<lparr>sh_mutex := (sh_mutex s)(m := Readers (n - 1))\<rparr>))"
| "exec os (Find n k) s = (case sh_map s n of
     None \<Rightarrow> Stepped (k None) s
   | Some r \<Rightarrow> Stepped (k (Some r)) (s\<lparr>sh_use := (sh_use s)(r := sh_use s r + 1)\<rparr>))"
| "exec os (Deref r k) s = (case sh_objs s r of None \<Rightarrow> Fault | Some i \<Rightarrow> Stepped (k (in_path_fd i)) s)"
| "exec os (Drop r p) s = exec_unref os r p s"
| "exec os (Tab_insert fd ino k) s = exec_insert fd ino k s"
| "exec os (Tab_forget key n p) s = exec_forget os key n p s"
| "exec os (File_find h k) s = Stepped (k (sh_files s h)) s"
| "exec os (File_new fd k) s =
     (let h = sh_file_id s + 1; s = s\<lparr>sh_file_id := h\<rparr> in
      Stepped (k h) (case sh_files s h of
        None \<Rightarrow> s\<lparr>sh_files := (sh_files s)(h \<mapsto> fd)\<rparr>
      | Some _ \<Rightarrow> sh_close os fd s))"
| "exec os (File_erase h p) s = (case sh_files s h of
     None \<Rightarrow> Stepped p s
   | Some fd \<Rightarrow> Stepped p (sh_close os fd (s\<lparr>sh_files := (sh_files s)(h := None)\<rparr>)))"
| "exec os (Dir_find h k) s = Stepped (k (sh_dirs s h)) s"
| "exec os (Dir_new fd k) s =
     (let h = sh_dir_id s + 1 in Stepped (k h) (s\<lparr>sh_dir_id := h, sh_dirs := (sh_dirs s)(h \<mapsto> fd)\<rparr>))"
| "exec os (Dir_erase h p) s = (case sh_dirs s h of
     None \<Rightarrow> Stepped p s
   | Some d \<Rightarrow> Stepped p (s\<lparr>sh_log := sh_log s @ [(Closedir d, os_call os (sh_log s) (Closedir d))],
                          sh_dirs := (sh_dirs s)(h := None)\<rparr>))"

subsection \<open>Tables and handles\<close>

text \<open>\<open>~Fd\<close> of a local variable, and \<open>::close(fd); return wrap_errno();\<close>.\<close>

definition close_then :: "int \<Rightarrow> 'a prog \<Rightarrow> 'a prog" where
  "close_then fd p = (if fd \<ge> 0 then Sys (Close fd) (\<lambda>log r. p) else p)"

definition close_errno_then :: "int \<Rightarrow> i32 \<Rightarrow> (i32 \<Rightarrow> 'a prog) \<Rightarrow> 'a prog" where
  "close_errno_then fd e k = Sys (Close fd) (\<lambda>log r. k (case r of Inl e' \<Rightarrow> e' | Inr v \<Rightarrow> e))"

text \<open>\<open>InodeTable::get\<close>, \<open>insert\<close> (whose \<open>Fd\<close> argument is destroyed after the lock is released), \<open>forget\<close>, \<open>forget_many\<close>.\<close>

definition get_then :: "NodeId \<Rightarrow> (nat option \<Rightarrow> 'a prog) \<Rightarrow> 'a prog" where
  "get_then n k = Acquire Mu False (Find n (\<lambda>p. Unlock Mu False (k p)))"

definition insert_then :: "int \<Rightarrow> u64 \<Rightarrow> (NodeId \<Rightarrow> 'a prog) \<Rightarrow> 'a prog" where
  "insert_then fd ino k =
     Acquire Mu True (Tab_insert fd ino (\<lambda>ins. Unlock Mu True (
       close_then (if ins then -1 else fd) (k ino))))"

fun forget_items :: "(NodeId \<times> u64) list \<Rightarrow> 'a prog \<Rightarrow> 'a prog" where
  "forget_items [] p = p"
| "forget_items ((nid, n) # items) p =
     (if nid = NodeId_root then forget_items items p else Tab_forget nid n (forget_items items p))"

definition forget_prog :: "NodeId \<Rightarrow> u64 \<Rightarrow> unit prog" where
  "forget_prog nid n =
     (if nid = NodeId_root then Ret () else Acquire Mu True (Tab_forget nid n (Unlock Mu True (Ret ()))))"

definition forget_multi_prog :: "(NodeId \<times> u64) list \<Rightarrow> unit prog" where
  "forget_multi_prog items = Acquire Mu True (forget_items items (Unlock Mu True (Ret ())))"

definition file_fd_then :: "FileHandle \<Rightarrow> (int \<Rightarrow> 'a prog) \<Rightarrow> 'a prog" where
  "file_fd_then fh k =
     (if fh = 0 then k (-1)
      else Acquire Files_mu False (File_find fh (\<lambda>x. Unlock Files_mu False (
        k (case x of None \<Rightarrow> -1 | Some fd \<Rightarrow> fd)))))"

definition io_fd_then :: "NodeId \<Rightarrow> FileHandle \<Rightarrow> u32 \<Rightarrow> (Errc + int \<times> int \<Rightarrow> 'a prog) \<Rightarrow> 'a prog" where
  "io_fd_then n fh mode k = file_fd_then fh (\<lambda>fd.
     if fd \<ge> 0 then k (Inr (fd, -1))
     else get_then n (\<lambda>x. case x of
       None \<Rightarrow> k (Inl ESTALE)
     | Some r \<Rightarrow> Deref r (\<lambda>pfd. Sys (Open (Proc_self_fd pfd) (mode OR O_CLOEXEC)) (\<lambda>log x. case x of
         Inl e \<Rightarrow> Drop r (k (Inl e))
       | Inr t \<Rightarrow> Drop r (k (Inr (t, t)))))))"

text \<open>A callback on one inode, whose \<open>shared_ptr\<close> lives to the end; the final call may fail.\<close>

definition on_node :: "NodeId \<Rightarrow> (nat \<Rightarrow> int \<Rightarrow> (Errc + 'a) prog) \<Rightarrow> (Errc + 'a) prog" where
  "on_node n body = get_then n (\<lambda>x. case x of
     None \<Rightarrow> Ret (Inl ESTALE)
   | Some r \<Rightarrow> Deref r (body r))"

definition unit_call :: "call \<Rightarrow> (Errc + unit \<Rightarrow> 'a prog) \<Rightarrow> 'a prog" where
  "unit_call c k = Sys c (\<lambda>log r. k (case r of Inl e \<Rightarrow> Inl e | Inr v \<Rightarrow> Inr ()))"

subsection \<open>The callbacks\<close>

definition entry_for :: "NodeId \<Rightarrow> EntryOut" where
  "entry_for nid = EntryOut_default\<lparr>eo_nodeid := nid, eo_entry_valid := one_sec\<rparr>"

definition lookupx_prog :: "os \<Rightarrow> NodeId \<Rightarrow> byte list \<Rightarrow> (Errc + EntryOut) prog" where
  "lookupx_prog os parent name = on_node parent (\<lambda>p pfd.
     Sys (Openat pfd (c_str name) (O_PATH OR O_NOFOLLOW OR O_CLOEXEC) 0) (\<lambda>log r. case r of
       Inl e \<Rightarrow> Drop p (Ret (if e = ENOENT then Inr (EntryOut_default\<lparr>eo_negative := True\<rparr>) else Inl e))
     | Inr fd \<Rightarrow> Sys (Fstatat fd) (\<lambda>log r. case r of
           Inl e \<Rightarrow> close_then fd (Drop p (Ret (Inl e)))
         | Inr v \<Rightarrow> insert_then fd (st_ino (os_stat os log (Fstatat fd))) (\<lambda>nid.
             Drop p (Ret (Inr (entry_for nid)))))))"

definition statx_prog :: "os \<Rightarrow> NodeId \<Rightarrow> (Errc + StatxOut) prog" where
  "statx_prog os n = on_node n (\<lambda>i fd. Sys (Fstatat fd) (\<lambda>log r. Drop i (Ret (case r of
     Inl e \<Rightarrow> Inl e | Inr v \<Rightarrow> Inr (fill_statx (os_stat os log (Fstatat fd)) StatxOut_zero)))))"

fun calls_then :: "call list \<Rightarrow> (Errc + unit \<Rightarrow> 'a prog) \<Rightarrow> 'a prog" where
  "calls_then [] k = k (Inr ())"
| "calls_then (c # cs) k = Sys c (\<lambda>log r. case r of Inl e \<Rightarrow> k (Inl e) | Inr v \<Rightarrow> calls_then cs k)"

text \<open>The \<open>shared_ptr\<close> of \<open>setstatx\<close> ends with the block that builds the path.\<close>

definition setstatx_rest :: "os \<Rightarrow> NodeId \<Rightarrow> SetStatxIn \<Rightarrow> int \<Rightarrow> path \<Rightarrow> (Errc + StatxOut) prog" where
  "setstatx_rest os n inn fd proc = calls_then (setstatx_calls fd proc inn) (\<lambda>r. case r of
     Inl e \<Rightarrow> Ret (Inl e) | Inr u \<Rightarrow> statx_prog os n)"

definition setstatx_prog :: "os \<Rightarrow> NodeId \<Rightarrow> FileHandle \<Rightarrow> SetStatxIn \<Rightarrow> (Errc + StatxOut) prog" where
  "setstatx_prog os n fh inn = file_fd_then fh (\<lambda>fd.
     if fd < 0 then on_node n (\<lambda>i pfd. Drop i (setstatx_rest os n inn fd (Proc_self_fd pfd)))
     else setstatx_rest os n inn fd (Proc_self_fd 0))"

definition tmpfile_prog :: "os \<Rightarrow> MkobjxIn \<Rightarrow> nat \<Rightarrow> int \<Rightarrow> (Errc + EntryOut) prog" where
  "tmpfile_prog os mi p pfd =
     Sys (Openat pfd [46] (O_TMPFILE OR O_RDWR OR O_CLOEXEC) (ucast (so_mode (mi_stat mi) AND 0xfff))) (\<lambda>log r. case r of
       Inl e \<Rightarrow> Drop p (Ret (Inl e))
     | Inr fd \<Rightarrow> Sys (Fstat fd) (\<lambda>log r. case r of
           Inl e \<Rightarrow> close_errno_then fd e (\<lambda>e. Drop p (Ret (Inl e)))
         | Inr v \<Rightarrow>
             let ino = st_ino (os_stat os log (Fstat fd)) in
             Sys (Open (Proc_self_fd fd) (O_PATH OR O_CLOEXEC)) (\<lambda>log r. case r of
               Inl e \<Rightarrow> close_errno_then fd e (\<lambda>e. Drop p (Ret (Inl e)))
             | Inr pfd \<Rightarrow> Sys (Close fd) (\<lambda>log r. insert_then pfd ino (\<lambda>nid.
                 Drop p (Ret (Inr (entry_for nid))))))))"

definition enter_new_prog :: "os \<Rightarrow> nat \<Rightarrow> int \<Rightarrow> byte list \<Rightarrow> (Errc + EntryOut) prog" where
  "enter_new_prog os p pfd nm = Sys (Openat pfd nm (O_PATH OR O_NOFOLLOW OR O_CLOEXEC) 0) (\<lambda>log r. case r of
     Inl e \<Rightarrow> Drop p (Ret (Inl e))
   | Inr cfd \<Rightarrow> Sys (Fstatat cfd) (\<lambda>log r. case r of
         Inl e \<Rightarrow> close_errno_then cfd e (\<lambda>e. Drop p (Ret (Inl e)))
       | Inr v \<Rightarrow> insert_then cfd (st_ino (os_stat os log (Fstatat cfd))) (\<lambda>nid.
           Drop p (Ret (Inr (entry_for nid))))))"

definition mkobjx_prog :: "os \<Rightarrow> NodeId \<Rightarrow> MkobjxIn \<Rightarrow> (Errc + EntryOut) prog" where
  "mkobjx_prog os parent mi = on_node parent (\<lambda>p pfd.
     if mi_flags mi AND kMkobjxTmpfile \<noteq> 0 then tmpfile_prog os mi p pfd
     else let nm = c_str (mi_name mi) in
       case create_call pfd nm mi of
         None \<Rightarrow> Drop p (Ret (Inl EINVAL))
       | Some c \<Rightarrow> Sys c (\<lambda>log r. case r of
           Inl e \<Rightarrow> Drop p (Ret (Inl e))
         | Inr v \<Rightarrow>
             if so_mode (mi_stat mi) AND S_IFMT = S_IFLNK then enter_new_prog os p pfd nm
             else Sys (Fchownat pfd nm (so_uid (mi_stat mi)) (so_gid (mi_stat mi))) (\<lambda>log r. case r of
               Inl e \<Rightarrow> if e \<noteq> EPERM then Drop p (Ret (Inl e)) else enter_new_prog os p pfd nm
             | Inr v \<Rightarrow> enter_new_prog os p pfd nm)))"

definition unlink_prog :: "NodeId \<Rightarrow> byte list \<Rightarrow> (Errc + unit) prog" where
  "unlink_prog parent name = on_node parent (\<lambda>p pfd. unit_call (Unlinkat pfd (c_str name) False) (\<lambda>r. Drop p (Ret r)))"

definition rmdir_prog :: "NodeId \<Rightarrow> byte list \<Rightarrow> (Errc + unit) prog" where
  "rmdir_prog parent name = on_node parent (\<lambda>p pfd. unit_call (Unlinkat pfd (c_str name) True) (\<lambda>r. Drop p (Ret r)))"

text \<open>Two inodes at once (\<open>rename\<close>, \<open>link\<close>): both are looked up before either is tested, and dropped in reverse.\<close>

definition on_nodes :: "NodeId \<Rightarrow> NodeId \<Rightarrow> (int \<Rightarrow> int \<Rightarrow> call) \<Rightarrow> (Errc + unit) prog" where
  "on_nodes a b c = get_then a (\<lambda>x. get_then b (\<lambda>y. case (x, y) of
     (Some p, Some q) \<Rightarrow> Deref p (\<lambda>pfd. Deref q (\<lambda>qfd. unit_call (c pfd qfd) (\<lambda>r. Drop q (Drop p (Ret r)))))
   | (Some p, None) \<Rightarrow> Drop p (Ret (Inl ESTALE))
   | (None, Some q) \<Rightarrow> Drop q (Ret (Inl ESTALE))
   | (None, None) \<Rightarrow> Ret (Inl ESTALE)))"

definition rename_prog :: "NodeId \<Rightarrow> byte list \<Rightarrow> NodeId \<Rightarrow> byte list \<Rightarrow> u32 \<Rightarrow> (Errc + unit) prog" where
  "rename_prog od on nd nn flags = on_nodes od nd (\<lambda>ofd nfd. Renameat2 ofd (c_str on) nfd (c_str nn) flags)"

definition link_prog :: "NodeId \<Rightarrow> NodeId \<Rightarrow> byte list \<Rightarrow> (Errc + unit) prog" where
  "link_prog oldnodeid newparent newname =
     on_nodes oldnodeid newparent (\<lambda>sfd dfd. Linkat sfd dfd (c_str newname))"

definition readlink_prog :: "os \<Rightarrow> NodeId \<Rightarrow> (Errc + byte list) prog" where
  "readlink_prog os n = on_node n (\<lambda>i fd. Sys (Readlinkat fd 4096) (\<lambda>log r. Drop i (Ret (case r of
     Inl e \<Rightarrow> Inl e
   | Inr v \<Rightarrow> Inr (take (nat v) (fill (zeros 4096) (os_data os log (Readlinkat fd 4096)) @ zeros (nat v - 4096)))))))"

definition read_prog :: "os \<Rightarrow> NodeId \<Rightarrow> FileHandle \<Rightarrow> u64 \<Rightarrow> byte list \<Rightarrow> ((Errc + nat) \<times> byte list) prog" where
  "read_prog os n fh off out = io_fd_then n fh O_RDONLY (\<lambda>x. case x of
     Inl e \<Rightarrow> Ret (Inl e, out)
   | Inr (fd, owner) \<Rightarrow> Sys (Pread fd (length out) off) (\<lambda>log r. close_then owner (Ret (
       case r of Inl e \<Rightarrow> Inl e | Inr v \<Rightarrow> Inr (nat v), fill out (os_data os log (Pread fd (length out) off))))))"

definition write_prog :: "NodeId \<Rightarrow> FileHandle \<Rightarrow> u64 \<Rightarrow> byte list \<Rightarrow> (Errc + nat) prog" where
  "write_prog n fh off inn = io_fd_then n fh O_WRONLY (\<lambda>x. case x of
     Inl e \<Rightarrow> Ret (Inl e)
   | Inr (fd, owner) \<Rightarrow> Sys (Pwrite fd inn off) (\<lambda>log r. close_then owner (Ret (
       case r of Inl e \<Rightarrow> Inl e | Inr v \<Rightarrow> Inr (nat v)))))"

definition fallocate_prog :: "NodeId \<Rightarrow> FileHandle \<Rightarrow> u32 \<Rightarrow> u64 \<Rightarrow> u64 \<Rightarrow> (Errc + unit) prog" where
  "fallocate_prog n fh mode off len = io_fd_then n fh O_WRONLY (\<lambda>x. case x of
     Inl e \<Rightarrow> Ret (Inl e)
   | Inr (fd, owner) \<Rightarrow> unit_call (Fallocate fd mode off len) (\<lambda>r. close_then owner (Ret r)))"

definition statfs_prog :: "os \<Rightarrow> NodeId \<Rightarrow> (Errc + StatfsOut) prog" where
  "statfs_prog os n = on_node n (\<lambda>i fd. Sys (Fstatvfs fd) (\<lambda>log r. Drop i (Ret (case r of
     Inl e \<Rightarrow> Inl e
   | Inr v \<Rightarrow>
       let sv = os_statvfs os log (Fstatvfs fd) in
       Inr \<lparr>sf_blocks = f_blocks sv, sf_bfree = f_bfree sv, sf_bavail = f_bavail sv, sf_files = f_files sv,
            sf_ffree = f_ffree sv, sf_bsize = ucast (f_bsize sv), sf_namelen = ucast (f_namemax sv),
            sf_frsize = ucast (f_frsize sv)\<rparr>))))"

definition open_prog :: "NodeId \<Rightarrow> u32 \<Rightarrow> (Errc + OpenOut) prog" where
  "open_prog n flags = on_node n (\<lambda>i pfd.
     Sys (Open (Proc_self_fd pfd) (flags AND kPersistent OR O_CLOEXEC)) (\<lambda>log r. case r of
       Inl e \<Rightarrow> Drop i (Ret (Inl e))
     | Inr fd \<Rightarrow> Acquire Files_mu True (File_new fd (\<lambda>h. Unlock Files_mu True (
         Drop i (Ret (Inr \<lparr>oo_fh = h, oo_open_flags = 0\<rparr>)))))))"

definition release_prog :: "FileHandle \<Rightarrow> (Errc + unit) prog" where
  "release_prog fh = Acquire Files_mu True (File_erase fh (Unlock Files_mu True (Ret (Inr ()))))"

definition opendir_prog :: "NodeId \<Rightarrow> (Errc + OpenOut) prog" where
  "opendir_prog n = on_node n (\<lambda>i pfd.
     Sys (Open (Proc_self_fd pfd) (O_DIRECTORY OR O_RDONLY OR O_CLOEXEC)) (\<lambda>log r. case r of
       Inl e \<Rightarrow> Drop i (Ret (Inl e))
     | Inr fd \<Rightarrow> Sys (Fdopendir fd) (\<lambda>log r. case r of
           Inl e \<Rightarrow> close_errno_then fd e (\<lambda>e. Drop i (Ret (Inl e)))
         | Inr v \<Rightarrow> Acquire Dirs_mu True (Dir_new fd (\<lambda>h. Unlock Dirs_mu True (
             Drop i (Ret (Inr \<lparr>oo_fh = h, oo_open_flags = 0\<rparr>))))))))"

definition releasedir_prog :: "FileHandle \<Rightarrow> (Errc + unit) prog" where
  "releasedir_prog fh = Acquire Dirs_mu True (Dir_erase fh (Unlock Dirs_mu True (Ret (Inr ()))))"

text \<open>The directory stream is used after \<open>dirs_mu_\<close> is released.\<close>

function readdir_from :: "os \<Rightarrow> int \<Rightarrow> u64 \<Rightarrow> DirentWriter \<Rightarrow> ((Errc + unit) \<times> DirentWriter) option prog" where
  "readdir_from os d off w = Sys (Readdir d) (\<lambda>log r. case r of
     Inl e \<Rightarrow> Ret (Some (if e \<noteq> 0 then Inl e else Inr (), w))
   | Inr v \<Rightarrow>
       let de = os_dirent os log (Readdir d) in
       Sys (Telldir d) (\<lambda>log r.
         let next_off = (case r of Inl e \<Rightarrow> -1 | Inr t \<Rightarrow> word_of_int t) in
         case DirentWriter_add w (c_str (sd_name de)) (sd_ino de) next_off (ucast (sd_type de)) of
           None \<Rightarrow> Ret None
         | Some (False, w) \<Rightarrow> Sys (Seekdir d off) (\<lambda>log r. Ret (Some (Inr (), w)))
         | Some (True, w) \<Rightarrow> readdir_from os d next_off w))"
  by pat_completeness auto
termination
  by (relation "measure (\<lambda>(os, d, off, w). length (dw_buf w) - dw_pos w)") (auto dest!: DirentWriter_add_less)

definition readdir_prog :: "os \<Rightarrow> FileHandle \<Rightarrow> u64 \<Rightarrow> DirentWriter \<Rightarrow> ((Errc + unit) \<times> DirentWriter) option prog" where
  "readdir_prog os fh off out = Acquire Dirs_mu True (Dir_find fh (\<lambda>x. Unlock Dirs_mu True (case x of
     None \<Rightarrow> Ret (Some (Inl EBADF, out))
   | Some d \<Rightarrow> Sys (Seekdir d off) (\<lambda>log r. readdir_from os d off out))))"

definition xattr_read_prog :: "os \<Rightarrow> NodeId \<Rightarrow> (path \<Rightarrow> call) \<Rightarrow> byte list \<Rightarrow> ((Errc + nat) \<times> byte list) prog" where
  "xattr_read_prog os n c out = get_then n (\<lambda>x. case x of
     None \<Rightarrow> Ret (Inl ESTALE, out)
   | Some i \<Rightarrow> Deref i (\<lambda>fd. Sys (c (Proc_self_fd fd)) (\<lambda>log r. Drop i (Ret (
       case r of Inl e \<Rightarrow> Inl e | Inr v \<Rightarrow> Inr (nat v), fill out (os_data os log (c (Proc_self_fd fd))))))))"

definition getxattr_prog :: "os \<Rightarrow> NodeId \<Rightarrow> byte list \<Rightarrow> byte list \<Rightarrow> ((Errc + nat) \<times> byte list) prog" where
  "getxattr_prog os n name out = xattr_read_prog os n (\<lambda>p. Lgetxattr p (c_str name) (length out)) out"

definition setxattr_prog :: "NodeId \<Rightarrow> byte list \<Rightarrow> byte list \<Rightarrow> u32 \<Rightarrow> (Errc + unit) prog" where
  "setxattr_prog n name val flags = on_node n (\<lambda>i fd.
     unit_call (Lsetxattr (Proc_self_fd fd) (c_str name) val flags) (\<lambda>r. Drop i (Ret r)))"

definition listxattr_prog :: "os \<Rightarrow> NodeId \<Rightarrow> byte list \<Rightarrow> ((Errc + nat) \<times> byte list) prog" where
  "listxattr_prog os n out = xattr_read_prog os n (\<lambda>p. Llistxattr p (length out)) out"

definition removexattr_prog :: "NodeId \<Rightarrow> byte list \<Rightarrow> (Errc + unit) prog" where
  "removexattr_prog n name = on_node n (\<lambda>i fd.
     unit_call (Lremovexattr (Proc_self_fd fd) (c_str name)) (\<lambda>r. Drop i (Ret r)))"

subsection \<open>Requests\<close>

text \<open>A call of the interface with its arguments, its result, and the program that serves it.\<close>

datatype pt_request =
    Q_lookup_root
  | Q_lookupx NodeId "byte list"
  | Q_forget NodeId u64
  | Q_forget_multi "(NodeId \<times> u64) list"
  | Q_statx NodeId
  | Q_setstatx NodeId FileHandle SetStatxIn
  | Q_mkobjx NodeId MkobjxIn
  | Q_unlink NodeId "byte list"
  | Q_rmdir NodeId "byte list"
  | Q_rename NodeId "byte list" NodeId "byte list" u32
  | Q_link NodeId NodeId "byte list"
  | Q_readlink NodeId
  | Q_read NodeId FileHandle u64 "byte list"
  | Q_write NodeId FileHandle u64 "byte list"
  | Q_statfs NodeId
  | Q_fallocate NodeId FileHandle u32 u64 u64
  | Q_open NodeId u32
  | Q_release NodeId FileHandle u32
  | Q_opendir NodeId
  | Q_releasedir NodeId FileHandle
  | Q_readdir NodeId FileHandle u64 DirentWriter
  | Q_getxattr NodeId "byte list" "byte list"
  | Q_setxattr NodeId "byte list" "byte list" u32
  | Q_listxattr NodeId "byte list"
  | Q_removexattr NodeId "byte list"

datatype pt_result =
    R_done
  | R_unit "Errc + unit"
  | R_entry "Errc + EntryOut"
  | R_statx "Errc + StatxOut"
  | R_statfs "Errc + StatfsOut"
  | R_open "Errc + OpenOut"
  | R_bytes "Errc + byte list"
  | R_size "Errc + nat"
  | R_filled "(Errc + nat) \<times> byte list"
  | R_dirents "((Errc + unit) \<times> DirentWriter) option"

fun callback :: "os \<Rightarrow> pt_request \<Rightarrow> pt_result prog" where
  "callback os Q_lookup_root =
     Ret (R_entry (Inr \<lparr>eo_nodeid = NodeId_root, eo_entry_valid = one_sec, eo_negative = False\<rparr>))"
| "callback os (Q_lookupx parent name) = map_prog R_entry (lookupx_prog os parent name)"
| "callback os (Q_forget n nlookup) = map_prog (\<lambda>u. R_done) (forget_prog n nlookup)"
| "callback os (Q_forget_multi items) = map_prog (\<lambda>u. R_done) (forget_multi_prog items)"
| "callback os (Q_statx n) = map_prog R_statx (statx_prog os n)"
| "callback os (Q_setstatx n fh inn) = map_prog R_statx (setstatx_prog os n fh inn)"
| "callback os (Q_mkobjx parent mi) = map_prog R_entry (mkobjx_prog os parent mi)"
| "callback os (Q_unlink parent name) = map_prog R_unit (unlink_prog parent name)"
| "callback os (Q_rmdir parent name) = map_prog R_unit (rmdir_prog parent name)"
| "callback os (Q_rename od on nd nn flags) = map_prog R_unit (rename_prog od on nd nn flags)"
| "callback os (Q_link old newparent newname) = map_prog R_unit (link_prog old newparent newname)"
| "callback os (Q_readlink n) = map_prog R_bytes (readlink_prog os n)"
| "callback os (Q_read n fh off out) = map_prog R_filled (read_prog os n fh off out)"
| "callback os (Q_write n fh off inn) = map_prog R_size (write_prog n fh off inn)"
| "callback os (Q_statfs n) = map_prog R_statfs (statfs_prog os n)"
| "callback os (Q_fallocate n fh mode off len) = map_prog R_unit (fallocate_prog n fh mode off len)"
| "callback os (Q_open n flags) = map_prog R_open (open_prog n flags)"
| "callback os (Q_release n fh flags) = map_prog R_unit (release_prog fh)"
| "callback os (Q_opendir n) = map_prog R_open (opendir_prog n)"
| "callback os (Q_releasedir n fh) = map_prog R_unit (releasedir_prog fh)"
| "callback os (Q_readdir n fh off out) = map_prog R_dirents (readdir_prog os fh off out)"
| "callback os (Q_getxattr n name out) = map_prog R_filled (getxattr_prog os n name out)"
| "callback os (Q_setxattr n name val flags) = map_prog R_unit (setxattr_prog n name val flags)"
| "callback os (Q_listxattr n out) = map_prog R_filled (listxattr_prog os n out)"
| "callback os (Q_removexattr n name) = map_prog R_unit (removexattr_prog n name)"

end
