(* ===== verification/Passthrough_Alone.thy ===== *)
theory Passthrough_Alone
  imports Passthrough_Threads
begin

text \<open>
  A callback of the passthrough daemon that runs without others in between does what its
  definition in \<open>Passthrough\<close> says: the same system calls in the same order, the same result
  and the same tables. So the atomic callbacks used up to the session are one of the
  behaviours of the threaded program.
\<close>

subsection \<open>Running a program to its end\<close>

fun result_of :: "'a prog \<Rightarrow> 'a option" where
  "result_of (Ret x) = Some x"
| "result_of _ = None"

text \<open>What may be left of a program after one action; every program is finite.\<close>

inductive sub_prog :: "'a prog \<Rightarrow> 'a prog \<Rightarrow> bool" where
  "sub_prog (k log r) (Sys c k)"
| "sub_prog p (Acquire m x p)"
| "sub_prog p (Unlock m x p)"
| "sub_prog (k y) (Find n k)"
| "sub_prog (k fd) (Deref r k)"
| "sub_prog p (Drop r p)"
| "sub_prog (k b) (Tab_insert fd ino k)"
| "sub_prog p (Tab_forget key n p)"
| "sub_prog (k z) (File_find h k)"
| "sub_prog (k h) (File_new fd k)"
| "sub_prog p (File_erase h p)"
| "sub_prog (k z) (Dir_find h k)"
| "sub_prog (k h) (Dir_new fd k)"
| "sub_prog p (Dir_erase h p)"

inductive_simps sub_prog_simps [simp]:
  "sub_prog q (Ret x)" "sub_prog q (Sys c k)" "sub_prog q (Acquire m x p)" "sub_prog q (Unlock m x p)"
  "sub_prog q (Find n f)" "sub_prog q (Deref r g)" "sub_prog q (Drop r p)" "sub_prog q (Tab_insert fd ino ki)"
  "sub_prog q (Tab_forget key n p)" "sub_prog q (File_find h kf)" "sub_prog q (File_new fd kn)"
  "sub_prog q (File_erase h p)" "sub_prog q (Dir_find h kf)" "sub_prog q (Dir_new fd kn)" "sub_prog q (Dir_erase h p)"

lemma accp_sub_prog: "Wellfounded.accp sub_prog p"
  by (induction p) (rule accp.accI, force)+

lemma wfp_sub_prog: "wfp sub_prog"
  by (rule accp_wfpI) (simp add: accp_sub_prog)

lemma exec_sub: "exec os p s = Stepped p' s' \<Longrightarrow> sub_prog p' p"
  by (cases p) (auto simp: Let_def exec_unref_def exec_forget_def exec_insert_def
      split: option.splits mutex_state.splits if_splits)

function run_prog :: "os \<Rightarrow> 'a prog \<Rightarrow> shared \<Rightarrow> ('a \<times> shared) option" where
  "run_prog os p s = (case result_of p of
     Some x \<Rightarrow> Some (x, s)
   | None \<Rightarrow> (case exec os p s of Stepped p' s' \<Rightarrow> run_prog os p' s' | _ \<Rightarrow> None))"
  by pat_completeness auto
termination
  by (relation "inv_image {(q, p). sub_prog q p} (\<lambda>(os, p, s). p)")
    (use wfp_sub_prog in \<open>auto simp: wfp_def intro: exec_sub\<close>)

declare run_prog.simps [simp del]

lemma run_Ret [simp]: "run_prog os (Ret x) s = Some (x, s)"
  by (simp add: run_prog.simps)

lemma run_step:
  assumes "exec os p s = Stepped p' s'"
  shows "run_prog os p s = run_prog os p' s'"
proof -
  have "result_of p = None" using assms by (cases p) simp_all
  with assms show ?thesis by (subst run_prog.simps) simp
qed

lemma exec_map:
  "exec os (map_prog f p) s = (case exec os p s of
     Stepped p s \<Rightarrow> Stepped (map_prog f p) s | Waits \<Rightarrow> Waits | Fault \<Rightarrow> Fault)"
  by (cases p) (auto simp: Let_def exec_unref_def exec_forget_def exec_insert_def comp_def
      split: option.split mutex_state.split)

lemma result_of_map [simp]: "result_of (map_prog f p) = map_option f (result_of p)"
  by (cases p) simp_all

lemma run_map: "run_prog os (map_prog f p) s = map_option (map_prod f id) (run_prog os p s)"
proof (induction os p s rule: run_prog.induct)
  case (1 os p s)
  then show ?case
    by (subst (1 2) run_prog.simps) (simp add: exec_map id_def split: option.split stepped.split)
qed

subsection \<open>Use counts\<close>

text \<open>
  The use counts are those of the table and of the \<open>shared_ptr\<close>s in \<open>refs\<close>; an inode is alive
  as long as its count is positive; new ones are new.
\<close>

definition counted :: "nat multiset \<Rightarrow> shared \<Rightarrow> bool" where
  "counted refs s \<longleftrightarrow>
     (\<forall>r. sh_use s r = (if r \<in> ran (sh_map s) then 1 else 0) + count refs r) \<and>
     (\<forall>r. sh_objs s r = None \<longleftrightarrow> r \<notin> ran (sh_map s) \<and> r \<notin># refs) \<and>
     (\<forall>r \<in> ran (sh_map s). r < sh_next s) \<and> (\<forall>r \<in># refs. r < sh_next s) \<and>
     (\<forall>n n' r. sh_map s n = Some r \<longrightarrow> sh_map s n' = Some r \<longrightarrow> n = n')"

lemma counted_frame [simp]:
  "counted refs (s\<lparr>sh_mutex := a\<rparr>) = counted refs s" "counted refs (s\<lparr>sh_files := b\<rparr>) = counted refs s"
  "counted refs (s\<lparr>sh_file_id := c\<rparr>) = counted refs s" "counted refs (s\<lparr>sh_dirs := d\<rparr>) = counted refs s"
  "counted refs (s\<lparr>sh_dir_id := e\<rparr>) = counted refs s" "counted refs (s\<lparr>sh_log := f\<rparr>) = counted refs s"
  by (simp_all add: counted_def)

lemma counted_close [simp]: "counted refs (sh_close os fd s) = counted refs s"
  by (simp add: sh_close_def)

lemma counted_use: "counted refs s \<Longrightarrow> sh_use s r = (if r \<in> ran (sh_map s) then 1 else 0) + count refs r"
  by (simp add: counted_def)

lemma counted_alive: "counted refs s \<Longrightarrow> sh_objs s r = None \<longleftrightarrow> r \<notin> ran (sh_map s) \<and> r \<notin># refs"
  by (simp add: counted_def)

lemma counted_inj: "counted refs s \<Longrightarrow> sh_map s n = Some r \<Longrightarrow> sh_map s n' = Some r \<Longrightarrow> n = n'"
  unfolding counted_def by blast

lemma counted_fresh:
  assumes "counted refs s"
  shows "sh_next s \<notin> ran (sh_map s)" "sh_next s \<notin># refs" "sh_objs s (sh_next s) = None"
    "sh_use s (sh_next s) = 0"
proof -
  show new: "sh_next s \<notin> ran (sh_map s)" "sh_next s \<notin># refs"
    using assms unfolding counted_def by blast+
  then show "sh_objs s (sh_next s) = None" "sh_use s (sh_next s) = 0"
    using counted_alive [OF assms] counted_use [OF assms] by (simp_all add: not_in_iff)
qed

lemma counted_pin:
  assumes "counted refs s" "sh_map s n = Some r"
  shows "counted (add_mset r refs) (s\<lparr>sh_use := (sh_use s)(r := sh_use s r + 1)\<rparr>)"
proof -
  have "r \<in> ran (sh_map s)" using assms(2) by (auto simp: ran_def)
  then show ?thesis using assms(1) unfolding counted_def by (simp, blast)
qed

lemma counted_new:
  assumes "counted refs s" "sh_map s ino = None"
  shows "counted refs (s\<lparr>sh_next := Suc (sh_next s), sh_objs := (sh_objs s)(sh_next s \<mapsto> i),
    sh_use := (sh_use s)(sh_next s := 1), sh_map := (sh_map s)(ino \<mapsto> sh_next s)\<rparr>)"
proof -
  note new = counted_fresh [OF assms(1)]
  have ran: "ran ((sh_map s)(ino \<mapsto> sh_next s)) = insert (sh_next s) (ran (sh_map s))"
    using assms(2) by simp
  have nomap: "sh_map s n \<noteq> Some (sh_next s)" for n using new(1) by (auto simp: ran_def)
  have lt: "r < Suc (sh_next s)" if "r \<in> ran (sh_map s) \<or> r \<in># refs" for r
    using assms(1) that by (auto simp: counted_def intro: less_SucI)
  show ?thesis
    unfolding counted_def
  proof (intro conjI)
    show "\<forall>n n' r. sh_map (s\<lparr>sh_next := Suc (sh_next s), sh_objs := (sh_objs s)(sh_next s \<mapsto> i),
        sh_use := (sh_use s)(sh_next s := 1), sh_map := (sh_map s)(ino \<mapsto> sh_next s)\<rparr>) n = Some r \<longrightarrow>
      sh_map (s\<lparr>sh_next := Suc (sh_next s), sh_objs := (sh_objs s)(sh_next s \<mapsto> i),
        sh_use := (sh_use s)(sh_next s := 1), sh_map := (sh_map s)(ino \<mapsto> sh_next s)\<rparr>) n' = Some r \<longrightarrow> n = n'"
      using nomap counted_inj [OF assms(1)] by auto
  qed (use lt new counted_use [OF assms(1)] counted_alive [OF assms(1)] in \<open>simp_all add: ran not_in_iff\<close>)
qed

lemma counted_update:
  assumes "counted refs s" "sh_objs s r = Some i"
  shows "counted refs (s\<lparr>sh_objs := (sh_objs s)(r \<mapsto> i')\<rparr>)"
proof -
  have "r \<in> ran (sh_map s) \<or> r \<in># refs" using counted_alive [OF assms(1), of r] assms(2) by simp
  then show ?thesis using assms(1) unfolding counted_def by simp
qed

lemma counted_unmap:
  assumes "counted refs s" "sh_map s key = Some r"
  shows "counted (add_mset r refs) (s\<lparr>sh_map := (sh_map s)(key := None)\<rparr>)"
proof -
  have "x \<in> ran ((sh_map s)(key := None)) \<longleftrightarrow> x \<in> ran (sh_map s) \<and> x \<noteq> r" for x
    using assms(2) counted_inj [OF assms(1) _ assms(2)] unfolding ran_def mem_Collect_eq fun_upd_apply
    by (metis option.distinct(1) option.inject)
  then have "ran ((sh_map s)(key := None)) = ran (sh_map s) - {r}" by auto
  moreover have "r \<in> ran (sh_map s)" using assms(2) by (auto simp: ran_def)
  ultimately show ?thesis using assms(1) unfolding counted_def by auto
qed

lemma counted_unref:
  assumes "counted (add_mset r refs) s"
  shows "\<exists>s'. unref os r s = Some s' \<and> counted refs s'"
proof -
  obtain i where i: "sh_objs s r = Some i" using counted_alive [OF assms, of r] by auto
  have use: "sh_use s r = (if r \<in> ran (sh_map s) then 1 else 0) + Suc (count refs r)"
    using counted_use [OF assms, of r] by simp
  show ?thesis
  proof (cases "sh_use s r = 1")
    case True
    let ?s = "s\<lparr>sh_use := (sh_use s)(r := 0), sh_objs := (sh_objs s)(r := None)\<rparr>"
    from True use have r: "r \<notin> ran (sh_map s)" "count refs r = 0" by (auto split: if_splits)
    have "counted refs ?s"
      using assms r unfolding counted_def by (auto simp: not_in_iff)
    then show ?thesis using i True by (simp add: unref_def)
  next
    case False
    let ?s = "s\<lparr>sh_use := (sh_use s)(r := sh_use s r - 1)\<rparr>"
    from False use have r: "r \<in> ran (sh_map s) \<or> r \<in># refs" by (auto simp: not_in_iff split: if_splits)
    have "counted refs ?s"
      using assms r use unfolding counted_def by auto
    then show ?thesis using i False by (simp add: unref_def)
  qed
qed

subsection \<open>Simulation\<close>

text \<open>The daemon's state as \<open>Passthrough\<close> has it.\<close>

definition flat :: "shared \<Rightarrow> PassthroughFs" where
  "flat s = \<lparr>pt_map = (\<lambda>n. Option.bind (sh_map s n) (sh_objs s)), pt_files = sh_files s,
     pt_file_id = sh_file_id s, pt_dirs = sh_dirs s, pt_dir_id = sh_dir_id s, pt_log = sh_log s\<rparr>"

text \<open>No other thread holds anything, and the callback holds \<open>pins\<close> with their descriptors.\<close>

definition alone :: "(nat \<times> int) list \<Rightarrow> shared \<Rightarrow> PassthroughFs \<Rightarrow> bool" where
  "alone pins s t \<longleftrightarrow> flat s = t \<and> (\<forall>m. sh_mutex s m = Readers 0) \<and> counted (mset (map fst pins)) s \<and>
     (\<forall>r fd. (r, fd) \<in> set pins \<longrightarrow> r \<in> ran (sh_map s) \<and> map_option in_path_fd (sh_objs s r) = Some fd)"

definition sim :: "os \<Rightarrow> 'a prog \<Rightarrow> (nat \<times> int) list \<Rightarrow> PassthroughFs \<Rightarrow> 'a \<times> PassthroughFs \<Rightarrow> bool" where
  "sim os p pins t y \<longleftrightarrow> (\<forall>s. alone pins s t \<longrightarrow> (\<exists>s'. run_prog os p s = Some (fst y, s') \<and> alone [] s' (snd y)))"

named_theorems sim_intros "simulation, one rule per piece of a callback"

lemma sim_Ret [sim_intros]: "sim os (Ret x) [] t (x, t)"
  by (simp add: sim_def)

lemma sim_step:
  assumes "\<And>s. alone pins s t \<Longrightarrow> \<exists>s'. run_prog os p s = run_prog os p' s' \<and> alone pins' s' t'"
    and "sim os p' pins' t' y"
  shows "sim os p pins t y"
  using assms unfolding sim_def by metis

lemma sim_Sys [sim_intros]:
  assumes "\<And>r t'. sys os c t = (r, t') \<Longrightarrow> sim os (k (pt_log t) r) pins t' y"
  shows "sim os (Sys c k) pins t y"
proof (rule sim_step)
  let ?r = "os_call os (pt_log t) c"
  show "sim os (k (pt_log t) ?r) pins (t\<lparr>pt_log := pt_log t @ [(c, ?r)]\<rparr>) y"
    by (rule assms) (simp add: sys_def Let_def)
  show "\<exists>s'. run_prog os (Sys c k) s = run_prog os (k (pt_log t) ?r) s' \<and> alone pins s' (t\<lparr>pt_log := pt_log t @ [(c, ?r)]\<rparr>)"
    if "alone pins s t" for s
    using that by (intro exI conjI run_step) (auto simp: alone_def flat_def Let_def)
qed

lemma alone_mutex: "alone pins s t \<Longrightarrow> sh_mutex s m = Readers 0"
  by (simp add: alone_def)

lemma alone_pin:
  assumes "alone pins s t" "(r, fd) \<in> set pins"
  shows "r \<in> ran (sh_map s)" "\<exists>i. sh_objs s r = Some i \<and> in_path_fd i = fd"
proof -
  have "r \<in> ran (sh_map s) \<and> map_option in_path_fd (sh_objs s r) = Some fd"
    using assms unfolding alone_def by blast
  then show "r \<in> ran (sh_map s)" "\<exists>i. sh_objs s r = Some i \<and> in_path_fd i = fd" by auto
qed

lemma sim_get [sim_intros]:
  assumes "table_get t n = None \<Longrightarrow> sim os (k None) pins t y"
    and "\<And>i r. table_get t n = Some i \<Longrightarrow> sim os (k (Some r)) ((r, in_path_fd i) # pins) t y"
  shows "sim os (get_then n k) pins t y"
  unfolding sim_def
proof (intro allI impI)
  fix s
  assume a: "alone pins s t"
  let ?s1 = "s\<lparr>sh_mutex := (sh_mutex s)(Mu := Readers 1)\<rparr>"
  have r1: "run_prog os (get_then n k) s = run_prog os (Find n (\<lambda>p. Unlock Mu False (k p))) ?s1"
    unfolding get_then_def by (rule run_step) (simp add: alone_mutex [OF a])
  have free: "(sh_mutex s)(Mu := Readers 0) = sh_mutex s" using alone_mutex [OF a] by auto
  have c: "counted (mset (map fst pins)) s" and f: "flat s = t" using a by (simp_all add: alone_def)
  show "\<exists>s'. run_prog os (get_then n k) s = Some (fst y, s') \<and> alone [] s' (snd y)"
  proof (cases "sh_map s n")
    case None
    have "run_prog os (get_then n k) s = run_prog os (Unlock Mu False (k None)) ?s1"
      unfolding r1 by (rule run_step) (simp add: None)
    also have "\<dots> = run_prog os (k None) s"
      by (rule run_step) (simp add: free)
    finally show ?thesis
      using assms(1) a f None by (auto simp: sim_def flat_def table_get_def)
  next
    case (Some r)
    let ?s2 = "s\<lparr>sh_use := (sh_use s)(r := sh_use s r + 1)\<rparr>"
    have "run_prog os (get_then n k) s = run_prog os (Unlock Mu False (k (Some r))) (?s1\<lparr>sh_use := (sh_use s)(r := sh_use s r + 1)\<rparr>)"
      unfolding r1 by (rule run_step) (simp add: Some)
    also have "\<dots> = run_prog os (k (Some r)) ?s2"
      by (rule run_step) (simp add: free)
    finally have r2: "run_prog os (get_then n k) s = run_prog os (k (Some r)) ?s2" .
    have r: "r \<in> ran (sh_map s)" using Some by (auto simp: ran_def)
    then obtain i where i: "sh_objs s r = Some i" using counted_alive [OF c, of r] by auto
    have "alone ((r, in_path_fd i) # pins) ?s2 t"
      using a r i counted_pin [OF c Some] by (auto simp: alone_def flat_def)
    moreover have "table_get t n = Some i" using f Some i by (auto simp: flat_def table_get_def)
    ultimately show ?thesis using assms(2) r2 by (simp add: sim_def)
  qed
qed

lemma sim_Deref:
  assumes "(r, fd) \<in> set pins" "sim os (k fd) pins t y"
  shows "sim os (Deref r k) pins t y"
proof (rule sim_step [OF _ assms(2)])
  fix s
  assume a: "alone pins s t"
  obtain i where "sh_objs s r = Some i" "in_path_fd i = fd" using alone_pin(2) [OF a assms(1)] by blast
  then have "run_prog os (Deref r k) s = run_prog os (k fd) s" by (intro run_step) simp
  with a show "\<exists>s'. run_prog os (Deref r k) s = run_prog os (k fd) s' \<and> alone pins s' t" by blast
qed

lemma sim_Drop:
  assumes "(r, fd) \<in> set pins" "sim os p (remove1 (r, fd) pins) t y"
  shows "sim os (Drop r p) pins t y"
proof (rule sim_step [OF _ assms(2)])
  fix s
  assume a: "alone pins s t"
  note r = alone_pin(1) [OF a assms(1)]
  have m: "mset (map fst pins) = add_mset r (mset (map fst (remove1 (r, fd) pins)))"
    using assms(1) by (induction pins) auto
  with a have c: "counted (add_mset r (mset (map fst (remove1 (r, fd) pins)))) s" by (simp add: alone_def)
  then have "sh_use s r \<noteq> 1" using counted_use [OF c, of r] r by simp
  moreover obtain i where "sh_objs s r = Some i" using counted_alive [OF c, of r] by auto
  moreover obtain s' where s': "unref os r s = Some s'" "counted (mset (map fst (remove1 (r, fd) pins))) s'"
    using counted_unref [OF c] by blast
  ultimately have "s' = s\<lparr>sh_use := (sh_use s)(r := sh_use s r - 1)\<rparr>" by (simp add: unref_def)
  with a s'(2) have "alone (remove1 (r, fd) pins) s' t"
    using set_remove1_subset [of "(r, fd)" pins] by (auto simp: alone_def flat_def)
  moreover have "run_prog os (Drop r p) s = run_prog os p s'"
    by (rule run_step) (simp add: exec_unref_def s'(1))
  ultimately show "\<exists>s'. run_prog os (Drop r p) s = run_prog os p s' \<and> alone (remove1 (r, fd) pins) s' t" by blast
qed

lemma run_Acquire: "sh_mutex s m = Readers 0 \<Longrightarrow>
    run_prog os (Acquire m True p) s = run_prog os p (s\<lparr>sh_mutex := (sh_mutex s)(m := Writer)\<rparr>)"
  by (rule run_step) simp

lemma run_Unlock: "sh_mutex s m = Writer \<Longrightarrow>
    run_prog os (Unlock m True p) s = run_prog os p (s\<lparr>sh_mutex := (sh_mutex s)(m := Readers 0)\<rparr>)"
  by (rule run_step) simp

lemma free_again: "sh_mutex s m = Readers 0 \<Longrightarrow> (sh_mutex s)(m := Readers 0) = sh_mutex s"
  by auto

lemma sim_close [sim_intros]:
  assumes "sim os p pins (close_fd os fd t) y"
  shows "sim os (close_then fd p) pins t y"
  using assms by (auto simp: close_then_def close_fd_def intro!: sim_intros)

lemma sim_close_errno [sim_intros]:
  assumes "\<And>e' t'. close_errno os fd e t = (Inl e' :: i32 + 'b, t') \<Longrightarrow> sim os (k e') pins t' y"
  shows "sim os (close_errno_then fd e k) pins t y"
  unfolding close_errno_then_def
proof (rule sim_Sys)
  fix r t'
  assume r: "sys os (Close fd) t = (r, t')"
  show "sim os (k (case r of Inl e' \<Rightarrow> e' | Inr v \<Rightarrow> e)) pins t' y"
    by (rule assms) (use r in \<open>simp add: close_errno_def split: sum.split\<close>)
qed

lemma flat_map:
  "flat (s\<lparr>sh_next := a, sh_objs := b, sh_use := c, sh_map := d\<rparr>) = (flat s)\<lparr>pt_map := \<lambda>n. Option.bind (d n) b\<rparr>"
  "flat (s\<lparr>sh_objs := b\<rparr>) = (flat s)\<lparr>pt_map := \<lambda>n. Option.bind (sh_map s n) b\<rparr>"
  by (simp_all add: flat_def)

lemma alone_new:
  assumes "alone pins s t" "sh_map s ino = None"
  shows "alone pins (s\<lparr>sh_next := Suc (sh_next s), sh_objs := (sh_objs s)(sh_next s \<mapsto> i),
      sh_use := (sh_use s)(sh_next s := 1), sh_map := (sh_map s)(ino \<mapsto> sh_next s)\<rparr>)
    (t\<lparr>pt_map := (pt_map t)(ino \<mapsto> i)\<rparr>)" (is "alone pins ?s ?t")
proof -
  have c: "counted (mset (map fst pins)) s" and f: "t = flat s" using assms(1) by (simp_all add: alone_def)
  note new = counted_fresh [OF c]
  have nomap: "sh_map s n \<noteq> Some (sh_next s)" for n using new(1) by (auto simp: ran_def)
  have "(\<lambda>n. Option.bind (((sh_map s)(ino \<mapsto> sh_next s)) n) ((sh_objs s)(sh_next s \<mapsto> i))) =
      (\<lambda>n. Option.bind (sh_map s n) (sh_objs s))(ino \<mapsto> i)"
  proof
    fix n
    show "Option.bind (((sh_map s)(ino \<mapsto> sh_next s)) n) ((sh_objs s)(sh_next s \<mapsto> i)) =
      ((\<lambda>n. Option.bind (sh_map s n) (sh_objs s))(ino \<mapsto> i)) n"
      using nomap [of n] by (cases "sh_map s n") auto
  qed
  then have "flat ?s = ?t"
    unfolding f flat_map by (simp add: flat_def)
  moreover have "r \<noteq> sh_next s" if "(r, fd) \<in> set pins" for r fd
    using new(2) that by force
  then have "map_option in_path_fd (((sh_objs s)(sh_next s \<mapsto> i)) r) = map_option in_path_fd (sh_objs s r)"
    if "(r, fd) \<in> set pins" for r fd
    using that by simp
  ultimately show ?thesis
    using counted_new [OF c assms(2), of i] assms by (simp add: alone_def)
qed

lemma alone_update:
  assumes "alone pins s t" "sh_map s ino = Some r" "sh_objs s r = Some i" "in_path_fd i' = in_path_fd i"
  shows "alone pins (s\<lparr>sh_objs := (sh_objs s)(r \<mapsto> i')\<rparr>) (t\<lparr>pt_map := (pt_map t)(ino \<mapsto> i')\<rparr>)"
    (is "alone pins ?s ?t")
proof -
  have c: "counted (mset (map fst pins)) s" and f: "t = flat s" using assms(1) by (simp_all add: alone_def)
  have "(\<lambda>n. Option.bind (sh_map s n) ((sh_objs s)(r \<mapsto> i'))) =
      (\<lambda>n. Option.bind (sh_map s n) (sh_objs s))(ino \<mapsto> i')"
  proof
    fix n
    show "Option.bind (sh_map s n) ((sh_objs s)(r \<mapsto> i')) = ((\<lambda>n. Option.bind (sh_map s n) (sh_objs s))(ino \<mapsto> i')) n"
      using assms(2) counted_inj [OF c _ assms(2), of n] by (cases "sh_map s n") auto
  qed
  then have "flat ?s = ?t"
    unfolding f flat_map by (simp add: flat_def)
  moreover have "map_option in_path_fd (((sh_objs s)(r \<mapsto> i')) q) = map_option in_path_fd (sh_objs s q)" for q
    using assms(3,4) by simp
  ultimately show ?thesis
    using counted_update [OF c assms(3), of i'] assms(1) by (simp add: alone_def)
qed

text \<open>A critical section: one action under an exclusive lock.\<close>

lemma sim_section:
  assumes "\<And>s. alone pins s t \<Longrightarrow> \<exists>p' s' t'.
      run_prog os p (s\<lparr>sh_mutex := (sh_mutex s)(m := Writer)\<rparr>) =
        run_prog os (Unlock m True p') (s'\<lparr>sh_mutex := (sh_mutex s)(m := Writer)\<rparr>) \<and>
      sh_mutex s' = sh_mutex s \<and> alone pins s' t' \<and> sim os p' pins t' y"
  shows "sim os (Acquire m True p) pins t y"
  unfolding sim_def
proof (intro allI impI)
  fix s
  assume a: "alone pins s t"
  obtain p' s' t' where
    e: "run_prog os p (s\<lparr>sh_mutex := (sh_mutex s)(m := Writer)\<rparr>) =
        run_prog os (Unlock m True p') (s'\<lparr>sh_mutex := (sh_mutex s)(m := Writer)\<rparr>)"
    and mx: "sh_mutex s' = sh_mutex s" and a': "alone pins s' t'" "sim os p' pins t' y"
    using assms [OF a] by blast
  note free = alone_mutex [OF a, of m]
  have "run_prog os (Acquire m True p) s = run_prog os (Unlock m True p') (s'\<lparr>sh_mutex := (sh_mutex s)(m := Writer)\<rparr>)"
    unfolding run_Acquire [OF free] by (rule e)
  also have "\<dots> = run_prog os p' (s'\<lparr>sh_mutex := sh_mutex s'\<rparr>)"
    by (subst run_Unlock) (simp_all add: free_again [OF free] mx)
  also have "s'\<lparr>sh_mutex := sh_mutex s'\<rparr> = s'" by simp
  finally have r: "run_prog os (Acquire m True p) s = run_prog os p' s'" .
  from a' obtain s'' where "run_prog os p' s' = Some (fst y, s'')" "alone [] s'' (snd y)"
    unfolding sim_def by blast
  with r show "\<exists>s'. run_prog os (Acquire m True p) s = Some (fst y, s') \<and> alone [] s' (snd y)" by simp
qed

lemma alone_table:
  assumes "alone pins s t"
  shows "sh_map s n = None \<Longrightarrow> pt_map t n = None"
    "sh_map s n = Some r \<Longrightarrow> \<exists>i. sh_objs s r = Some i \<and> pt_map t n = Some i"
proof -
  have c: "counted (mset (map fst pins)) s" and f: "t = flat s" using assms by (simp_all add: alone_def)
  show "sh_map s n = None \<Longrightarrow> pt_map t n = None" by (simp add: f flat_def)
  assume m: "sh_map s n = Some r"
  then have "r \<in> ran (sh_map s)" by (auto simp: ran_def)
  with counted_alive [OF c, of r] obtain i where "sh_objs s r = Some i" by auto
  with m show "\<exists>i. sh_objs s r = Some i \<and> pt_map t n = Some i" by (simp add: f flat_def)
qed

lemma sim_insert [sim_intros]:
  assumes "\<And>nid t'. table_insert os fd ino t = (nid, t') \<Longrightarrow> sim os (k nid) pins t' y"
  shows "sim os (insert_then fd ino k) pins t y"
  unfolding insert_then_def
proof (rule sim_section)
  fix s
  assume a: "alone pins s t"
  let ?w = "s\<lparr>sh_mutex := (sh_mutex s)(Mu := Writer)\<rparr>"
  let ?k = "\<lambda>ins. Unlock Mu True (close_then (if ins then -1 else fd) (k ino))"
  show "\<exists>p' s' t'. run_prog os (Tab_insert fd ino ?k) ?w =
      run_prog os (Unlock Mu True p') (s'\<lparr>sh_mutex := (sh_mutex s)(Mu := Writer)\<rparr>) \<and>
      sh_mutex s' = sh_mutex s \<and> alone pins s' t' \<and> sim os p' pins t' y"
  proof (cases "sh_map s ino")
    case None
    let ?i = "\<lparr>in_path_fd = fd, in_nlookup = 1\<rparr>"
    let ?s' = "s\<lparr>sh_next := Suc (sh_next s), sh_objs := (sh_objs s)(sh_next s \<mapsto> ?i),
      sh_use := (sh_use s)(sh_next s := 1), sh_map := (sh_map s)(ino \<mapsto> sh_next s)\<rparr>"
    have "sim os (close_then (-1) (k ino)) pins (t\<lparr>pt_map := (pt_map t)(ino \<mapsto> ?i)\<rparr>) y"
      by (rule sim_close, rule assms) (simp add: table_insert_def alone_table(1) [OF a None] close_fd_def)
    moreover have "run_prog os (Tab_insert fd ino ?k) ?w =
        run_prog os (Unlock Mu True (close_then (-1) (k ino))) (?s'\<lparr>sh_mutex := (sh_mutex s)(Mu := Writer)\<rparr>)"
      by (rule run_step) (use None in \<open>simp add: exec_insert_def Let_def\<close>)
    moreover have "sh_mutex ?s' = sh_mutex s" by simp
    ultimately show ?thesis using alone_new [OF a None, of ?i] by blast
  next
    case (Some r)
    then obtain i where i: "sh_objs s r = Some i" "pt_map t ino = Some i" using alone_table(2) [OF a] by blast
    let ?i = "i\<lparr>in_nlookup := in_nlookup i + 1\<rparr>"
    let ?s' = "s\<lparr>sh_objs := (sh_objs s)(r \<mapsto> ?i)\<rparr>"
    have "sim os (close_then fd (k ino)) pins (t\<lparr>pt_map := (pt_map t)(ino \<mapsto> ?i)\<rparr>) y"
      by (rule sim_close, rule assms) (simp add: table_insert_def i)
    moreover have "run_prog os (Tab_insert fd ino ?k) ?w =
        run_prog os (Unlock Mu True (close_then fd (k ino))) (?s'\<lparr>sh_mutex := (sh_mutex s)(Mu := Writer)\<rparr>)"
      by (rule run_step) (use Some i in \<open>simp add: exec_insert_def\<close>)
    moreover have "sh_mutex ?s' = sh_mutex s" "in_path_fd ?i = in_path_fd i" by simp_all
    ultimately show ?thesis using alone_update [OF a Some i(1), of ?i] by blast
  qed
qed

lemma alone_close: "alone pins s t \<Longrightarrow> alone pins (sh_close os fd s) (close_fd os fd t)"
  by (auto simp: alone_def flat_def sh_close_def close_fd_def sys_def Let_def)

lemma sh_close_mutex [simp]: "sh_mutex (sh_close os fd s) = sh_mutex s"
  "sh_close os fd (s\<lparr>sh_mutex := mx\<rparr>) = (sh_close os fd s)\<lparr>sh_mutex := mx\<rparr>"
  by (simp_all add: sh_close_def)

lemma alone_forget:
  assumes "alone [] s t"
  shows "\<exists>s'. exec os (Tab_forget key n p) (s\<lparr>sh_mutex := mx\<rparr>) = Stepped p (s'\<lparr>sh_mutex := mx\<rparr>) \<and>
    sh_mutex s' = sh_mutex s \<and> alone [] s' (forget_locked os key n t)"
proof (cases "sh_map s key")
  case None
  with assms alone_table(1) [OF assms None] show ?thesis
    by (intro exI [of _ s]) (simp add: exec_forget_def forget_locked_def)
next
  case (Some r)
  then obtain i where i: "sh_objs s r = Some i" "pt_map t key = Some i" using alone_table(2) [OF assms] by blast
  let ?nl = "if n \<ge> in_nlookup i then 0 else in_nlookup i - n"
  let ?s1 = "s\<lparr>sh_objs := (sh_objs s)(r \<mapsto> i\<lparr>in_nlookup := ?nl\<rparr>)\<rparr>"
  have a1: "alone [] ?s1 (t\<lparr>pt_map := (pt_map t)(key \<mapsto> i\<lparr>in_nlookup := ?nl\<rparr>)\<rparr>)"
    by (rule alone_update [OF assms Some i(1)]) simp
  show ?thesis
  proof (cases "?nl = 0")
    case False
    with Some i a1 show ?thesis
      by (intro exI [of _ ?s1]) (simp add: exec_forget_def forget_locked_def Let_def)
  next
    case True
    let ?s2 = "s\<lparr>sh_map := (sh_map s)(key := None), sh_use := (sh_use s)(r := 0), sh_objs := (sh_objs s)(r := None)\<rparr>"
    have c: "counted {#r#} (s\<lparr>sh_map := (sh_map s)(key := None)\<rparr>)"
      using counted_unmap [of "{#}" s key r] assms Some by (simp add: alone_def)
    have use: "sh_use s r = 1"
      using assms Some counted_use [of "{#}" s r] by (auto simp: alone_def ran_def)
    have "exec os (Tab_forget key n p) (s\<lparr>sh_mutex := mx\<rparr>) =
        Stepped p ((sh_close os (in_path_fd i) ?s2)\<lparr>sh_mutex := mx\<rparr>)"
      using Some i True use by (simp add: exec_forget_def exec_unref_def unref_def sh_close_def Let_def)
    moreover have "alone [] ?s2 (t\<lparr>pt_map := (pt_map t)(key := None)\<rparr>)"
    proof -
      have c0: "counted {#} s" and f: "t = flat s" using assms by (simp_all add: alone_def)
      have "counted {#} ?s2"
        using counted_unref [OF c, of os] use i by (auto simp: unref_def)
      moreover have "Option.bind (((sh_map s)(key := None)) q) ((sh_objs s)(r := None)) =
          ((\<lambda>n. Option.bind (sh_map s n) (sh_objs s))(key := None)) q" for q
        using counted_inj [OF c0 _ Some, of q] by (cases "sh_map s q") auto
      ultimately show ?thesis
        using assms by (simp add: alone_def f flat_def fun_eq_iff)
    qed
    then have "alone [] (sh_close os (in_path_fd i) ?s2) (forget_locked os key n t)"
      using alone_close Some i True by (simp add: forget_locked_def Let_def)
    moreover have "sh_mutex (sh_close os (in_path_fd i) ?s2) = sh_mutex s" by simp
    ultimately show ?thesis by blast
  qed
qed

lemma run_forget_items:
  assumes "alone [] s t"
  shows "\<exists>s'. run_prog os (forget_items items p) (s\<lparr>sh_mutex := mx\<rparr>) = run_prog os p (s'\<lparr>sh_mutex := mx\<rparr>) \<and>
    sh_mutex s' = sh_mutex s \<and> alone [] s' (forget_many os t items)"
  using assms
proof (induction items p arbitrary: s t rule: forget_items.induct)
  case (1 p)
  then show ?case by auto
next
  case (2 nid n items p)
  show ?case
  proof (cases "nid = NodeId_root")
    case True
    with 2 show ?thesis by simp
  next
    case False
    obtain s' where s': "exec os (Tab_forget nid n (forget_items items p)) (s\<lparr>sh_mutex := mx\<rparr>) =
        Stepped (forget_items items p) (s'\<lparr>sh_mutex := mx\<rparr>)" "sh_mutex s' = sh_mutex s"
        "alone [] s' (forget_locked os nid n t)"
      using alone_forget [OF "2.prems"] by blast
    from "2.IH"(2) [OF False s'(3)] run_step [OF s'(1)] s'(2) False show ?thesis by simp
  qed
qed


lemma sim_forget_items:
  assumes "sim os p [] (forget_many os t items) y"
  shows "sim os (Acquire Mu True (forget_items items (Unlock Mu True p))) [] t y"
proof (rule sim_section)
  fix s
  assume a: "alone [] s t"
  obtain s' where "run_prog os (forget_items items (Unlock Mu True p)) (s\<lparr>sh_mutex := (sh_mutex s)(Mu := Writer)\<rparr>) =
      run_prog os (Unlock Mu True p) (s'\<lparr>sh_mutex := (sh_mutex s)(Mu := Writer)\<rparr>)"
      "sh_mutex s' = sh_mutex s" "alone [] s' (forget_many os t items)"
    using run_forget_items [OF a] by blast
  with assms show "\<exists>p' s' t'. run_prog os (forget_items items (Unlock Mu True p)) (s\<lparr>sh_mutex := (sh_mutex s)(Mu := Writer)\<rparr>) =
      run_prog os (Unlock Mu True p') (s'\<lparr>sh_mutex := (sh_mutex s)(Mu := Writer)\<rparr>) \<and>
      sh_mutex s' = sh_mutex s \<and> alone [] s' t' \<and> sim os p' [] t' y" by blast
qed

text \<open>The handle tables.\<close>

lemma sim_file_fd [sim_intros]:
  assumes "sim os (k (file_fd t fh)) pins t y"
  shows "sim os (file_fd_then fh k) pins t y"
proof (cases "fh = 0")
  case True
  with assms show ?thesis by (simp add: file_fd_then_def file_fd_def)
next
  case False
  show ?thesis
  proof (rule sim_step [OF _ assms])
    fix s
    assume a: "alone pins s t"
    have fd: "file_fd t fh = (case sh_files s fh of None \<Rightarrow> -1 | Some fd \<Rightarrow> fd)"
      using a False by (auto simp: alone_def flat_def file_fd_def)
    let ?s1 = "s\<lparr>sh_mutex := (sh_mutex s)(Files_mu := Readers 1)\<rparr>"
    let ?k = "\<lambda>x. Unlock Files_mu False (k (case x of None \<Rightarrow> -1 | Some fd \<Rightarrow> fd))"
    have "run_prog os (file_fd_then fh k) s = run_prog os (File_find fh ?k) ?s1"
      unfolding file_fd_then_def using False by (simp, intro run_step) (simp add: alone_mutex [OF a])
    also have "\<dots> = run_prog os (?k (sh_files s fh)) ?s1" by (rule run_step) simp
    also have "\<dots> = run_prog os (k (file_fd t fh)) (s\<lparr>sh_mutex := (sh_mutex s)(Files_mu := Readers 0)\<rparr>)"
      unfolding fd by (rule run_step) simp
    also have "s\<lparr>sh_mutex := (sh_mutex s)(Files_mu := Readers 0)\<rparr> = s"
      by (simp add: free_again [OF alone_mutex [OF a]])
    finally show "\<exists>s'. run_prog os (file_fd_then fh k) s = run_prog os (k (file_fd t fh)) s' \<and> alone pins s' t"
      using a by blast
  qed
qed

text \<open>Actions on the handle tables do not touch the inodes.\<close>

lemma alone_frame:
  assumes "alone pins s t" "flat s' = t'" "sh_mutex s' = sh_mutex s" "sh_objs s' = sh_objs s" "sh_use s' = sh_use s"
    "sh_next s' = sh_next s" "sh_map s' = sh_map s"
  shows "alone pins s' t'"
  using assms by (simp add: alone_def counted_def)

lemma sim_handle_section:
  assumes "\<And>s. flat s = t \<Longrightarrow> exec os p (s\<lparr>sh_mutex := mx s\<rparr>) = Stepped (Unlock m True (q s)) ((f s)\<lparr>sh_mutex := mx s\<rparr>)"
    and "\<And>s. sh_mutex (f s) = sh_mutex s \<and> sh_objs (f s) = sh_objs s \<and> sh_use (f s) = sh_use s \<and>
      sh_next (f s) = sh_next s \<and> sh_map (f s) = sh_map s"
    and "\<And>s. flat s = t \<Longrightarrow> sim os (q s) pins (flat (f s)) y"
    and "\<And>s. mx s = (sh_mutex s)(m := Writer)"
  shows "sim os (Acquire m True p) pins t y"
proof (rule sim_section)
  fix s
  assume a: "alone pins s t"
  then have f: "flat s = t" by (simp add: alone_def)
  have "run_prog os p (s\<lparr>sh_mutex := (sh_mutex s)(m := Writer)\<rparr>) =
      run_prog os (Unlock m True (q s)) ((f s)\<lparr>sh_mutex := (sh_mutex s)(m := Writer)\<rparr>)"
    by (rule run_step) (use assms(1) [OF f] assms(4) [of s] in simp)
  moreover have "alone pins (f s) (flat (f s))" by (rule alone_frame [OF a refl]) (use assms(2) in simp_all)
  ultimately show "\<exists>p' s' t'. run_prog os p (s\<lparr>sh_mutex := (sh_mutex s)(m := Writer)\<rparr>) =
      run_prog os (Unlock m True p') (s'\<lparr>sh_mutex := (sh_mutex s)(m := Writer)\<rparr>) \<and>
      sh_mutex s' = sh_mutex s \<and> alone pins s' t' \<and> sim os p' pins t' y"
    using assms(2) [of s] assms(3) [OF f] by blast
qed

subsection \<open>The callbacks\<close>

lemma sim_Deref_pin [sim_intros]:
  "sim os (k fd) ((r, fd) # pins) t y \<Longrightarrow> sim os (Deref r k) ((r, fd) # pins) t y"
  "sim os (k fd) (x # (r, fd) # pins) t y \<Longrightarrow> sim os (Deref r k) (x # (r, fd) # pins) t y"
  by (rule sim_Deref; simp)+

lemma sim_Drop_pin [sim_intros]: "sim os p pins t y \<Longrightarrow> sim os (Drop r p) ((r, fd) # pins) t y"
  by (rule sim_Drop [of r fd]) simp_all

lemma sim_on_node [sim_intros]:
  assumes "table_get t n = None \<Longrightarrow> pins = [] \<and> y = (Inl ESTALE, t)"
    and "\<And>i r. table_get t n = Some i \<Longrightarrow> sim os (body r (in_path_fd i)) ((r, in_path_fd i) # pins) t y"
  shows "sim os (on_node n body) pins t y"
  unfolding on_node_def
proof (rule sim_get)
  assume "table_get t n = None"
  with assms(1) show "sim os (case None of None \<Rightarrow> Ret (Inl ESTALE) | Some r \<Rightarrow> Deref r (body r)) pins t y"
    by (simp add: sim_Ret)
next
  fix i r
  assume "table_get t n = Some i"
  with assms(2) show "sim os (case Some r of None \<Rightarrow> Ret (Inl ESTALE) | Some r \<Rightarrow> Deref r (body r))
      ((r, in_path_fd i) # pins) t y"
    by (auto intro: sim_Deref)
qed

lemma sim_end [sim_intros]: "y = (x, t) \<Longrightarrow> sim os (Ret x) [] t y"
  by (simp add: sim_Ret)

lemma sim_unit_call [sim_intros]:
  assumes "\<And>r t'. sys_unit os c t = (r, t') \<Longrightarrow> sim os (k r) pins t' y"
  shows "sim os (unit_call c k) pins t y"
  unfolding unit_call_def
  by (rule sim_Sys, rule assms) (auto simp: sys_unit_def split: sum.split)

lemma sim_unlink: "sim os (unlink_prog parent name) [] t (pt_unlink os t ctx parent name)"
  by (auto simp: unlink_prog_def pt_unlink_def intro!: sim_intros)

lemma sim_rmdir: "sim os (rmdir_prog parent name) [] t (pt_rmdir os t ctx parent name)"
  by (auto simp: rmdir_prog_def pt_rmdir_def intro!: sim_intros)

lemma sim_setxattr: "sim os (setxattr_prog n name val flags) [] t (pt_setxattr os t ctx n name val flags)"
  by (auto simp: setxattr_prog_def pt_setxattr_def intro!: sim_intros)

lemma sim_removexattr: "sim os (removexattr_prog n name) [] t (pt_removexattr os t ctx n name)"
  by (auto simp: removexattr_prog_def pt_removexattr_def intro!: sim_intros)

lemma sim_statx: "sim os (statx_prog os n) [] t (pt_statx os t ctx n)"
  by (auto simp: statx_prog_def pt_statx_def intro!: sim_intros split: sum.split)

lemma sim_statfs: "sim os (statfs_prog os n) [] t (pt_statfs os t ctx n)"
  by (auto simp: statfs_prog_def pt_statfs_def Let_def intro!: sim_intros split: sum.split)

lemma sim_readlink: "sim os (readlink_prog os n) [] t (pt_readlink os t ctx n)"
  by (auto simp: readlink_prog_def pt_readlink_def sys_read_def intro!: sim_intros split: sum.split)

lemma sim_lookupx: "sim os (lookupx_prog os parent name) [] t (pt_lookupx os t ctx parent name)"
  by (auto simp: lookupx_prog_def pt_lookupx_def enter_def entry_for_def intro!: sim_intros split: sum.split)

lemma sim_calls:
  assumes "\<And>r t'. sys_all os cs t = (r, t') \<Longrightarrow> sim os (k r) pins t' y"
  shows "sim os (calls_then cs k) pins t y"
  using assms by (induction cs arbitrary: t) (auto intro!: sim_intros split: sum.split)

lemma sim_setstatx_rest:
  "sim os (setstatx_rest os n inn fd proc) [] t (case sys_all os (setstatx_calls fd proc inn) t of
     (Inl e, s) \<Rightarrow> (Inl e, s) | (Inr u, s) \<Rightarrow> pt_statx os s Context_default n)"
  by (auto simp: setstatx_rest_def intro!: sim_calls sim_intros sim_statx split: sum.split)

lemma sim_setstatx: "sim os (setstatx_prog os n fh inn) [] t (pt_setstatx os t ctx n fh inn)"
proof (cases "file_fd t fh < 0")
  case True
  have "sim os (on_node n (\<lambda>i pfd. Drop i (setstatx_rest os n inn (file_fd t fh) (Proc_self_fd pfd)))) [] t
      (pt_setstatx os t ctx n fh inn)"
    using True sim_setstatx_rest [of os n inn "file_fd t fh" _ t]
    by (intro sim_on_node sim_Drop_pin) (auto simp: pt_setstatx_def Let_def)
  with True show ?thesis by (auto simp: setstatx_prog_def intro!: sim_file_fd)
next
  case False
  with sim_setstatx_rest [of os n inn "file_fd t fh" "Proc_self_fd 0" t] show ?thesis
    by (auto simp: setstatx_prog_def pt_setstatx_def Let_def intro!: sim_file_fd)
qed

lemma sim_tmpfile: "sim os (tmpfile_prog os mi p (in_path_fd i)) [(p, in_path_fd i)] t (mkobjx_tmpfile os i mi t)"
  by (auto simp: tmpfile_prog_def mkobjx_tmpfile_def entry_for_def Let_def intro!: sim_intros split: sum.split)

lemma sim_enter_new:
  "sim os (enter_new_prog os p pfd nm) [(p, pfd)] t
     (case sys os (Openat pfd nm (O_PATH OR O_NOFOLLOW OR O_CLOEXEC) 0) t of
        (Inl e, s) \<Rightarrow> (Inl e, s) | (Inr cfd, s) \<Rightarrow> enter_new os cfd s)"
  by (auto simp: enter_new_prog_def enter_new_def entry_for_def intro!: sim_intros split: sum.split)

lemma sim_mkobjx: "sim os (mkobjx_prog os parent mi) [] t (pt_mkobjx os t ctx parent mi)"
  by (auto simp: mkobjx_prog_def pt_mkobjx_def set_owner_def Let_def intro!: sim_intros sim_tmpfile sim_enter_new
      split: sum.split option.split)

lemma sim_on_nodes:
  "sim os (on_nodes a b c) [] t (case (table_get t a, table_get t b) of
     (Some i, Some j) \<Rightarrow> sys_unit os (c (in_path_fd i) (in_path_fd j)) t | _ \<Rightarrow> (Inl ESTALE, t))"
  unfolding on_nodes_def by (auto intro!: sim_intros)

lemma sim_rename: "sim os (rename_prog od on nd nn flags) [] t (pt_rename os t ctx od on nd nn flags)"
  using sim_on_nodes by (simp add: rename_prog_def pt_rename_def)

lemma sim_link: "sim os (link_prog old newparent newname) [] t (pt_link os t ctx old newparent newname)"
  using sim_on_nodes by (simp add: link_prog_def pt_link_def)

lemma sim_io:
  assumes "\<And>r t'. io_fd os n fh mode t = (r, t') \<Longrightarrow> sim os (k r) [] t' y"
  shows "sim os (io_fd_then n fh mode k) [] t y"
  using assms by (auto simp: io_fd_then_def io_fd_def Let_def intro!: sim_intros split: sum.split)

definition regroup :: "'a \<times> 'b \<times> 's \<Rightarrow> ('a \<times> 'b) \<times> 's" where
  "regroup x = (case x of (a, b, s) \<Rightarrow> ((a, b), s))"

lemma sim_read: "sim os (read_prog os n fh off out) [] t (regroup (pt_read os t ctx n fh off out))"
  by (auto simp: read_prog_def pt_read_def sys_read_def regroup_def intro!: sim_io sim_intros split: sum.split prod.split)

lemma sim_write: "sim os (write_prog n fh off inn) [] t (pt_write os t ctx n fh off inn)"
  by (auto simp: write_prog_def pt_write_def intro!: sim_io sim_intros split: sum.split prod.split)

lemma sim_fallocate: "sim os (fallocate_prog n fh mode off len) [] t (pt_fallocate os t ctx n fh mode off len)"
  by (auto simp: fallocate_prog_def pt_fallocate_def intro!: sim_io sim_intros split: sum.split prod.split)

lemma sim_xattr_read:
  "sim os (xattr_read_prog os n c out) [] t (regroup (case table_get t n of
     None \<Rightarrow> (Inl ESTALE, out, t) | Some i \<Rightarrow> sys_read os (c (Proc_self_fd (in_path_fd i))) out t))"
  unfolding xattr_read_prog_def
  by (auto simp: sys_read_def regroup_def intro!: sim_intros split: sum.split)

lemma sim_getxattr: "sim os (getxattr_prog os n name out) [] t (regroup (pt_getxattr os t ctx n name out))"
  using sim_xattr_read by (simp add: getxattr_prog_def pt_getxattr_def)

lemma sim_listxattr: "sim os (listxattr_prog os n out) [] t (regroup (pt_listxattr os t ctx n out))"
  using sim_xattr_read by (simp add: listxattr_prog_def pt_listxattr_def)

lemma sim_forget: "sim os (forget_prog n nl) [] t ((), pt_forget os t n nl)"
proof (cases "n = NodeId_root")
  case True
  then show ?thesis by (simp add: forget_prog_def pt_forget_def table_forget_def sim_Ret)
next
  case False
  with sim_forget_items [of os "Ret ()" t "[(n, nl)]" "((), pt_forget os t n nl)"] show ?thesis
    by (simp add: forget_prog_def pt_forget_def table_forget_def sim_Ret)
qed

lemma sim_forget_multi: "sim os (forget_multi_prog items) [] t ((), pt_forget_multi os t items)"
  unfolding forget_multi_prog_def pt_forget_multi_def by (intro sim_forget_items sim_Ret)

lemma flat_sel [simp]:
  "pt_files (flat s) = sh_files s" "pt_file_id (flat s) = sh_file_id s" "pt_dirs (flat s) = sh_dirs s"
  "pt_dir_id (flat s) = sh_dir_id s" "pt_log (flat s) = sh_log s"
  by (simp_all add: flat_def)

lemma flat_close: "flat (sh_close os fd s) = close_fd os fd (flat s)"
  by (simp add: flat_def sh_close_def close_fd_def sys_def Let_def)

lemma sh_close_frame [simp]:
  "sh_objs (sh_close os fd s) = sh_objs s" "sh_use (sh_close os fd s) = sh_use s"
  "sh_next (sh_close os fd s) = sh_next s" "sh_map (sh_close os fd s) = sh_map s"
  by (simp_all add: sh_close_def)

lemma sim_file_new:
  assumes "sim os (k (pt_file_id t + 1)) pins (files_emplace os (pt_file_id t + 1) fd (t\<lparr>pt_file_id := pt_file_id t + 1\<rparr>)) y"
  shows "sim os (Acquire Files_mu True (File_new fd (\<lambda>h. Unlock Files_mu True (k h)))) pins t y"
proof (rule sim_handle_section)
  let ?f = "\<lambda>s. case sh_files s (sh_file_id s + 1) of
      None \<Rightarrow> s\<lparr>sh_file_id := sh_file_id s + 1, sh_files := (sh_files s)(sh_file_id s + 1 \<mapsto> fd)\<rparr>
    | Some _ \<Rightarrow> sh_close os fd (s\<lparr>sh_file_id := sh_file_id s + 1\<rparr>)"
  fix s
  show "exec os (File_new fd (\<lambda>h. Unlock Files_mu True (k h))) (s\<lparr>sh_mutex := (sh_mutex s)(Files_mu := Writer)\<rparr>) =
      Stepped (Unlock Files_mu True (k (sh_file_id s + 1))) ((?f s)\<lparr>sh_mutex := (sh_mutex s)(Files_mu := Writer)\<rparr>)"
    by (simp add: Let_def sh_close_def split: option.split)
  show "sh_mutex (?f s) = sh_mutex s \<and> sh_objs (?f s) = sh_objs s \<and> sh_use (?f s) = sh_use s \<and>
      sh_next (?f s) = sh_next s \<and> sh_map (?f s) = sh_map s"
    by (simp split: option.split)
  assume t: "flat s = t"
  have "flat (?f s) = files_emplace os (pt_file_id t + 1) fd (t\<lparr>pt_file_id := pt_file_id t + 1\<rparr>)"
    unfolding t [symmetric] by (simp add: files_emplace_def flat_close split: option.split) (simp add: flat_def)
  with assms t show "sim os (k (sh_file_id s + 1)) pins (flat (?f s)) y" by auto
qed (rule refl)

lemma sim_file_erase:
  assumes "\<And>rv t'. pt_release os t ctx n fh flags = (rv, t') \<Longrightarrow> sim os p pins t' y"
  shows "sim os (Acquire Files_mu True (File_erase fh (Unlock Files_mu True p))) pins t y"
proof (rule sim_handle_section)
  let ?f = "\<lambda>s. case sh_files s fh of None \<Rightarrow> s | Some fd \<Rightarrow> sh_close os fd (s\<lparr>sh_files := (sh_files s)(fh := None)\<rparr>)"
  fix s
  show "exec os (File_erase fh (Unlock Files_mu True p)) (s\<lparr>sh_mutex := (sh_mutex s)(Files_mu := Writer)\<rparr>) =
      Stepped (Unlock Files_mu True p) ((?f s)\<lparr>sh_mutex := (sh_mutex s)(Files_mu := Writer)\<rparr>)"
    by (simp add: sh_close_def split: option.split)
  show "sh_mutex (?f s) = sh_mutex s \<and> sh_objs (?f s) = sh_objs s \<and> sh_use (?f s) = sh_use s \<and>
      sh_next (?f s) = sh_next s \<and> sh_map (?f s) = sh_map s"
    by (simp split: option.split)
  assume t: "flat s = t"
  have "pt_release os t ctx n fh flags = (Inr (), flat (?f s))"
    unfolding t [symmetric] by (simp add: pt_release_def flat_close split: option.split) (simp add: flat_def)
  with assms show "sim os p pins (flat (?f s)) y" by auto
qed (rule refl)

lemma sim_dir_new:
  assumes "sim os (k (pt_dir_id t + 1)) pins (t\<lparr>pt_dir_id := pt_dir_id t + 1, pt_dirs := (pt_dirs t)(pt_dir_id t + 1 \<mapsto> fd)\<rparr>) y"
  shows "sim os (Acquire Dirs_mu True (Dir_new fd (\<lambda>h. Unlock Dirs_mu True (k h)))) pins t y"
proof (rule sim_handle_section)
  let ?f = "\<lambda>s. s\<lparr>sh_dir_id := sh_dir_id s + 1, sh_dirs := (sh_dirs s)(sh_dir_id s + 1 \<mapsto> fd)\<rparr>"
  fix s
  show "exec os (Dir_new fd (\<lambda>h. Unlock Dirs_mu True (k h))) (s\<lparr>sh_mutex := (sh_mutex s)(Dirs_mu := Writer)\<rparr>) =
      Stepped (Unlock Dirs_mu True (k (sh_dir_id s + 1))) ((?f s)\<lparr>sh_mutex := (sh_mutex s)(Dirs_mu := Writer)\<rparr>)"
    by (simp add: Let_def)
  show "sh_mutex (?f s) = sh_mutex s \<and> sh_objs (?f s) = sh_objs s \<and> sh_use (?f s) = sh_use s \<and>
      sh_next (?f s) = sh_next s \<and> sh_map (?f s) = sh_map s" by simp
  assume t: "flat s = t"
  have "flat (?f s) = t\<lparr>pt_dir_id := pt_dir_id t + 1, pt_dirs := (pt_dirs t)(pt_dir_id t + 1 \<mapsto> fd)\<rparr>"
    unfolding t [symmetric] by (simp add: flat_def)
  with assms t show "sim os (k (sh_dir_id s + 1)) pins (flat (?f s)) y" by auto
qed (rule refl)

lemma sim_dir_erase:
  assumes "\<And>rv t'. pt_releasedir os t ctx n fh = (rv, t') \<Longrightarrow> sim os p pins t' y"
  shows "sim os (Acquire Dirs_mu True (Dir_erase fh (Unlock Dirs_mu True p))) pins t y"
proof (rule sim_handle_section)
  let ?f = "\<lambda>s. case sh_dirs s fh of None \<Rightarrow> s
    | Some d \<Rightarrow> s\<lparr>sh_log := sh_log s @ [(Closedir d, os_call os (sh_log s) (Closedir d))], sh_dirs := (sh_dirs s)(fh := None)\<rparr>"
  fix s
  show "exec os (Dir_erase fh (Unlock Dirs_mu True p)) (s\<lparr>sh_mutex := (sh_mutex s)(Dirs_mu := Writer)\<rparr>) =
      Stepped (Unlock Dirs_mu True p) ((?f s)\<lparr>sh_mutex := (sh_mutex s)(Dirs_mu := Writer)\<rparr>)"
    by (simp split: option.split)
  show "sh_mutex (?f s) = sh_mutex s \<and> sh_objs (?f s) = sh_objs s \<and> sh_use (?f s) = sh_use s \<and>
      sh_next (?f s) = sh_next s \<and> sh_map (?f s) = sh_map s"
    by (simp split: option.split)
  assume t: "flat s = t"
  have "pt_releasedir os t ctx n fh = (Inr (), flat (?f s))"
    unfolding t [symmetric] by (simp add: pt_releasedir_def sys_def Let_def split: option.split) (simp add: flat_def)
  with assms show "sim os p pins (flat (?f s)) y" by auto
qed (rule refl)

lemma sim_dir_find:
  assumes "sim os (k (pt_dirs t fh)) pins t y"
  shows "sim os (Acquire Dirs_mu True (Dir_find fh (\<lambda>x. Unlock Dirs_mu True (k x)))) pins t y"
proof (rule sim_handle_section)
  fix s
  show "exec os (Dir_find fh (\<lambda>x. Unlock Dirs_mu True (k x))) (s\<lparr>sh_mutex := (sh_mutex s)(Dirs_mu := Writer)\<rparr>) =
      Stepped (Unlock Dirs_mu True (k (sh_dirs s fh))) (s\<lparr>sh_mutex := (sh_mutex s)(Dirs_mu := Writer)\<rparr>)" by simp
  assume "flat s = t"
  with assms show "sim os (k (sh_dirs s fh)) pins (flat s) y" by auto
qed simp_all

lemma sim_open: "sim os (open_prog n flags) [] t (pt_open os t ctx n flags)"
  by (auto simp: open_prog_def pt_open_def Let_def intro!: sim_intros sim_file_new split: sum.split)

lemma sim_release: "sim os (release_prog fh) [] t (pt_release os t ctx n fh flags)"
proof -
  obtain rv t' where r: "pt_release os t ctx n fh flags = (rv, t')" by fastforce
  then have "rv = Inr ()" by (auto simp: pt_release_def split: option.splits)
  with r show ?thesis
    unfolding release_prog_def by (intro sim_file_erase [where ctx = ctx and n = n and flags = flags]) (auto intro: sim_end)
qed

lemma sim_opendir: "sim os (opendir_prog n) [] t (pt_opendir os t ctx n)"
  by (auto simp: opendir_prog_def pt_opendir_def Let_def intro!: sim_intros sim_dir_new split: sum.split)

lemma sim_releasedir: "sim os (releasedir_prog fh) [] t (pt_releasedir os t ctx n fh)"
proof -
  obtain rv t' where r: "pt_releasedir os t ctx n fh = (rv, t')" by fastforce
  then have "rv = Inr ()" by (auto simp: pt_releasedir_def split: option.splits prod.splits)
  with r show ?thesis
    unfolding releasedir_prog_def by (intro sim_dir_erase [where ctx = ctx and n = n]) (auto intro: sim_end)
qed

lemma sim_readdir_from:
  assumes "readdir_loop os d off w t = Some (rv, w', t')"
  shows "sim os (readdir_from os d off w) [] t (Some (rv, w'), t')"
  using assms
proof (induction os d off w t rule: readdir_loop.induct)
  case (1 os d off w s)
  obtain r1 s1 where r1: "sys os (Readdir d) s = (r1, s1)" by fastforce
  obtain r2 s2 where r2: "sys os (Telldir d) s1 = (r2, s2)" by fastforce
  show ?case
  proof (cases r1)
    case (Inl e)
    with "1.prems" r1 show ?thesis
      by (subst readdir_from.simps) (auto intro!: sim_intros)
  next
    case (Inr v)
    let ?de = "os_dirent os (pt_log s) (Readdir d)" and ?next = "case r2 of Inl e \<Rightarrow> -1 | Inr t \<Rightarrow> word_of_int t"
    obtain b w1 where add: "DirentWriter_add w (c_str (sd_name ?de)) (sd_ino ?de) ?next (ucast (sd_type ?de)) = Some (b, w1)"
      using "1.prems" r1 r2 Inr by (auto simp: Let_def split: option.splits)
    show ?thesis
    proof (cases b)
      case True
      have "sim os (readdir_from os d ?next w1) [] s2 (Some (rv, w'), t')"
        by (rule "1.IH" [OF r1 [symmetric] Inr refl r2 [symmetric] refl add refl])
          (use "1.prems" r1 r2 Inr add True in \<open>simp_all add: Let_def\<close>)
      with r1 r2 Inr add True show ?thesis
        by (subst readdir_from.simps) (auto simp: Let_def intro!: sim_Sys)
    next
      case False
      with "1.prems" r1 r2 Inr add show ?thesis
        by (subst readdir_from.simps) (auto simp: Let_def intro!: sim_intros)
    qed
  qed
qed

declare readdir_from.simps [simp del]

lemma sim_readdir:
  assumes "pt_readdir os t ctx n fh off out = Some (rv, w, t')"
  shows "sim os (readdir_prog os fh off out) [] t (Some (rv, w), t')"
  unfolding readdir_prog_def
  by (rule sim_dir_find)
    (use assms in \<open>auto simp: pt_readdir_def simp del: readdir_loop.simps intro!: sim_Ret sim_Sys sim_readdir_from
      split: option.splits\<close>)

subsection \<open>Every request\<close>

text \<open>The same request through the callbacks of \<open>Passthrough\<close>.\<close>

fun call_pt :: "os \<Rightarrow> pt_request \<Rightarrow> Context \<Rightarrow> PassthroughFs \<Rightarrow> pt_result \<times> PassthroughFs" where
  "call_pt os Q_lookup_root ctx t = map_prod R_entry id (pt_lookup_root t ctx)"
| "call_pt os (Q_lookupx parent name) ctx t = map_prod R_entry id (pt_lookupx os t ctx parent name)"
| "call_pt os (Q_forget n nlookup) ctx t = (R_done, pt_forget os t n nlookup)"
| "call_pt os (Q_forget_multi items) ctx t = (R_done, pt_forget_multi os t items)"
| "call_pt os (Q_statx n) ctx t = map_prod R_statx id (pt_statx os t ctx n)"
| "call_pt os (Q_setstatx n fh inn) ctx t = map_prod R_statx id (pt_setstatx os t ctx n fh inn)"
| "call_pt os (Q_mkobjx parent mi) ctx t = map_prod R_entry id (pt_mkobjx os t ctx parent mi)"
| "call_pt os (Q_unlink parent name) ctx t = map_prod R_unit id (pt_unlink os t ctx parent name)"
| "call_pt os (Q_rmdir parent name) ctx t = map_prod R_unit id (pt_rmdir os t ctx parent name)"
| "call_pt os (Q_rename od on nd nn flags) ctx t = map_prod R_unit id (pt_rename os t ctx od on nd nn flags)"
| "call_pt os (Q_link old newparent newname) ctx t = map_prod R_unit id (pt_link os t ctx old newparent newname)"
| "call_pt os (Q_readlink n) ctx t = map_prod R_bytes id (pt_readlink os t ctx n)"
| "call_pt os (Q_read n fh off out) ctx t = map_prod R_filled id (regroup (pt_read os t ctx n fh off out))"
| "call_pt os (Q_write n fh off inn) ctx t = map_prod R_size id (pt_write os t ctx n fh off inn)"
| "call_pt os (Q_statfs n) ctx t = map_prod R_statfs id (pt_statfs os t ctx n)"
| "call_pt os (Q_fallocate n fh mode off len) ctx t = map_prod R_unit id (pt_fallocate os t ctx n fh mode off len)"
| "call_pt os (Q_open n flags) ctx t = map_prod R_open id (pt_open os t ctx n flags)"
| "call_pt os (Q_release n fh flags) ctx t = map_prod R_unit id (pt_release os t ctx n fh flags)"
| "call_pt os (Q_opendir n) ctx t = map_prod R_open id (pt_opendir os t ctx n)"
| "call_pt os (Q_releasedir n fh) ctx t = map_prod R_unit id (pt_releasedir os t ctx n fh)"
| "call_pt os (Q_readdir n fh off out) ctx t = (case pt_readdir os t ctx n fh off out of
     None \<Rightarrow> (R_dirents None, t) | Some (rv, w, t') \<Rightarrow> (R_dirents (Some (rv, w)), t'))"
| "call_pt os (Q_getxattr n name out) ctx t = map_prod R_filled id (regroup (pt_getxattr os t ctx n name out))"
| "call_pt os (Q_setxattr n name val flags) ctx t = map_prod R_unit id (pt_setxattr os t ctx n name val flags)"
| "call_pt os (Q_listxattr n out) ctx t = map_prod R_filled id (regroup (pt_listxattr os t ctx n out))"
| "call_pt os (Q_removexattr n name) ctx t = map_prod R_unit id (pt_removexattr os t ctx n name)"

lemma sim_map: "sim os p pins t y \<Longrightarrow> sim os (map_prog f p) pins t (map_prod f id y)"
  by (fastforce simp: sim_def run_map)

lemmas sim_callbacks = sim_lookupx sim_statx sim_setstatx sim_mkobjx sim_unlink sim_rmdir sim_rename sim_link
  sim_readlink sim_read sim_write sim_statfs sim_fallocate sim_open sim_release sim_opendir sim_releasedir
  sim_getxattr sim_setxattr sim_listxattr sim_removexattr

lemma sim_callback:
  assumes "\<And>n fh off out. q = Q_readdir n fh off out \<Longrightarrow> pt_readdir os t ctx n fh off out \<noteq> None"
  shows "sim os (callback os q) [] t (call_pt os q ctx t)"
proof (cases q)
  case (Q_readdir n fh off out)
  then obtain rv w t' where r: "pt_readdir os t ctx n fh off out = Some (rv, w, t')"
    using assms by (metis prod_cases3 option.exhaust)
  from sim_map [OF sim_readdir [OF r], of R_dirents] r Q_readdir show ?thesis by simp
next
  case (Q_forget n nl)
  with sim_map [OF sim_forget] show ?thesis by fastforce
next
  case (Q_forget_multi items)
  with sim_map [OF sim_forget_multi] show ?thesis by fastforce
next
  case Q_lookup_root
  then show ?thesis by (simp add: pt_lookup_root_def sim_Ret)
qed (simp_all add: sim_map sim_callbacks)

end
