(* ===== verification/Passthrough_Discipline.thy ===== *)
theory Passthrough_Discipline
  imports Passthrough_Alone
begin

text \<open>
  The ownership discipline of the passthrough callbacks, a judgement on their programs: a
  table is only accessed with its mutex held, at most one mutex is held at a time, an inode is
  only used through a \<open>shared_ptr\<close>, a descriptor is only closed or handed over by its owner, and
  everything is given back at the end, on every path. Every callback follows it.
\<close>

subsection \<open>The discipline\<close>

text \<open>The descriptors a call names, directly or through \<open>/proc/self/fd\<close>.\<close>

fun path_fds :: "path \<Rightarrow> int list" where
  "path_fds (Path p) = []"
| "path_fds (Proc_self_fd n) = [n]"

fun uses :: "call \<Rightarrow> int list" where
  "uses (Openat fd nm fl m) = [fd]"
| "uses (Open p fl) = path_fds p"
| "uses (Close fd) = [fd]"
| "uses (Fstatat fd) = [fd]"
| "uses (Fstat fd) = [fd]"
| "uses (Fchmod fd m) = [fd]"
| "uses (Chmod p m) = path_fds p"
| "uses (Fchown fd u g) = [fd]"
| "uses (Lchown p u g) = path_fds p"
| "uses (Ftruncate fd n) = [fd]"
| "uses (Truncate p n) = path_fds p"
| "uses (Futimens fd a m) = [fd]"
| "uses (Utimensat p a m) = path_fds p"
| "uses (Mknodat fd nm m d) = [fd]"
| "uses (Mkdirat fd nm m) = [fd]"
| "uses (Symlinkat tgt fd nm) = [fd]"
| "uses (Fchownat fd nm u g) = [fd]"
| "uses (Unlinkat fd nm dir) = [fd]"
| "uses (Renameat2 fd nm fd' nm' fl) = [fd, fd']"
| "uses (Linkat fd fd' nm) = [fd, fd']"
| "uses (Readlinkat fd n) = [fd]"
| "uses (Pread fd n off) = [fd]"
| "uses (Pwrite fd bs off) = [fd]"
| "uses (Fstatvfs fd) = [fd]"
| "uses (Fallocate fd m off len) = [fd]"
| "uses (Fdopendir fd) = [fd]"
| "uses (Closedir d) = [d]"
| "uses (Seekdir d off) = [d]"
| "uses (Readdir d) = [d]"
| "uses (Telldir d) = [d]"
| "uses (Lgetxattr p nm n) = path_fds p"
| "uses (Lsetxattr p nm v fl) = path_fds p"
| "uses (Llistxattr p n) = path_fds p"
| "uses (Lremovexattr p nm) = path_fds p"

text \<open>
  What a running callback holds: a mutex (never more than one), \<open>shared_ptr\<close>s, descriptors it
  has to close or hand over, the descriptors of the inodes it has looked at, and those it
  has read from the handle tables.
\<close>

record holding =
  hd_mutex :: "(mutex \<times> bool) option"
  hd_refs :: "nat multiset"
  hd_fds :: "int multiset"
  hd_path :: "nat \<rightharpoonup> int"
  hd_lent :: "int set"

definition nothing :: holding where
  "nothing = \<lparr>hd_mutex = None, hd_refs = {#}, hd_fds = {#}, hd_path = Map.empty, hd_lent = {}\<rparr>"

text \<open>
  How far the descriptors in the calls of a callback are accounted for: not at all; owned,
  of an inode it holds, or read from a handle table; only the first two.
\<close>

datatype mode = Loose | Lent | Pinned

definition usable :: "mode \<Rightarrow> holding \<Rightarrow> int \<Rightarrow> bool" where
  "usable m h fd \<longleftrightarrow> m = Loose \<or> fd \<in># hd_fds h \<or> (\<exists>r \<in># hd_refs h. hd_path h r = Some fd) \<or>
     m = Lent \<and> fd \<in> hd_lent h"

definition after_call :: "call \<Rightarrow> i32 + int \<Rightarrow> holding \<Rightarrow> holding" where
  "after_call c r h = h\<lparr>hd_fds := fd_step (c, r) (hd_fds h)\<rparr>"

text \<open>\<open>rel\<close>: the program may release handles.\<close>

primrec ok :: "'a prog \<Rightarrow> bool \<Rightarrow> mode \<Rightarrow> holding \<Rightarrow> bool" where
  "ok (Ret x) rel m h \<longleftrightarrow> hd_mutex h = None \<and> hd_refs h = {#} \<and> hd_fds h = {#}"
| "ok (Sys c k) rel m h \<longleftrightarrow> (\<forall>fd \<in> set (uses c). usable m h fd) \<and>
     (\<forall>fd. closed_by c = Some fd \<longrightarrow> fd \<in># hd_fds h) \<and>
     (\<forall>log r. (\<forall>v. r = Inr v \<longrightarrow> v \<ge> 0) \<longrightarrow> ok (k log r) rel m (after_call c r h))"
| "ok (Acquire l x p) rel m h \<longleftrightarrow> hd_mutex h = None \<and> ok p rel m (h\<lparr>hd_mutex := Some (l, x)\<rparr>)"
| "ok (Unlock l x p) rel m h \<longleftrightarrow> hd_mutex h = Some (l, x) \<and> ok p rel m (h\<lparr>hd_mutex := None\<rparr>)"
| "ok (Find n k) rel m h \<longleftrightarrow> (\<exists>x. hd_mutex h = Some (Mu, x)) \<and> ok (k None) rel m h \<and>
     (\<forall>r. ok (k (Some r)) rel m (h\<lparr>hd_refs := add_mset r (hd_refs h), hd_path := (hd_path h)(r := None)\<rparr>))"
| "ok (Deref r k) rel m h \<longleftrightarrow> r \<in># hd_refs h \<and>
     (\<forall>fd. hd_path h r \<in> {None, Some fd} \<longrightarrow> ok (k fd) rel m (h\<lparr>hd_path := (hd_path h)(r \<mapsto> fd)\<rparr>))"
| "ok (Drop r p) rel m h \<longleftrightarrow> r \<in># hd_refs h \<and> ok p rel m (h\<lparr>hd_refs := hd_refs h - {#r#}\<rparr>)"
| "ok (Tab_insert fd ino k) rel m h \<longleftrightarrow> hd_mutex h = Some (Mu, True) \<and> fd \<in># hd_fds h \<and>
     ok (k True) rel m (h\<lparr>hd_fds := hd_fds h - {#fd#}\<rparr>) \<and> ok (k False) rel m h"
| "ok (Tab_forget key n p) rel m h \<longleftrightarrow> hd_mutex h = Some (Mu, True) \<and> key \<noteq> NodeId_root \<and> ok p rel m h"
| "ok (File_find fh k) rel m h \<longleftrightarrow> (\<exists>x. hd_mutex h = Some (Files_mu, x)) \<and> ok (k None) rel m h \<and>
     (\<forall>fd. fd \<ge> 0 \<longrightarrow> ok (k (Some fd)) rel m (h\<lparr>hd_lent := insert fd (hd_lent h)\<rparr>))"
| "ok (File_new fd k) rel m h \<longleftrightarrow> hd_mutex h = Some (Files_mu, True) \<and> fd \<in># hd_fds h \<and>
     (\<forall>fh. ok (k fh) rel m (h\<lparr>hd_fds := hd_fds h - {#fd#}\<rparr>))"
| "ok (File_erase fh p) rel m h \<longleftrightarrow> rel \<and> hd_mutex h = Some (Files_mu, True) \<and> ok p rel m h"
| "ok (Dir_find fh k) rel m h \<longleftrightarrow> hd_mutex h = Some (Dirs_mu, True) \<and> ok (k None) rel m h \<and>
     (\<forall>d. ok (k (Some d)) rel m (h\<lparr>hd_lent := insert d (hd_lent h)\<rparr>))"
| "ok (Dir_new fd k) rel m h \<longleftrightarrow> hd_mutex h = Some (Dirs_mu, True) \<and> fd \<in># hd_fds h \<and>
     (\<forall>fh. ok (k fh) rel m (h\<lparr>hd_fds := hd_fds h - {#fd#}\<rparr>))"
| "ok (Dir_erase fh p) rel m h \<longleftrightarrow> rel \<and> hd_mutex h = Some (Dirs_mu, True) \<and> ok p rel m h"

lemma ok_map [simp]: "ok (map_prog f p) rel m h = ok p rel m h"
proof (induction p arbitrary: h)
  case (Sys c k)
  have "ok (map_prog f (k log r)) rel m h = ok (k log r) rel m h" for log r h
    by (rule Sys.IH) auto
  then show ?case by (simp add: comp_def)
qed (simp_all add: comp_def)

subsection \<open>The callbacks follow it\<close>

fun mode_of :: "pt_request \<Rightarrow> mode" where
  "mode_of (Q_setstatx n fh inn) = Loose"
| "mode_of (Q_read n fh off out) = (if fh = 0 then Pinned else Lent)"
| "mode_of (Q_write n fh off inn) = (if fh = 0 then Pinned else Lent)"
| "mode_of (Q_fallocate n fh mode off len) = (if fh = 0 then Pinned else Lent)"
| "mode_of (Q_readdir n fh off out) = Lent"
| "mode_of q = Pinned"

fun releases :: "pt_request \<Rightarrow> bool" where
  "releases (Q_release n fh flags) = True"
| "releases (Q_releasedir n fh) = True"
| "releases q = False"

lemmas ok_defs = on_node_def get_then_def insert_then_def close_then_def close_errno_then_def unit_call_def
  io_fd_then_def file_fd_then_def nothing_def usable_def after_call_def fd_step_def

lemma ok_simple:
  "ok (statx_prog os n) rel Pinned nothing" "ok (unlink_prog n name) rel Pinned nothing"
  "ok (rmdir_prog n name) rel Pinned nothing" "ok (readlink_prog os n) rel Pinned nothing"
  "ok (statfs_prog os n) rel Pinned nothing" "ok (setxattr_prog n name val flags) rel Pinned nothing"
  "ok (removexattr_prog n name) rel Pinned nothing"
  by (auto simp: statx_prog_def unlink_prog_def rmdir_prog_def readlink_prog_def statfs_prog_def setxattr_prog_def
      removexattr_prog_def ok_defs)

lemma ok_lookupx: "ok (lookupx_prog os parent name) rel Pinned nothing"
  by (auto simp: lookupx_prog_def ok_defs split: sum.split)

lemma after_neutral [simp]: "neutral c \<Longrightarrow> after_call c r h = h"
  by (simp add: after_call_def neutral_step)

lemma ok_xattr_read:
  assumes "\<And>p. uses (c p) = path_fds p" "\<And>p. neutral (c p)"
  shows "ok (xattr_read_prog os n c out) rel Pinned nothing"
  using assms by (auto simp: xattr_read_prog_def get_then_def nothing_def usable_def neutral_step(2))

lemma ok_on_nodes:
  assumes "\<And>a b. uses (c a b) = [a, b]" "\<And>a b. neutral (c a b)"
  shows "ok (on_nodes n n' c) rel Pinned nothing"
  using assms by (auto simp: on_nodes_def get_then_def unit_call_def nothing_def usable_def neutral_step(2) split: option.split)

lemma ok_tmpfile:
  "ok (tmpfile_prog os mi p pfd) rel Pinned \<lparr>hd_mutex = None, hd_refs = {#p#}, hd_fds = {#}, hd_path = [p \<mapsto> pfd], hd_lent = {}\<rparr>"
  by (auto simp: tmpfile_prog_def Let_def ok_defs split: sum.split)

lemma ok_enter_new:
  "ok (enter_new_prog os p pfd nm) rel Pinned \<lparr>hd_mutex = None, hd_refs = {#p#}, hd_fds = {#}, hd_path = [p \<mapsto> pfd], hd_lent = {}\<rparr>"
  by (auto simp: enter_new_prog_def ok_defs split: sum.split)

lemma create_call_uses: "create_call pfd nm mi = Some c \<Longrightarrow> uses c = [pfd]"
  by (auto simp: create_call_def Let_def split: if_splits)

lemma ok_mkobjx: "ok (mkobjx_prog os parent mi) rel Pinned nothing"
  by (auto simp: mkobjx_prog_def on_node_def get_then_def nothing_def usable_def Let_def ok_tmpfile ok_enter_new
      neutral_step(2) dest: create_call_uses create_call_neutral split: sum.split option.split)

lemma ok_calls:
  assumes "\<forall>c \<in> set cs. neutral c \<and> (m = Loose \<or> (\<forall>fd \<in> set (uses c). usable m h fd))" "\<And>r. ok (k r) rel m h"
  shows "ok (calls_then cs k) rel m h"
  using assms by (induction cs) (auto simp: neutral_step(2) usable_def split: sum.split)

lemma ok_setstatx: "ok (setstatx_prog os n fh inn) rel Loose nothing"
proof -
  have st: "ok (statx_prog os n) rel Loose (nothing\<lparr>hd_path := pa, hd_lent := L\<rparr>)" for pa L
    by (auto simp: statx_prog_def ok_defs)
  have "ok (setstatx_rest os n inn fd proc) rel Loose (nothing\<lparr>hd_path := pa, hd_lent := L\<rparr>)" for fd proc pa L
    unfolding setstatx_rest_def
    by (rule ok_calls) (use st setstatx_calls_neutral in \<open>auto simp: nothing_def split: sum.split\<close>)
  then show ?thesis
    by (auto simp: setstatx_prog_def on_node_def get_then_def file_fd_then_def nothing_def split: option.split)
qed

lemma ok_io:
  "ok (read_prog os n fh off out) rel (if fh = 0 then Pinned else Lent) nothing"
  "ok (write_prog n fh off inn) rel (if fh = 0 then Pinned else Lent) nothing"
  "ok (fallocate_prog n fh mode off len) rel (if fh = 0 then Pinned else Lent) nothing"
  by (auto simp: read_prog_def write_prog_def fallocate_prog_def ok_defs split: sum.split)

lemma ok_open: "ok (open_prog n flags) rel Pinned nothing" "ok (opendir_prog n) rel Pinned nothing"
  by (auto simp: open_prog_def opendir_prog_def ok_defs split: sum.split)

lemma ok_readdir_from:
  "hd_mutex h = None \<Longrightarrow> hd_refs h = {#} \<Longrightarrow> hd_fds h = {#} \<Longrightarrow> d \<in> hd_lent h \<Longrightarrow> ok (readdir_from os d off w) rel Lent h"
proof (induction "length (dw_buf w) - dw_pos w" arbitrary: off w rule: less_induct)
  case less
  have "ok (readdir_from os d off' w') rel Lent h"
    if "DirentWriter_add w name ino off'' ty = Some (True, w')" for off' w' name ino off'' ty
    by (rule less.hyps [OF DirentWriter_add_less [OF that] less.prems])
  with less.prems show ?case
    by (subst readdir_from.simps) (auto simp: Let_def usable_def split: sum.split option.split bool.split)
qed

lemma ok_readdir: "ok (readdir_prog os fh off out) rel Lent nothing"
  by (auto simp: readdir_prog_def nothing_def usable_def intro!: ok_readdir_from split: option.split)

lemma ok_forget_items:
  "ok p rel m h \<Longrightarrow> hd_mutex h = Some (Mu, True) \<Longrightarrow> ok (forget_items items p) rel m h"
  by (induction items p rule: forget_items.induct) auto

lemma ok_forget: "ok (forget_prog n nl) rel Pinned nothing" "ok (forget_multi_prog items) rel Pinned nothing"
  by (auto simp: forget_prog_def forget_multi_prog_def nothing_def intro!: ok_forget_items)

lemma ok_release: "ok (release_prog fh) True Pinned nothing" "ok (releasedir_prog fh) True Pinned nothing"
  by (simp_all add: release_prog_def releasedir_prog_def nothing_def)

lemma callback_ok:
  assumes "releases q \<Longrightarrow> rel"
  shows "ok (callback os q) rel (mode_of q) nothing"
  using assms
  by (cases q) (simp_all add: ok_simple ok_lookupx ok_mkobjx ok_setstatx ok_io ok_open ok_readdir ok_forget ok_release
      rename_prog_def link_prog_def ok_on_nodes getxattr_prog_def listxattr_prog_def ok_xattr_read, simp add: nothing_def)

end
