(* ===== verification/Passthrough_Shared.thy ===== *)
theory Passthrough_Shared
  imports Passthrough_Discipline
begin

text \<open>
  The state the threads of the passthrough daemon share: the mutexes are held by at most one
  writer, use counts are the \<open>shared_ptr\<close>s that exist, and every open descriptor has one
  owner. One action of a thread that follows the discipline of \<open>Passthrough_Discipline\<close> keeps
  this, is never undefined behaviour, and keeps what the other threads rely on.
\<close>

subsection \<open>The shared state\<close>

text \<open>The mutexes are held by the threads in \<open>locks\<close>.\<close>

fun mutex_ok :: "mutex_state \<Rightarrow> nat \<Rightarrow> nat \<Rightarrow> bool" where
  "mutex_ok Writer writers readers \<longleftrightarrow> writers = 1 \<and> readers = 0"
| "mutex_ok (Readers n) writers readers \<longleftrightarrow> writers = 0 \<and> readers = n"

definition locked :: "(mutex \<times> bool) multiset \<Rightarrow> shared \<Rightarrow> bool" where
  "locked locks s \<longleftrightarrow> (\<forall>l. mutex_ok (sh_mutex s l) (count locks (l, True)) (count locks (l, False)))"

text \<open>The descriptors open are those of inodes and handles, and those in \<open>fds\<close>.\<close>

definition sh_held :: "shared \<Rightarrow> int multiset" where
  "sh_held s = map_fds in_path_fd (sh_objs s) + map_fds id (sh_files s) + map_fds id (sh_dirs s)"

definition accounted :: "int multiset \<Rightarrow> shared \<Rightarrow> bool" where
  "accounted fds s \<longleftrightarrow>
     finite (dom (sh_objs s)) \<and> finite (dom (sh_files s)) \<and> finite (dom (sh_dirs s)) \<and>
     (\<forall>fd \<in># sh_held s + fds. fd \<ge> 0) \<and>
     opened {#} (sh_log s) = sh_held s + fds \<and> closes_valid {#} (sh_log s) \<and>
     unat (sh_dir_id s) + size fds \<le> length (sh_log s) \<and> (\<forall>h \<in> dom (sh_dirs s). h \<le> sh_dir_id s)"

definition consistent :: "(mutex \<times> bool) multiset \<Rightarrow> nat multiset \<Rightarrow> int multiset \<Rightarrow> shared \<Rightarrow> bool" where
  "consistent locks refs fds s \<longleftrightarrow> locked locks s \<and> counted refs s \<and> accounted fds s \<and> NodeId_root \<in> dom (sh_map s)"

text \<open>What a thread knows of the state.\<close>

definition knows :: "bool \<Rightarrow> holding \<Rightarrow> shared \<Rightarrow> bool" where
  "knows rel h s \<longleftrightarrow>
     (\<forall>r \<in># hd_refs h. \<forall>fd. hd_path h r = Some fd \<longrightarrow> map_option in_path_fd (sh_objs s r) = Some fd) \<and>
     (rel \<or> hd_lent h \<subseteq> ran (sh_files s) \<union> ran (sh_dirs s))"

text \<open>What an action of another thread may change.\<close>

definition evolves :: "bool \<Rightarrow> nat multiset \<Rightarrow> shared \<Rightarrow> shared \<Rightarrow> bool" where
  "evolves rel refs s s' \<longleftrightarrow>
     (\<forall>r \<in># refs. map_option in_path_fd (sh_objs s' r) = map_option in_path_fd (sh_objs s r)) \<and>
     (rel \<or> ran (sh_files s) \<subseteq> ran (sh_files s') \<and> ran (sh_dirs s) \<subseteq> ran (sh_dirs s'))"

lemma evolves_refl [simp]: "evolves rel refs s s"
  by (simp add: evolves_def)

lemma knows_evolves:
  assumes "knows rel h s" "evolves rel refs s s'" "hd_refs h \<subseteq># refs"
  shows "knows rel h s'"
proof -
  have same: "map_option in_path_fd (sh_objs s' r) = map_option in_path_fd (sh_objs s r)" if "r \<in># hd_refs h" for r
    using assms(2) mset_subset_eqD [OF assms(3) that] by (simp add: evolves_def)
  have lent: "rel \<or> hd_lent h \<subseteq> ran (sh_files s') \<union> ran (sh_dirs s')"
    using assms(1,2) unfolding knows_def evolves_def by blast
  show ?thesis
    unfolding knows_def
  proof (intro conjI ballI allI impI)
    fix r fd
    assume "r \<in># hd_refs h" "hd_path h r = Some fd"
    with assms(1) same show "map_option in_path_fd (sh_objs s' r) = Some fd" by (simp add: knows_def)
  qed (rule lent)
qed

definition lock_of :: "holding \<Rightarrow> (mutex \<times> bool) multiset" where
  "lock_of h = (case hd_mutex h of None \<Rightarrow> {#} | Some x \<Rightarrow> {#x#})"

lemma lock_of_simps [simp]:
  "hd_mutex h = None \<Longrightarrow> lock_of h = {#}" "hd_mutex h = Some x \<Longrightarrow> lock_of h = {#x#}"
  by (simp_all add: lock_of_def)

lemma lock_of_frame [simp]:
  "lock_of (h\<lparr>hd_refs := a\<rparr>) = lock_of h" "lock_of (h\<lparr>hd_fds := b\<rparr>) = lock_of h"
  "lock_of (h\<lparr>hd_path := c\<rparr>) = lock_of h" "lock_of (h\<lparr>hd_lent := d\<rparr>) = lock_of h"
  by (simp_all add: lock_of_def)

lemma locked_frame [simp]:
  "locked L (s\<lparr>sh_objs := a\<rparr>) = locked L s" "locked L (s\<lparr>sh_use := b\<rparr>) = locked L s"
  "locked L (s\<lparr>sh_next := c\<rparr>) = locked L s" "locked L (s\<lparr>sh_map := d\<rparr>) = locked L s"
  "locked L (s\<lparr>sh_files := e\<rparr>) = locked L s" "locked L (s\<lparr>sh_file_id := f\<rparr>) = locked L s"
  "locked L (s\<lparr>sh_dirs := g\<rparr>) = locked L s" "locked L (s\<lparr>sh_dir_id := i\<rparr>) = locked L s"
  "locked L (s\<lparr>sh_log := l\<rparr>) = locked L s" "locked L (sh_close os fd s) = locked L s"
  by (simp_all add: locked_def sh_close_def)

lemma accounted_frame [simp]:
  "accounted F (s\<lparr>sh_mutex := a\<rparr>) = accounted F s" "accounted F (s\<lparr>sh_use := b\<rparr>) = accounted F s"
  "accounted F (s\<lparr>sh_next := c\<rparr>) = accounted F s" "accounted F (s\<lparr>sh_map := d\<rparr>) = accounted F s"
  "accounted F (s\<lparr>sh_file_id := e\<rparr>) = accounted F s"
  by (simp_all add: accounted_def sh_held_def)

text \<open>The descriptors, one lemma per way they move.\<close>

lemma opened_by_Some: "opened_by (c, r) = Some v \<Longrightarrow> r = Inr v \<and> closed_by c = None"
  by (cases c; cases r) auto

lemma accountedI:
  assumes "finite (dom (sh_objs s))" "finite (dom (sh_files s))" "finite (dom (sh_dirs s))"
    and "\<And>fd. fd \<in># sh_held s + fds \<Longrightarrow> fd \<ge> 0"
    and "opened {#} (sh_log s) = sh_held s + fds" "closes_valid {#} (sh_log s)"
    and "unat (sh_dir_id s) + size fds \<le> length (sh_log s)" "\<And>h. h \<in> dom (sh_dirs s) \<Longrightarrow> h \<le> sh_dir_id s"
  shows "accounted fds s"
  using assms by (simp add: accounted_def)

lemma accountedD:
  assumes "accounted fds s"
  shows "finite (dom (sh_objs s))" "finite (dom (sh_files s))" "finite (dom (sh_dirs s))"
    and "\<And>fd. fd \<in># sh_held s + fds \<Longrightarrow> fd \<ge> 0"
    and "opened {#} (sh_log s) = sh_held s + fds" "closes_valid {#} (sh_log s)"
    and "unat (sh_dir_id s) + size fds \<le> length (sh_log s)" "\<And>h. h \<in> dom (sh_dirs s) \<Longrightarrow> h \<le> sh_dir_id s"
  using assms unfolding accounted_def by blast+

lemma sh_held_log [simp]: "sh_held (s\<lparr>sh_log := l\<rparr>) = sh_held s"
  by (simp add: sh_held_def)

lemma accounted_open:
  assumes "accounted F s" "opened_by (c, r) = Some v" "v \<ge> 0"
  shows "accounted (add_mset v F) (s\<lparr>sh_log := sh_log s @ [(c, r)]\<rparr>)"
proof (rule accountedI)
  note a = accountedD [OF assms(1)]
  have c: "closed_by c = None" using opened_by_Some [OF assms(2)] by simp
  fix fd
  assume "fd \<in># sh_held (s\<lparr>sh_log := sh_log s @ [(c, r)]\<rparr>) + add_mset v F"
  then have "fd = v \<or> fd \<in># sh_held s + F" by auto
  with a(4) assms(3) show "0 \<le> fd" by auto
next
  have c: "closed_by c = None" using opened_by_Some [OF assms(2)] by simp
  show "opened {#} (sh_log (s\<lparr>sh_log := sh_log s @ [(c, r)]\<rparr>)) =
      sh_held (s\<lparr>sh_log := sh_log s @ [(c, r)]\<rparr>) + add_mset v F"
    "closes_valid {#} (sh_log (s\<lparr>sh_log := sh_log s @ [(c, r)]\<rparr>))"
    using accountedD(5,6) [OF assms(1)] assms(2) c by (simp_all add: fd_step_def)
qed (use accountedD [OF assms(1)] in simp_all)

lemma accounted_closed:
  assumes "accounted (add_mset fd F) s" "closed_by c = Some fd"
  shows "accounted F (s\<lparr>sh_log := sh_log s @ [(c, r)]\<rparr>)"
proof (rule accountedI)
  have o: "opened_by (c, r) = None" using assms(2) by (cases c) simp_all
  show "opened {#} (sh_log (s\<lparr>sh_log := sh_log s @ [(c, r)]\<rparr>)) =
      sh_held (s\<lparr>sh_log := sh_log s @ [(c, r)]\<rparr>) + F"
    "closes_valid {#} (sh_log (s\<lparr>sh_log := sh_log s @ [(c, r)]\<rparr>))"
    using accountedD(5,6) [OF assms(1)] assms(2) o by (simp_all add: fd_step_def)
qed (use accountedD [OF assms(1)] in simp_all)

lemma accounted_other:
  assumes "accounted F s" "opened_by (c, r) = None" "closed_by c = None"
  shows "accounted F (s\<lparr>sh_log := sh_log s @ [(c, r)]\<rparr>)"
proof (rule accountedI)
  show "opened {#} (sh_log (s\<lparr>sh_log := sh_log s @ [(c, r)]\<rparr>)) =
      sh_held (s\<lparr>sh_log := sh_log s @ [(c, r)]\<rparr>) + F"
    "closes_valid {#} (sh_log (s\<lparr>sh_log := sh_log s @ [(c, r)]\<rparr>))"
    using accountedD(5,6) [OF assms(1)] assms(2,3) by (simp_all add: fd_step_def)
qed (use accountedD [OF assms(1)] in simp_all)

lemma accounted_call:
  assumes "accounted (F + G) s" "\<And>v. r = Inr v \<Longrightarrow> v \<ge> 0" "\<And>fd. closed_by c = Some fd \<Longrightarrow> fd \<in># F"
  shows "accounted (fd_step (c, r) F + G) (s\<lparr>sh_log := sh_log s @ [(c, r)]\<rparr>)"
proof (cases "opened_by (c, r)")
  case (Some v)
  with opened_by_Some [OF Some] assms(2) accounted_open [OF assms(1) Some] show ?thesis by (simp add: fd_step_def)
next
  case None
  show ?thesis
  proof (cases "closed_by c")
    case (Some fd)
    with assms(3) obtain F' where F: "F = add_mset fd F'" by (metis multi_member_split)
    with accounted_closed [of fd "F' + G" s c r] assms(1) None Some show ?thesis by (simp add: fd_step_def)
  qed (use None accounted_other [OF assms(1) None] in \<open>simp add: fd_step_def\<close>)
qed

text \<open>A table gives up a descriptor, which is closed at once; or takes one over.\<close>

lemma accounted_give_up:
  assumes "accounted F s" "sh_held s = add_mset fd (sh_held s')" "closed_by c = Some fd"
    and "sh_log s' = sh_log s @ [(c, r)]" "sh_dir_id s' = sh_dir_id s"
    and "dom (sh_objs s') \<subseteq> dom (sh_objs s)" "dom (sh_files s') \<subseteq> dom (sh_files s)" "dom (sh_dirs s') \<subseteq> dom (sh_dirs s)"
  shows "accounted F s'"
proof (rule accountedI)
  note a = accountedD [OF assms(1)]
  show "finite (dom (sh_objs s'))" "finite (dom (sh_files s'))" "finite (dom (sh_dirs s'))"
    using a(1-3) assms(6-8) by (auto intro: finite_subset)
  have o: "opened_by (c, r) = None" using assms(3) by (cases c) simp_all
  show "opened {#} (sh_log s') = sh_held s' + F" "closes_valid {#} (sh_log s')"
    using a(5,6) assms(2-4) o by (simp_all add: fd_step_def)
  show "0 \<le> x" if "x \<in># sh_held s' + F" for x using a(4) that assms(2) by auto
  show "unat (sh_dir_id s') + size F \<le> length (sh_log s')" using a(7) assms(4,5) by simp
  show "h \<le> sh_dir_id s'" if "h \<in> dom (sh_dirs s')" for h using a(8) [of h] subsetD [OF assms(8) that] assms(5) by simp
qed

lemma accounted_take:
  assumes "accounted (add_mset fd F) s" "sh_held s' = add_mset fd (sh_held s)" "sh_log s' = sh_log s"
    and "finite (dom (sh_objs s'))" "finite (dom (sh_files s'))" "finite (dom (sh_dirs s'))"
    and "unat (sh_dir_id s') \<le> Suc (unat (sh_dir_id s))" "\<And>h. h \<in> dom (sh_dirs s') \<Longrightarrow> h \<le> sh_dir_id s'"
  shows "accounted F s'"
proof (rule accountedI)
  note a = accountedD [OF assms(1)]
  show "opened {#} (sh_log s') = sh_held s' + F" "closes_valid {#} (sh_log s')" using a(5,6) assms(2,3) by simp_all
  show "0 \<le> x" if "x \<in># sh_held s' + F" for x using a(4) that assms(2) by auto
  show "unat (sh_dir_id s') + size F \<le> length (sh_log s')" using a(7) assms(3,7) by simp
qed (use assms(4-6,8) in simp_all)

lemma accounted_destroy:
  assumes "accounted F s" "sh_objs s r = Some i"
  shows "accounted F (sh_close os (in_path_fd i) (s\<lparr>sh_use := u, sh_objs := (sh_objs s)(r := None)\<rparr>))"
proof -
  have h: "sh_held s = add_mset (in_path_fd i) (sh_held (s\<lparr>sh_use := u, sh_objs := (sh_objs s)(r := None)\<rparr>))"
    using map_fds_remove [OF accountedD(1) [OF assms(1)] assms(2), of in_path_fd] by (simp add: sh_held_def)
  then have "in_path_fd i \<ge> 0" using accountedD(4) [OF assms(1)] by simp
  with h show ?thesis
    by (intro accounted_give_up [OF assms(1), where fd = "in_path_fd i" and c = "Close (in_path_fd i)"])
      (auto simp: sh_close_def)
qed

lemma accounted_new_obj:
  assumes "accounted (add_mset fd F) s" "sh_objs s r = None" "in_path_fd i = fd"
  shows "accounted F (s\<lparr>sh_next := n, sh_objs := (sh_objs s)(r \<mapsto> i), sh_use := u, sh_map := mp\<rparr>)"
  by (rule accounted_take [OF assms(1)])
    (use accountedD [OF assms(1)] assms(2,3) in \<open>simp_all add: sh_held_def map_fds_new\<close>)

lemma accounted_update_obj:
  assumes "accounted F s" "sh_objs s r = Some i" "in_path_fd i' = in_path_fd i"
  shows "accounted F (s\<lparr>sh_objs := (sh_objs s)(r \<mapsto> i')\<rparr>)"
proof -
  have "sh_held (s\<lparr>sh_objs := (sh_objs s)(r \<mapsto> i')\<rparr>) = sh_held s"
    using map_fds_update [OF accountedD(1) [OF assms(1)] assms(2,3)] by (simp add: sh_held_def)
  with accountedD [OF assms(1)] show ?thesis by (intro accountedI) simp_all
qed

lemma accounted_file_new:
  assumes "accounted (add_mset fd F) s"
  shows "accounted F (case sh_files s h of
     None \<Rightarrow> s\<lparr>sh_file_id := h, sh_files := (sh_files s)(h \<mapsto> fd)\<rparr>
   | Some _ \<Rightarrow> sh_close os fd (s\<lparr>sh_file_id := h\<rparr>))"
proof (cases "sh_files s h")
  case None
  have "accounted F (s\<lparr>sh_file_id := h, sh_files := (sh_files s)(h \<mapsto> fd)\<rparr>)"
    by (rule accounted_take [OF assms])
      (use accountedD [OF assms] None in \<open>simp_all add: sh_held_def map_fds_new\<close>)
  with None show ?thesis by simp
next
  case (Some x)
  have "fd \<ge> 0" using accountedD(4) [OF assms] by simp
  with accounted_closed [of fd F "s\<lparr>sh_file_id := h\<rparr>" "Close fd"] assms Some show ?thesis by (simp add: sh_close_def)
qed

lemma accounted_file_erase:
  assumes "accounted F s" "sh_files s h = Some fd"
  shows "accounted F (sh_close os fd (s\<lparr>sh_files := (sh_files s)(h := None)\<rparr>))"
proof -
  have h: "sh_held s = add_mset fd (sh_held (s\<lparr>sh_files := (sh_files s)(h := None)\<rparr>))"
    using map_fds_remove [OF accountedD(2) [OF assms(1)] assms(2), of id] by (simp add: sh_held_def)
  then have "fd \<ge> 0" using accountedD(4) [OF assms(1)] by simp
  with h show ?thesis
    by (intro accounted_give_up [OF assms(1), where fd = fd and c = "Close fd"]) (auto simp: sh_close_def)
qed

lemma accounted_dir_erase:
  assumes "accounted F s" "sh_dirs s h = Some d"
  shows "accounted F (s\<lparr>sh_log := sh_log s @ [(Closedir d, r)], sh_dirs := (sh_dirs s)(h := None)\<rparr>)"
proof -
  have h: "sh_held s = add_mset d (sh_held (s\<lparr>sh_log := sh_log s @ [(Closedir d, r)], sh_dirs := (sh_dirs s)(h := None)\<rparr>))"
    using map_fds_remove [OF accountedD(3) [OF assms(1)] assms(2), of id] by (simp add: sh_held_def)
  then show ?thesis
    by (intro accounted_give_up [OF assms(1), where fd = d and c = "Closedir d"]) auto
qed

text \<open>A new directory handle is new as long as the counter does not wrap around.\<close>

lemma dir_id_new:
  assumes "accounted (add_mset fd F) s" "length (sh_log s) < 2 ^ 64"
  shows "unat (sh_dir_id s + 1) = unat (sh_dir_id s) + 1" "sh_dirs s (sh_dir_id s + 1) = None"
    "h \<in> dom (sh_dirs s) \<Longrightarrow> h \<le> sh_dir_id s + 1"
proof -
  note a = accountedD [OF assms(1)]
  show suc: "unat (sh_dir_id s + 1) = unat (sh_dir_id s) + 1"
    using a(7) assms(2) by (simp add: unat_word_ariths)
  then have lt: "sh_dir_id s < sh_dir_id s + 1" by (simp add: word_less_nat_alt)
  show "sh_dirs s (sh_dir_id s + 1) = None"
  proof (rule ccontr)
    assume "sh_dirs s (sh_dir_id s + 1) \<noteq> None"
    then have "sh_dir_id s + 1 \<le> sh_dir_id s" by (intro a(8)) (simp add: domIff)
    with lt show False by simp
  qed
  show "h \<in> dom (sh_dirs s) \<Longrightarrow> h \<le> sh_dir_id s + 1" using a(8) [of h] lt by simp
qed

lemma accounted_dir_new:
  assumes "accounted (add_mset fd F) s" "length (sh_log s) < 2 ^ 64"
  shows "accounted F (s\<lparr>sh_dir_id := sh_dir_id s + 1, sh_dirs := (sh_dirs s)(sh_dir_id s + 1 \<mapsto> fd)\<rparr>)"
  by (rule accounted_take [OF assms(1)])
    (use accountedD [OF assms(1)] dir_id_new [OF assms] in \<open>auto simp: sh_held_def map_fds_new\<close>)

subsection \<open>One action keeps it\<close>

definition goes_on :: "bool \<Rightarrow> mode \<Rightarrow> (mutex \<times> bool) multiset \<Rightarrow> nat multiset \<Rightarrow> int multiset \<Rightarrow> shared \<Rightarrow> 'a stepped \<Rightarrow> bool" where
  "goes_on rel m locks refs fds s x \<longleftrightarrow> (case x of
     Waits \<Rightarrow> True
   | Fault \<Rightarrow> False
   | Stepped p' s' \<Rightarrow> \<exists>h'. ok p' rel m h' \<and>
       (length (sh_log s') < 2 ^ 64 \<longrightarrow> knows rel h' s' \<and> evolves rel refs s s' \<and>
          consistent (lock_of h' + locks) (hd_refs h' + refs) (hd_fds h' + fds) s'))"

lemma goes_onI:
  assumes "ok p' rel m h'" "length (sh_log s') < 2 ^ 64 \<Longrightarrow> knows rel h' s'"
    and "length (sh_log s') < 2 ^ 64 \<Longrightarrow> evolves rel refs s s'"
    and "length (sh_log s') < 2 ^ 64 \<Longrightarrow> consistent (lock_of h' + locks) (hd_refs h' + refs) (hd_fds h' + fds) s'"
  shows "goes_on rel m locks refs fds s (Stepped p' s')"
  using assms by (auto simp: goes_on_def)

lemma goes_onI':
  assumes "ok p' rel m h'" "knows rel h' s'" "evolves rel refs s s'"
    and "consistent (lock_of h' + locks) (hd_refs h' + refs) (hd_fds h' + fds) s'" "x = Stepped p' s'"
  shows "goes_on rel m locks refs fds s x"
  unfolding assms(5) by (rule goes_onI [OF assms(1)]) (rule assms(2-4))+

lemma goes_Sys:
  assumes "os_ok os" "ok (Sys c k) rel m h" "knows rel h s"
    and "consistent (lock_of h + locks) (hd_refs h + refs) (hd_fds h + fds) s"
  shows "goes_on rel m locks refs fds s (exec os (Sys c k) s)"
proof -
  let ?r = "os_call os (sh_log s) c"
  have r: "\<And>v. ?r = Inr v \<Longrightarrow> v \<ge> 0" using assms(1) by (simp add: os_ok_def)
  have "accounted (hd_fds (after_call c ?r h) + fds) (s\<lparr>sh_log := sh_log s @ [(c, ?r)]\<rparr>)"
    unfolding after_call_def using accounted_call [of "hd_fds h" fds s ?r c] r assms(2,4) by (simp add: consistent_def)
  then have "consistent (lock_of (after_call c ?r h) + locks) (hd_refs (after_call c ?r h) + refs)
      (hd_fds (after_call c ?r h) + fds) (s\<lparr>sh_log := sh_log s @ [(c, ?r)]\<rparr>)"
    using assms(4) by (simp add: consistent_def after_call_def)
  moreover have "knows rel (after_call c ?r h) (s\<lparr>sh_log := sh_log s @ [(c, ?r)]\<rparr>)"
    using assms(3) by (simp add: knows_def after_call_def)
  moreover have "ok (k (sh_log s) ?r) rel m (after_call c ?r h)" using assms(2) r by simp
  moreover have "evolves rel refs s (s\<lparr>sh_log := sh_log s @ [(c, ?r)]\<rparr>)" by (simp add: evolves_def)
  ultimately show ?thesis by (intro goes_onI') (simp_all add: Let_def)
qed

lemma locked_take:
  assumes "locked locks s" "sh_mutex s l = (if x then Readers 0 else Readers n)"
  shows "locked (add_mset (l, x) locks) (s\<lparr>sh_mutex := (sh_mutex s)(l := if x then Writer else Readers (Suc n))\<rparr>)"
proof -
  have "mutex_ok (sh_mutex s l) (count locks (l, True)) (count locks (l, False))"
    using assms(1) by (simp add: locked_def)
  with assms show ?thesis by (cases x) (auto simp: locked_def)
qed

lemma locked_leave:
  assumes "locked (add_mset (l, x) locks) s"
  shows "\<exists>n. sh_mutex s l = (if x then Writer else Readers (Suc n)) \<and>
    locked locks (s\<lparr>sh_mutex := (sh_mutex s)(l := if x then Readers 0 else Readers n)\<rparr>)"
proof -
  have l: "mutex_ok (sh_mutex s l) (count (add_mset (l, x) locks) (l, True)) (count (add_mset (l, x) locks) (l, False))"
    using assms unfolding locked_def by blast
  have rest: "mutex_ok (sh_mutex s l') (count locks (l', True)) (count locks (l', False))" if "l' \<noteq> l" for l'
    using assms that by (auto simp: locked_def dest: spec [of _ l'])
  show ?thesis
  proof (cases x)
    case True
    with l have "sh_mutex s l = Writer" "count locks (l, True) = 0" "count locks (l, False) = 0"
      by (cases "sh_mutex s l"; auto)+
    with rest True show ?thesis by (auto simp: locked_def)
  next
    case False
    with l have "sh_mutex s l = Readers (Suc (count locks (l, False)))" "count locks (l, True) = 0"
      by (cases "sh_mutex s l"; auto)+
    with rest False show ?thesis by (auto simp: locked_def)
  qed
qed

lemma goes_Acquire:
  assumes "ok (Acquire l x p) rel m h" "knows rel h s"
    and "consistent (lock_of h + locks) (hd_refs h + refs) (hd_fds h + fds) s"
  shows "goes_on rel m locks refs fds s (exec os (Acquire l x p) s)"
proof (cases "exec os (Acquire l x p) s")
  case (Stepped p' s')
  then obtain n where n: "sh_mutex s l = (if x then Readers 0 else Readers n)" "p' = p"
      "s' = s\<lparr>sh_mutex := (sh_mutex s)(l := if x then Writer else Readers (Suc n))\<rparr>"
    by (auto split: mutex_state.splits if_splits)
  let ?h = "h\<lparr>hd_mutex := Some (l, x)\<rparr>"
  have "locked (lock_of ?h + locks) s'"
    using locked_take [of "lock_of h + locks", OF _ n(1)] assms(1,3) n(3) by (simp add: consistent_def)
  then have "consistent (lock_of ?h + locks) (hd_refs ?h + refs) (hd_fds ?h + fds) s'"
    using assms(3) n(3) by (simp add: consistent_def)
  moreover have "knows rel ?h s'" "evolves rel refs s s'" using assms(2) n(3) by (simp_all add: knows_def evolves_def)
  moreover have "ok p' rel m ?h" using assms(1) n(2) by simp
  ultimately show ?thesis using Stepped by (metis goes_onI')
qed (auto simp: goes_on_def split: mutex_state.splits if_splits)

lemma goes_Unlock:
  assumes "ok (Unlock l x p) rel m h" "knows rel h s"
    and "consistent (lock_of h + locks) (hd_refs h + refs) (hd_fds h + fds) s"
  shows "goes_on rel m locks refs fds s (exec os (Unlock l x p) s)"
proof -
  obtain n where n: "sh_mutex s l = (if x then Writer else Readers (Suc n))"
      "locked locks (s\<lparr>sh_mutex := (sh_mutex s)(l := if x then Readers 0 else Readers n)\<rparr>)"
    using locked_leave [of l x locks s] assms(1,3) by (auto simp: consistent_def)
  let ?h = "h\<lparr>hd_mutex := None\<rparr>" and ?s = "s\<lparr>sh_mutex := (sh_mutex s)(l := if x then Readers 0 else Readers n)\<rparr>"
  have "exec os (Unlock l x p) s = Stepped p ?s" using n(1) by simp
  moreover have "consistent (lock_of ?h + locks) (hd_refs ?h + refs) (hd_fds ?h + fds) ?s"
    using assms(3) n(2) by (simp add: consistent_def)
  moreover have "knows rel ?h ?s" "evolves rel refs s ?s" using assms(2) by (simp_all add: knows_def evolves_def)
  moreover have "ok p rel m ?h" using assms(1) by simp
  ultimately show ?thesis by (metis goes_onI')
qed

lemma consistentD:
  assumes "consistent L R F s"
  shows "locked L s" "counted R s" "accounted F s" "NodeId_root \<in> dom (sh_map s)"
  using assms by (simp_all add: consistent_def)

lemma knows_fds [simp]: "knows rel (h\<lparr>hd_fds := F\<rparr>) s = knows rel h s"
  by (simp add: knows_def)

lemma evolves_all:
  assumes "evolves rel (hd_refs h + refs) s s'"
  shows "knows rel h s \<Longrightarrow> knows rel h s'" "evolves rel refs s s'"
proof -
  show "knows rel h s \<Longrightarrow> knows rel h s'" using knows_evolves [OF _ assms] by simp
  show "evolves rel refs s s'" using assms by (auto simp: evolves_def)
qed

lemma goes_Find:
  assumes "ok (Find n k) rel m h" "knows rel h s"
    and "consistent (lock_of h + locks) (hd_refs h + refs) (hd_fds h + fds) s"
  shows "goes_on rel m locks refs fds s (exec os (Find n k) s)"
proof (cases "sh_map s n")
  case None
  with assms show ?thesis by (intro goes_onI' [of "k None" rel m h s]) simp_all
next
  case (Some r)
  let ?h = "h\<lparr>hd_refs := add_mset r (hd_refs h), hd_path := (hd_path h)(r := None)\<rparr>"
  let ?s = "s\<lparr>sh_use := (sh_use s)(r := sh_use s r + 1)\<rparr>"
  have "counted (hd_refs ?h + refs) ?s"
    using counted_pin [OF consistentD(2) [OF assms(3)] Some] by simp
  then have "consistent (lock_of ?h + locks) (hd_refs ?h + refs) (hd_fds ?h + fds) ?s"
    using assms(3) by (simp add: consistent_def)
  moreover have "knows rel ?h ?s" "evolves rel refs s ?s"
    using assms(2) by (auto simp: knows_def evolves_def)
  moreover have "ok (k (Some r)) rel m ?h" "exec os (Find n k) s = Stepped (k (Some r)) ?s"
    using assms(1) Some by simp_all
  ultimately show ?thesis by (metis goes_onI')
qed

lemma goes_Deref:
  assumes "ok (Deref r k) rel m h" "knows rel h s"
    and "consistent (lock_of h + locks) (hd_refs h + refs) (hd_fds h + fds) s"
  shows "goes_on rel m locks refs fds s (exec os (Deref r k) s)"
proof -
  have r: "r \<in># hd_refs h" using assms(1) by simp
  then obtain i where i: "sh_objs s r = Some i"
    using counted_alive [OF consistentD(2) [OF assms(3)], of r] by auto
  let ?h = "h\<lparr>hd_path := (hd_path h)(r \<mapsto> in_path_fd i)\<rparr>"
  have "hd_path h r \<in> {None, Some (in_path_fd i)}"
    using assms(2) r i by (cases "hd_path h r") (auto simp: knows_def)
  then have "ok (k (in_path_fd i)) rel m ?h" using assms(1) unfolding ok.simps by blast
  moreover have "knows rel ?h s" using assms(2) i by (auto simp: knows_def)
  moreover have "consistent (lock_of ?h + locks) (hd_refs ?h + refs) (hd_fds ?h + fds) s" using assms(3) by simp
  ultimately show ?thesis using i by (intro goes_onI' [of "k (in_path_fd i)" rel m ?h s]) simp_all
qed

text \<open>Releasing a \<open>shared_ptr\<close> that \<open>r\<close> stands for; the other ones keep their inodes alive.\<close>

lemma unref_accounted:
  assumes "accounted fds s" "unref os r s = Some s'"
  shows "accounted fds s'"
proof -
  obtain i where i: "sh_objs s r = Some i" using assms(2) by (auto simp: unref_def split: option.splits)
  show ?thesis
  proof (cases "sh_use s r = 1")
    case True
    with assms i accounted_destroy [OF assms(1) i, of os] show ?thesis by (auto simp: unref_def)
  qed (use assms i in \<open>auto simp: unref_def\<close>)
qed

lemma unref_frame:
  assumes "unref os r s = Some s'"
  shows "sh_map s' = sh_map s" "sh_files s' = sh_files s" "sh_dirs s' = sh_dirs s" "sh_mutex s' = sh_mutex s"
    "q \<noteq> r \<Longrightarrow> sh_objs s' q = sh_objs s q" "sh_objs s' r \<noteq> None \<Longrightarrow> sh_objs s' r = sh_objs s r"
  using assms by (auto simp: unref_def sh_close_def split: option.splits if_splits)

lemma unref_evolves:
  assumes "unref os r s = Some s'" "counted refs' s'" "refs \<subseteq># refs'"
  shows "evolves rel refs s s'"
proof -
  have "sh_objs s' q = sh_objs s q" if "q \<in># refs" for q
  proof -
    have "sh_objs s' q \<noteq> None" using counted_alive [OF assms(2), of q] mset_subset_eqD [OF assms(3) that] by simp
    then show ?thesis using unref_frame(5,6) [OF assms(1)] by (cases "q = r") auto
  qed
  then show ?thesis using unref_frame(2,3) [OF assms(1)] by (simp add: evolves_def)
qed

lemma goes_Drop:
  assumes "ok (Drop r p) rel m h" "knows rel h s"
    and "consistent (lock_of h + locks) (hd_refs h + refs) (hd_fds h + fds) s"
  shows "goes_on rel m locks refs fds s (exec os (Drop r p) s)"
proof -
  let ?h = "h\<lparr>hd_refs := hd_refs h - {#r#}\<rparr>"
  have "hd_refs h + refs = add_mset r (hd_refs ?h + refs)" using assms(1) by simp
  then have "counted (add_mset r (hd_refs ?h + refs)) s" using consistentD(2) [OF assms(3)] by (simp only:)
  from counted_unref [OF this, of os] obtain s' where
    s': "unref os r s = Some s'" "counted (hd_refs ?h + refs) s'" by blast
  have "consistent (lock_of ?h + locks) (hd_refs ?h + refs) (hd_fds ?h + fds) s'"
    using consistentD [OF assms(3)] s'(2) unref_accounted [OF _ s'(1)] unref_frame [OF s'(1)]
    by (simp add: consistent_def locked_def)
  moreover have "evolves rel refs s s'" by (rule unref_evolves [OF s']) simp
  moreover have "evolves rel (hd_refs ?h) s s'" by (rule unref_evolves [OF s']) simp
  then have "knows rel ?h s'"
    by (rule knows_evolves [rotated]) (use assms(2) in \<open>auto simp: knows_def dest: in_diffD\<close>)
  moreover have "ok p rel m ?h" "exec os (Drop r p) s = Stepped p s'"
    using assms(1) s'(1) by (simp_all add: exec_unref_def)
  ultimately show ?thesis by (metis goes_onI')
qed

lemma goes_Tab_insert:
  assumes "ok (Tab_insert fd ino k) rel m h" "knows rel h s"
    and "consistent (lock_of h + locks) (hd_refs h + refs) (hd_fds h + fds) s"
  shows "goes_on rel m locks refs fds s (exec os (Tab_insert fd ino k) s)"
proof (cases "sh_map s ino")
  case None
  let ?h = "h\<lparr>hd_fds := hd_fds h - {#fd#}\<rparr>" and ?i = "\<lparr>in_path_fd = fd, in_nlookup = 1\<rparr>"
  let ?s = "s\<lparr>sh_next := Suc (sh_next s), sh_objs := (sh_objs s)(sh_next s \<mapsto> ?i),
    sh_use := (sh_use s)(sh_next s := 1), sh_map := (sh_map s)(ino \<mapsto> sh_next s)\<rparr>"
  note c = consistentD [OF assms(3)] and new = counted_fresh [OF consistentD(2) [OF assms(3)]]
  have "hd_fds h + fds = add_mset fd (hd_fds ?h + fds)" using assms(1) by simp
  with c(3) have "accounted (add_mset fd (hd_fds ?h + fds)) s" by (simp only:)
  from accounted_new_obj [OF this new(3)] have "accounted (hd_fds ?h + fds) ?s" by simp
  with counted_new [OF c(2) None, of ?i] c
  have "consistent (lock_of ?h + locks) (hd_refs ?h + refs) (hd_fds ?h + fds) ?s"
    by (simp add: consistent_def)
  moreover have "evolves rel (hd_refs h + refs) s ?s"
    using new(2) by (auto simp: evolves_def)
  then have "knows rel ?h ?s" "evolves rel refs s ?s"
    using evolves_all assms(2) by simp_all
  moreover have "ok (k True) rel m ?h" "exec os (Tab_insert fd ino k) s = Stepped (k True) ?s"
    using assms(1) None by (simp_all add: exec_insert_def Let_def)
  ultimately show ?thesis by (metis goes_onI')
next
  case (Some r)
  note c = consistentD [OF assms(3)]
  have "r \<in> ran (sh_map s)" using Some by (auto simp: ran_def)
  then obtain i where i: "sh_objs s r = Some i" using counted_alive [OF c(2), of r] by auto
  let ?i = "i\<lparr>in_nlookup := in_nlookup i + 1\<rparr>"
  let ?s = "s\<lparr>sh_objs := (sh_objs s)(r \<mapsto> ?i)\<rparr>"
  have "consistent (lock_of h + locks) (hd_refs h + refs) (hd_fds h + fds) ?s"
    using c counted_update [OF c(2) i, of ?i] accounted_update_obj [OF c(3) i, of ?i] by (simp add: consistent_def)
  moreover have "evolves rel (hd_refs h + refs) s ?s" using i by (auto simp: evolves_def)
  then have "knows rel h ?s" "evolves rel refs s ?s"
    using evolves_all assms(2) by blast+
  moreover have "ok (k False) rel m h" "exec os (Tab_insert fd ino k) s = Stepped (k False) ?s"
    using assms(1) Some i by (simp_all add: exec_insert_def)
  ultimately show ?thesis by (metis goes_onI')
qed

lemma goes_Tab_forget:
  assumes "ok (Tab_forget key n p) rel m h" "knows rel h s"
    and "consistent (lock_of h + locks) (hd_refs h + refs) (hd_fds h + fds) s"
  shows "goes_on rel m locks refs fds s (exec os (Tab_forget key n p) s)"
proof (cases "sh_map s key")
  case None
  with assms show ?thesis by (intro goes_onI' [of p rel m h s]) (simp_all add: exec_forget_def)
next
  case (Some r)
  note c = consistentD [OF assms(3)]
  have "r \<in> ran (sh_map s)" using Some by (auto simp: ran_def)
  then obtain i where i: "sh_objs s r = Some i" using counted_alive [OF c(2), of r] by auto
  let ?nl = "if n \<ge> in_nlookup i then 0 else in_nlookup i - n"
  let ?i = "i\<lparr>in_nlookup := ?nl\<rparr>"
  let ?s = "s\<lparr>sh_objs := (sh_objs s)(r \<mapsto> ?i)\<rparr>"
  have c1: "counted (hd_refs h + refs) ?s" "accounted (hd_fds h + fds) ?s"
    using counted_update [OF c(2) i, of ?i] accounted_update_obj [OF c(3) i, of ?i] by simp_all
  have ev: "evolves rel (hd_refs h + refs) s ?s" using i by (auto simp: evolves_def)
  have ok: "ok p rel m h" using assms(1) by simp
  show ?thesis
  proof (cases "?nl = 0")
    case False
    have "consistent (lock_of h + locks) (hd_refs h + refs) (hd_fds h + fds) ?s"
      using c c1 by (simp add: consistent_def)
    moreover have "knows rel h ?s" "evolves rel refs s ?s"
      using evolves_all [OF ev] assms(2) by simp_all
    moreover have "exec os (Tab_forget key n p) s = Stepped p ?s"
      using Some i False by (simp add: exec_forget_def Let_def)
    ultimately show ?thesis using ok by (metis goes_onI')
  next
    case True
    let ?s1 = "?s\<lparr>sh_map := (sh_map s)(key := None)\<rparr>"
    have "counted (add_mset r (hd_refs h + refs)) ?s1" using counted_unmap [OF c1(1)] Some by simp
    from counted_unref [OF this, of os] obtain s' where
      s': "unref os r ?s1 = Some s'" "counted (hd_refs h + refs) s'" by blast
    have key: "NodeId_root \<in> dom (sh_map s')"
      using c(4) assms(1) unref_frame(1) [OF s'(1)] by (auto simp: domIff)
    have "consistent (lock_of h + locks) (hd_refs h + refs) (hd_fds h + fds) s'"
      using c(1) c1(2) s'(2) unref_accounted [OF _ s'(1)] unref_frame(4) [OF s'(1)] key
      by (simp add: consistent_def locked_def)
    moreover have "evolves rel (hd_refs h + refs) ?s1 s'" by (rule unref_evolves [OF s']) simp
    with ev have ev': "evolves rel (hd_refs h + refs) s s'" by (auto simp: evolves_def)
    then have "knows rel h s'" "evolves rel refs s s'"
      using evolves_all [OF ev'] assms(2) by simp_all
    moreover have "exec os (Tab_forget key n p) s = Stepped p s'"
      using Some i True s'(1) by (simp add: exec_forget_def exec_unref_def Let_def)
    ultimately show ?thesis using ok by (metis goes_onI')
  qed
qed

text \<open>Actions on the handle tables.\<close>

lemma goes_handle:
  assumes "ok p' rel m h'" "knows rel h s" "length (sh_log s') < 2 ^ 64 \<Longrightarrow> accounted (hd_fds h' + fds) s'"
    and "consistent (lock_of h + locks) (hd_refs h + refs) (hd_fds h + fds) s"
    and "hd_mutex h' = hd_mutex h" "hd_refs h' = hd_refs h" "hd_path h' = hd_path h"
    and "length (sh_log s') < 2 ^ 64 \<Longrightarrow> rel \<or> hd_lent h' \<subseteq> ran (sh_files s') \<union> ran (sh_dirs s')"
    and "sh_mutex s' = sh_mutex s" "sh_objs s' = sh_objs s" "sh_use s' = sh_use s" "sh_next s' = sh_next s" "sh_map s' = sh_map s"
    and "length (sh_log s') < 2 ^ 64 \<Longrightarrow> rel \<or> ran (sh_files s) \<subseteq> ran (sh_files s') \<and> ran (sh_dirs s) \<subseteq> ran (sh_dirs s')"
  shows "goes_on rel m locks refs fds s (Stepped p' s')"
proof (rule goes_onI [OF assms(1)])
  assume l: "length (sh_log s') < 2 ^ 64"
  show "knows rel h' s'" using assms(2,6,7,10) assms(8) [OF l] by (simp add: knows_def)
  show "evolves rel refs s s'" using assms(10) assms(14) [OF l] by (simp add: evolves_def)
  show "consistent (lock_of h' + locks) (hd_refs h' + refs) (hd_fds h' + fds) s'"
    using assms(3) [OF l] assms(4-6,9-13) by (simp add: consistent_def locked_def counted_def lock_of_def)
qed

lemma goes_File_find:
  assumes "ok (File_find fh k) rel m h" "knows rel h s"
    and "consistent (lock_of h + locks) (hd_refs h + refs) (hd_fds h + fds) s"
  shows "goes_on rel m locks refs fds s (exec os (File_find fh k) s)"
proof (cases "sh_files s fh")
  case None
  with assms show ?thesis by (intro goes_onI' [of "k None" rel m h s]) simp_all
next
  case (Some fd)
  note a = consistentD(3) [OF assms(3)]
  have "fd \<ge> 0"
    using accountedD(4) [OF a, of fd] map_fds_remove [OF accountedD(2) [OF a] Some, of id] by (simp add: sh_held_def)
  with assms(1) have "ok (k (Some fd)) rel m (h\<lparr>hd_lent := insert fd (hd_lent h)\<rparr>)" by simp
  then have "goes_on rel m locks refs fds s (Stepped (k (Some fd)) s)"
    by (rule goes_handle [OF _ assms(2) _ assms(3)])
      (use a assms(2) Some in \<open>auto simp: knows_def ran_def\<close>)
  with Some show ?thesis by simp
qed

lemma goes_Dir_find:
  assumes "ok (Dir_find fh k) rel m h" "knows rel h s"
    and "consistent (lock_of h + locks) (hd_refs h + refs) (hd_fds h + fds) s"
  shows "goes_on rel m locks refs fds s (exec os (Dir_find fh k) s)"
proof (cases "sh_dirs s fh")
  case None
  with assms show ?thesis by (intro goes_onI' [of "k None" rel m h s]) simp_all
next
  case (Some d)
  with assms(1) have "ok (k (Some d)) rel m (h\<lparr>hd_lent := insert d (hd_lent h)\<rparr>)" by simp
  then have "goes_on rel m locks refs fds s (Stepped (k (Some d)) s)"
    by (rule goes_handle [OF _ assms(2) _ assms(3)])
      (use consistentD(3) [OF assms(3)] assms(2) Some in \<open>auto simp: knows_def ran_def\<close>)
  with Some show ?thesis by simp
qed

lemma fds_handed_over: "fd \<in># hd_fds h \<Longrightarrow> accounted (hd_fds h + fds) s \<Longrightarrow> accounted (add_mset fd (hd_fds h - {#fd#} + fds)) s"
  by (metis add_mset_add_single insert_DiffM union_mset_add_mset_left)

lemma goes_File_new:
  assumes "ok (File_new fd k) rel m h" "knows rel h s"
    and "consistent (lock_of h + locks) (hd_refs h + refs) (hd_fds h + fds) s"
  shows "goes_on rel m locks refs fds s (exec os (File_new fd k) s)"
proof -
  let ?n = "sh_file_id s + 1" and ?h = "h\<lparr>hd_fds := hd_fds h - {#fd#}\<rparr>"
  let ?s = "case sh_files s ?n of
      None \<Rightarrow> s\<lparr>sh_file_id := ?n, sh_files := (sh_files s)(?n \<mapsto> fd)\<rparr> | Some _ \<Rightarrow> sh_close os fd (s\<lparr>sh_file_id := ?n\<rparr>)"
  have fr: "sh_mutex ?s = sh_mutex s" "sh_objs ?s = sh_objs s" "sh_use ?s = sh_use s" "sh_next ?s = sh_next s"
    "sh_map ?s = sh_map s" "sh_dirs ?s = sh_dirs s" "ran (sh_files s) \<subseteq> ran (sh_files ?s)"
    by (simp_all add: sh_close_def subset_insertI split: option.split)
  have "accounted (hd_fds ?h + fds) ?s"
    using accounted_file_new [OF fds_handed_over [OF _ consistentD(3) [OF assms(3)]], of fd ?n os] assms(1) by simp
  then have "goes_on rel m locks refs fds s (Stepped (k ?n) ?s)"
    using assms(1,2) fr by (intro goes_handle [of _ _ _ ?h h, OF _ assms(2) _ assms(3)]) (auto simp: knows_def)
  then show ?thesis by (cases "sh_files s ?n") (simp_all add: Let_def)
qed

lemma goes_File_erase:
  assumes "ok (File_erase fh p) rel m h" "knows rel h s"
    and "consistent (lock_of h + locks) (hd_refs h + refs) (hd_fds h + fds) s"
  shows "goes_on rel m locks refs fds s (exec os (File_erase fh p) s)"
proof (cases "sh_files s fh")
  case None
  from assms(1) have "ok p rel m h" by auto
  with assms(2,3) None show ?thesis by (intro goes_onI' [of p rel m h s]) simp_all
next
  case (Some fd)
  have "goes_on rel m locks refs fds s (Stepped p (sh_close os fd (s\<lparr>sh_files := (sh_files s)(fh := None)\<rparr>)))"
    by (rule goes_handle [of _ _ _ h h, OF _ assms(2) _ assms(3)])
      (use accounted_file_erase [OF consistentD(3) [OF assms(3)] Some] assms(1) in auto)
  with Some show ?thesis by simp
qed

lemma goes_Dir_new:
  assumes "ok (Dir_new fd k) rel m h" "knows rel h s"
    and "consistent (lock_of h + locks) (hd_refs h + refs) (hd_fds h + fds) s"
  shows "goes_on rel m locks refs fds s (exec os (Dir_new fd k) s)"
proof -
  let ?n = "sh_dir_id s + 1" and ?h = "h\<lparr>hd_fds := hd_fds h - {#fd#}\<rparr>"
  let ?s = "s\<lparr>sh_dir_id := ?n, sh_dirs := (sh_dirs s)(?n \<mapsto> fd)\<rparr>"
  note a = consistentD(3) [OF assms(3)]
  have acc: "accounted (hd_fds ?h + fds) ?s" if "length (sh_log s) < 2 ^ 64"
    using accounted_dir_new [OF fds_handed_over [OF _ a], of fd] assms(1) that by simp
  have new: "sh_dirs s ?n = None" if "length (sh_log s) < 2 ^ 64"
    using dir_id_new [OF fds_handed_over [OF _ a], of fd] assms(1) that by simp
  have ran: "ran (sh_dirs s) \<subseteq> ran (sh_dirs ?s)" if "length (sh_log s) < 2 ^ 64"
    using new [OF that] by auto
  have "goes_on rel m locks refs fds s (Stepped (k ?n) ?s)"
    by (rule goes_handle [of _ _ _ ?h h, OF _ assms(2) _ assms(3)])
      (use acc ran assms(1,2) in \<open>auto simp: knows_def\<close>)
  then show ?thesis by (simp add: Let_def)
qed

lemma goes_Dir_erase:
  assumes "ok (Dir_erase fh p) rel m h" "knows rel h s"
    and "consistent (lock_of h + locks) (hd_refs h + refs) (hd_fds h + fds) s"
  shows "goes_on rel m locks refs fds s (exec os (Dir_erase fh p) s)"
proof (cases "sh_dirs s fh")
  case None
  from assms(1) have "ok p rel m h" by auto
  with assms(2,3) None show ?thesis by (intro goes_onI' [of p rel m h s]) simp_all
next
  case (Some d)
  let ?r = "os_call os (sh_log s) (Closedir d)"
  have "goes_on rel m locks refs fds s (Stepped p (s\<lparr>sh_log := sh_log s @ [(Closedir d, ?r)], sh_dirs := (sh_dirs s)(fh := None)\<rparr>))"
    by (rule goes_handle [of _ _ _ h h, OF _ assms(2) _ assms(3)])
      (use accounted_dir_erase [OF consistentD(3) [OF assms(3)] Some] assms(1) in auto)
  with Some show ?thesis by simp
qed

lemma exec_goes_on:
  assumes "os_ok os" "ok p rel m h" "knows rel h s"
    and "consistent (lock_of h + locks) (hd_refs h + refs) (hd_fds h + fds) s"
  shows "goes_on rel m locks refs fds s (exec os p s)"
proof (cases p)
  case (Ret x)
  then show ?thesis by (simp add: goes_on_def)
next
  case (Sys c k)
  show ?thesis unfolding Sys by (rule goes_Sys [OF assms(1) assms(2) [unfolded Sys] assms(3,4)])
next
  case (Acquire l x q)
  show ?thesis unfolding Acquire by (rule goes_Acquire [OF assms(2) [unfolded Acquire] assms(3,4)])
next
  case (Unlock l x q)
  show ?thesis unfolding Unlock by (rule goes_Unlock [OF assms(2) [unfolded Unlock] assms(3,4)])
next
  case (Find n k)
  show ?thesis unfolding Find by (rule goes_Find [OF assms(2) [unfolded Find] assms(3,4)])
next
  case (Deref r k)
  show ?thesis unfolding Deref by (rule goes_Deref [OF assms(2) [unfolded Deref] assms(3,4)])
next
  case (Drop r q)
  show ?thesis unfolding Drop by (rule goes_Drop [OF assms(2) [unfolded Drop] assms(3,4)])
next
  case (Tab_insert fd ino k)
  show ?thesis unfolding Tab_insert by (rule goes_Tab_insert [OF assms(2) [unfolded Tab_insert] assms(3,4)])
next
  case (Tab_forget key n q)
  show ?thesis unfolding Tab_forget by (rule goes_Tab_forget [OF assms(2) [unfolded Tab_forget] assms(3,4)])
next
  case (File_find fh k)
  show ?thesis unfolding File_find by (rule goes_File_find [OF assms(2) [unfolded File_find] assms(3,4)])
next
  case (File_new fd k)
  show ?thesis unfolding File_new by (rule goes_File_new [OF assms(2) [unfolded File_new] assms(3,4)])
next
  case (File_erase fh q)
  show ?thesis unfolding File_erase by (rule goes_File_erase [OF assms(2) [unfolded File_erase] assms(3,4)])
next
  case (Dir_find fh k)
  show ?thesis unfolding Dir_find by (rule goes_Dir_find [OF assms(2) [unfolded Dir_find] assms(3,4)])
next
  case (Dir_new fd k)
  show ?thesis unfolding Dir_new by (rule goes_Dir_new [OF assms(2) [unfolded Dir_new] assms(3,4)])
next
  case (Dir_erase fh q)
  show ?thesis unfolding Dir_erase by (rule goes_Dir_erase [OF assms(2) [unfolded Dir_erase] assms(3,4)])
qed

end
