(* ===== verification/Passthrough_Races.thy ===== *)
theory Passthrough_Races
  imports Passthrough_Shared Passthrough_Safe
begin

text \<open>
  The threads of the passthrough daemon (\<open>examples/passthrough.cpp\<close>), interleaved in any order,
  one action at a time. The invariant gives each thread what it holds; the properties are read
  off it: no undefined behaviour, no descriptor closed twice or leaked, system calls on open
  descriptors, no data race on the tables, no deadlock, and agreement with the sequential
  model for callbacks that do not overlap.
\<close>

subsection \<open>Interleaving\<close>

text \<open>
  Any number of threads; each is idle or serves a request. A schedule says who is given a
  request and who acts; an event that is not possible (a blocked mutex) ends the run with
  \<^term>\<open>None\<close>.
\<close>

datatype thread = Idle | Busy pt_request "pt_result prog" | Crashed

datatype event = Start nat pt_request | Act nat | Finish nat

definition conc_act :: "os \<Rightarrow> nat \<Rightarrow> pt_request \<Rightarrow> pt_result prog \<Rightarrow> shared \<times> thread list \<Rightarrow> (shared \<times> thread list) option" where
  "conc_act os i q p cfg = (case exec os p (fst cfg) of
     Stepped p' s' \<Rightarrow> Some (s', (snd cfg)[i := Busy q p'])
   | Waits \<Rightarrow> None
   | Fault \<Rightarrow> Some (fst cfg, (snd cfg)[i := Crashed]))"

definition thread_at :: "thread list \<Rightarrow> nat \<Rightarrow> thread" where
  "thread_at ths i = (if i < length ths then ths ! i else Crashed)"

fun conc_do :: "os \<Rightarrow> event \<Rightarrow> shared \<times> thread list \<Rightarrow> (shared \<times> thread list) option" where
  "conc_do os (Start i q) (s, ths) = (case thread_at ths i of
     Idle \<Rightarrow> Some (s, ths[i := Busy q (callback os q)]) | _ \<Rightarrow> None)"
| "conc_do os (Act i) (s, ths) = (case thread_at ths i of
     Busy q p \<Rightarrow> conc_act os i q p (s, ths) | _ \<Rightarrow> None)"
| "conc_do os (Finish i) (s, ths) = (case thread_at ths i of
     Busy q (Ret x) \<Rightarrow> Some (s, ths[i := Idle]) | _ \<Rightarrow> None)"

fun conc_run :: "os \<Rightarrow> event list \<Rightarrow> shared \<times> thread list \<Rightarrow> (shared \<times> thread list) option" where
  "conc_run os [] cfg = Some cfg"
| "conc_run os (e # es) cfg = (case conc_do os e cfg of None \<Rightarrow> None | Some cfg' \<Rightarrow> conc_run os es cfg')"

definition conc_init :: "nat \<Rightarrow> path \<Rightarrow> u32 \<Rightarrow> int \<Rightarrow> shared \<times> thread list" where
  "conc_init n p fl backing = (shared_new backing [(Open p fl, Inr backing)], replicate n Idle)"

text \<open>Sums over the threads.\<close>

definition summed :: "(holding \<Rightarrow> 'a multiset) \<Rightarrow> holding list \<Rightarrow> 'a multiset" where
  "summed f hs = sum_list (map f hs)"

definition others :: "nat \<Rightarrow> holding list \<Rightarrow> holding list" where
  "others i hs = take i hs @ drop (Suc i) hs"

lemma summed_split: "i < length hs \<Longrightarrow> summed f hs = f (hs ! i) + summed f (others i hs)"
  unfolding summed_def others_def by (subst id_take_nth_drop [of i hs]) (simp_all add: ac_simps)

lemma summed_update: "i < length hs \<Longrightarrow> summed f (hs[i := h]) = f h + summed f (others i hs)"
  unfolding summed_def others_def by (simp add: upd_conv_take_nth_drop ac_simps)

lemma summed_member: "h \<in> set hs \<Longrightarrow> f h \<subseteq># summed f hs"
  unfolding summed_def by (induction hs) (auto intro: subset_mset.add_increasing subset_mset.add_increasing2)

lemma others_sub: "set (others i hs) \<subseteq> set hs"
  by (auto simp: others_def dest: in_set_takeD in_set_dropD)

lemma set_update: "i < length hs \<Longrightarrow> set (hs[i := h]) = insert h (set (others i hs))"
  by (simp add: others_def upd_conv_take_nth_drop)

fun thread_ok :: "bool \<Rightarrow> thread \<Rightarrow> holding \<Rightarrow> bool" where
  "thread_ok rel Idle h \<longleftrightarrow> h = nothing"
| "thread_ok rel (Busy q p) h \<longleftrightarrow> ok p rel (mode_of q) h"
| "thread_ok rel Crashed h \<longleftrightarrow> False"

definition conc_inv :: "bool \<Rightarrow> holding list \<Rightarrow> shared \<times> thread list \<Rightarrow> bool" where
  "conc_inv rel hs cfg \<longleftrightarrow> list_all2 (thread_ok rel) (snd cfg) hs \<and>
     consistent (summed lock_of hs) (summed hd_refs hs) (summed hd_fds hs) (fst cfg) \<and>
     (\<forall>h \<in> set hs. knows rel h (fst cfg))"

lemma exec_log: "exec os p s = Stepped p' s' \<Longrightarrow> \<exists>l. sh_log s' = sh_log s @ l"
  by (cases p) (auto simp: Let_def exec_unref_def exec_forget_def exec_insert_def unref_def sh_close_def
      split: option.splits mutex_state.splits if_splits)

lemma knows_nothing [simp]: "knows rel nothing s"
  by (simp add: knows_def nothing_def)

lemma nothing_sel [simp]: "lock_of nothing = {#}" "hd_refs nothing = {#}" "hd_fds nothing = {#}" "hd_mutex nothing = None"
  by (simp_all add: nothing_def)

lemma conc_inv_act:
  assumes "conc_inv rel hs (s, ths)" "i < length ths" "ths ! i = Busy q p" "os_ok os"
    and "conc_act os i q p (s, ths) = Some (s', ths')" "length (sh_log s') < 2 ^ 64"
  shows "\<exists>hs'. conc_inv rel hs' (s', ths')"
proof -
  have th: "list_all2 (thread_ok rel) ths hs" and kn: "\<forall>h \<in> set hs. knows rel h s"
    and c: "consistent (summed lock_of hs) (summed hd_refs hs) (summed hd_fds hs) s"
    using assms(1) by (simp_all add: conc_inv_def)
  have i: "i < length hs" using th assms(2) by (simp add: list_all2_lengthD)
  let ?h = "hs ! i" and ?o = "others i hs"
  have ok: "ok p rel (mode_of q) ?h" using list_all2_nthD [OF th assms(2)] assms(3) by simp
  have "goes_on rel (mode_of q) (summed lock_of ?o) (summed hd_refs ?o) (summed hd_fds ?o) s (exec os p s)"
    by (rule exec_goes_on [OF assms(4) ok]) (use kn i c in \<open>simp_all add: summed_split [OF i]\<close>)
  moreover from this assms(5) obtain p' where p': "exec os p s = Stepped p' s'" "ths' = ths[i := Busy q p']"
    by (cases "exec os p s") (auto simp: conc_act_def goes_on_def)
  ultimately obtain h' where h': "ok p' rel (mode_of q) h'" "knows rel h' s'" "evolves rel (summed hd_refs ?o) s s'"
      "consistent (lock_of h' + summed lock_of ?o) (hd_refs h' + summed hd_refs ?o) (hd_fds h' + summed hd_fds ?o) s'"
    using assms(6) by (auto simp: goes_on_def)
  have "knows rel h s'" if "h \<in> set ?o" for h
    by (rule knows_evolves [OF _ h'(3) summed_member [OF that]]) (use kn that others_sub in blast)
  then have "\<forall>h \<in> set (hs[i := h']). knows rel h s'" using h'(2) i by (simp add: set_update)
  moreover have "list_all2 (thread_ok rel) ths' (hs[i := h'])"
    unfolding p'(2) by (rule list_all2_update_cong [OF th]) (use h'(1) in simp)
  ultimately have "conc_inv rel (hs[i := h']) (s', ths')"
    using h'(4) i by (simp add: conc_inv_def summed_update)
  then show ?thesis ..
qed

lemma conc_inv_thread:
  assumes "conc_inv rel hs (s, ths)" "i < length ths" "thread_ok rel t h'"
    and "lock_of h' = lock_of (hs ! i)" "hd_refs h' = hd_refs (hs ! i)" "hd_fds h' = hd_fds (hs ! i)" "knows rel h' s"
  shows "conc_inv rel (hs[i := h']) (s, ths[i := t])"
proof -
  have th: "list_all2 (thread_ok rel) ths hs" using assms(1) by (simp add: conc_inv_def)
  have i: "i < length hs" using th assms(2) by (simp add: list_all2_lengthD)
  have "\<forall>h \<in> set (hs[i := h']). knows rel h s"
    using assms(1,7) others_sub [of i hs] i by (auto simp: conc_inv_def set_update)
  with assms i th show ?thesis
    by (simp add: conc_inv_def summed_update summed_split [OF i] list_all2_update_cong)
qed

lemma conc_inv_do:
  assumes "conc_inv rel hs cfg" "os_ok os" "conc_do os e cfg = Some cfg'" "length (sh_log (fst cfg')) < 2 ^ 64"
    and "\<And>i q. e = Start i q \<Longrightarrow> releases q \<Longrightarrow> rel"
  shows "\<exists>hs'. conc_inv rel hs' cfg'"
proof -
  obtain s ths where cfg: "cfg = (s, ths)" by fastforce
  have th: "list_all2 (thread_ok rel) ths hs" using assms(1) by (simp add: conc_inv_def cfg)
  have at: "i < length ths \<and> ths ! i = t \<and> thread_ok rel t (hs ! i)" if "thread_at ths i = t" "t \<noteq> Crashed" for i t
    using that list_all2_nthD [OF th] by (auto simp: thread_at_def split: if_splits)
  show ?thesis
  proof (cases e)
    case (Start i q)
    with assms(3) cfg have t: "thread_at ths i = Idle" and cfg': "cfg' = (s, ths[i := Busy q (callback os q)])"
      by (auto split: thread.splits)
    have "conc_inv rel (hs[i := nothing]) (s, ths[i := Busy q (callback os q)])"
      by (rule conc_inv_thread [OF assms(1) [unfolded cfg]])
        (use at [OF t] callback_ok assms(5) [OF Start] in auto)
    then show ?thesis using cfg' by blast
  next
    case (Act i)
    with assms(3) cfg obtain q p where t: "thread_at ths i = Busy q p" and act: "conc_act os i q p (s, ths) = Some cfg'"
      by (auto split: thread.splits)
    obtain s' ths' where cfg': "cfg' = (s', ths')" by fastforce
    show ?thesis
      using conc_inv_act [OF assms(1) [unfolded cfg] _ _ assms(2) act [unfolded cfg']] at [OF t] assms(4) cfg' by simp
  next
    case (Finish i)
    with assms(3) cfg obtain q x where t: "thread_at ths i = Busy q (Ret x)" and cfg': "cfg' = (s, ths[i := Idle])"
      by (auto split: thread.splits prog.splits)
    have "conc_inv rel (hs[i := nothing]) (s, ths[i := Idle])"
      by (rule conc_inv_thread [OF assms(1) [unfolded cfg]]) (use at [OF t] in \<open>auto simp: lock_of_def\<close>)
    then show ?thesis using cfg' by blast
  qed
qed

lemma conc_do_log:
  assumes "conc_do os e cfg = Some cfg'"
  shows "length (sh_log (fst cfg)) \<le> length (sh_log (fst cfg'))"
proof -
  obtain s ths where [simp]: "cfg = (s, ths)" by fastforce
  show ?thesis
    using assms by (cases e) (auto simp: conc_act_def split: thread.splits prog.splits stepped.splits dest!: exec_log)
qed

lemma conc_run_log: "conc_run os es cfg = Some cfg' \<Longrightarrow> length (sh_log (fst cfg)) \<le> length (sh_log (fst cfg'))"
  by (induction es arbitrary: cfg) (auto split: option.splits dest!: conc_do_log intro: order_trans)

text \<open>A schedule without \<open>RELEASE\<close> and \<open>RELEASEDIR\<close>.\<close>

definition no_release :: "event list \<Rightarrow> bool" where
  "no_release es \<longleftrightarrow> (\<forall>i q. Start i q \<in> set es \<longrightarrow> \<not> releases q)"

lemma conc_inv_run:
  assumes "conc_inv rel hs cfg" "os_ok os" "conc_run os es cfg = Some cfg'" "length (sh_log (fst cfg')) < 2 ^ 64"
    and "rel \<or> no_release es"
  shows "\<exists>hs'. conc_inv rel hs' cfg'"
  using assms
proof (induction es arbitrary: cfg hs)
  case (Cons e es)
  from Cons.prems(3) obtain cfg1 where e: "conc_do os e cfg = Some cfg1" and es: "conc_run os es cfg1 = Some cfg'"
    by (auto split: option.splits)
  have "length (sh_log (fst cfg1)) < 2 ^ 64"
    using conc_run_log [OF es] Cons.prems(4) by simp
  then obtain hs1 where "conc_inv rel hs1 cfg1"
    using conc_inv_do [OF Cons.prems(1,2) e] Cons.prems(5) by (auto simp: no_release_def)
  then show ?case
    by (rule Cons.IH [OF _ Cons.prems(2) es Cons.prems(4)]) (use Cons.prems(5) in \<open>auto simp: no_release_def\<close>)
qed auto

lemma summed_replicate [simp]: "f nothing = {#} \<Longrightarrow> summed f (replicate n nothing) = {#}"
  by (induction n) (simp_all add: summed_def)

lemma conc_inv_init:
  assumes "backing \<ge> 0"
  shows "conc_inv rel (replicate n nothing) (conc_init n p fl backing)"
proof -
  have "locked {#} (shared_new backing [(Open p fl, Inr backing)])"
    by (simp add: locked_def shared_new_def)
  moreover have "counted {#} (shared_new backing [(Open p fl, Inr backing)])"
    by (auto simp: counted_def shared_new_def split: if_splits)
  moreover have "accounted {#} (shared_new backing [(Open p fl, Inr backing)])"
    using assms by (simp add: accounted_def shared_new_def sh_held_def map_fds_def opened_def fd_step_def)
  moreover have "NodeId_root \<in> dom (sh_map (shared_new backing [(Open p fl, Inr backing)]))"
    by (simp add: shared_new_def)
  ultimately show ?thesis
    by (simp add: conc_inv_def conc_init_def consistent_def list_all2_conv_all_nth)
qed

definition reached :: "os \<Rightarrow> int \<Rightarrow> event list \<Rightarrow> shared \<times> thread list \<Rightarrow> bool" where
  "reached os backing es cfg \<longleftrightarrow> os_ok os \<and> backing \<ge> 0 \<and> length (sh_log (fst cfg)) < 2 ^ 64 \<and>
     (\<exists>n p fl. conc_run os es (conc_init n p fl backing) = Some cfg)"

lemma reached_inv: "reached os backing es cfg \<Longrightarrow> rel \<or> no_release es \<Longrightarrow> \<exists>hs. conc_inv rel hs cfg"
  unfolding reached_def by (metis conc_inv_run conc_inv_init)

lemma conc_inv_thread_ok:
  assumes "conc_inv rel hs (s, ths)" "i < length ths"
  shows "i < length hs \<and> thread_ok rel (ths ! i) (hs ! i) \<and> knows rel (hs ! i) s"
  using assms list_all2_nthD [of "thread_ok rel" ths hs i] list_all2_lengthD [of "thread_ok rel" ths hs]
  by (auto simp: conc_inv_def)

lemma conc_inv_idle:
  assumes "conc_inv rel hs (s, ths)" "\<forall>t \<in> set ths. t = Idle"
  shows "consistent {#} {#} {#} s"
proof -
  have l: "length ths = length hs" using assms(1) list_all2_lengthD by (auto simp: conc_inv_def)
  have "hs ! i = nothing" if "i < length hs" for i
  proof -
    have "thread_ok rel (ths ! i) (hs ! i)" using conc_inv_thread_ok [OF assms(1)] that l by simp
    moreover have "ths ! i = Idle" using assms(2) that l by simp
    ultimately show ?thesis by simp
  qed
  then have "hs = replicate (length hs) nothing" by (intro nth_equalityI) auto
  then obtain n where "hs = replicate n nothing" ..
  then show ?thesis using assms(1) by (simp add: conc_inv_def)
qed



lemma summed_two:
  assumes "i < length hs" "j < length hs" "i \<noteq> j"
  shows "f (hs ! i) + f (hs ! j) \<subseteq># summed f hs"
proof -
  have "hs ! j \<in> set (others i hs)"
  proof (cases "j < i")
    case True
    with assms have "hs ! j = take i hs ! j" "j < length (take i hs)" by auto
    then show ?thesis by (metis Un_iff nth_mem others_def set_append)
  next
    case False
    with assms have "hs ! j = drop (Suc i) hs ! (j - Suc i)" "j - Suc i < length (drop (Suc i) hs)" by auto
    then show ?thesis by (metis Un_iff nth_mem others_def set_append)
  qed
  from summed_member [OF this] show ?thesis by (simp add: summed_split [OF assms(1)])
qed

text \<open>The table an action reads or writes.\<close>

fun touches :: "'a prog \<Rightarrow> (mutex \<times> bool) option" where
  "touches (Find n k) = Some (Mu, False)"
| "touches (Tab_insert fd ino k) = Some (Mu, True)"
| "touches (Tab_forget key n p) = Some (Mu, True)"
| "touches (File_find fh k) = Some (Files_mu, False)"
| "touches (File_new fd k) = Some (Files_mu, True)"
| "touches (File_erase fh p) = Some (Files_mu, True)"
| "touches (Dir_find fh k) = Some (Dirs_mu, False)"
| "touches (Dir_new fd k) = Some (Dirs_mu, True)"
| "touches (Dir_erase fh p) = Some (Dirs_mu, True)"
| "touches _ = None"

lemma ok_touches: "ok p rel m h \<Longrightarrow> touches p = Some (l, w) \<Longrightarrow> \<exists>x. hd_mutex h = Some (l, x) \<and> (w \<longrightarrow> x)"
  by (cases p) auto

lemma locked_exclusive: "locked L s \<Longrightarrow> {#(l, True)#} + {#(l, x)#} \<subseteq># L \<Longrightarrow> False"
proof -
  assume L: "locked L s" and sub: "{#(l, True)#} + {#(l, x)#} \<subseteq># L"
  have "count L (l, True) \<ge> (if x then 2 else 1)" "count L (l, False) \<ge> (if x then 0 else 1)"
    using mset_subset_eq_count [OF sub, of "(l, True)"] mset_subset_eq_count [OF sub, of "(l, False)"] by auto
  moreover have "mutex_ok (sh_mutex s l) (count L (l, True)) (count L (l, False))"
    using L by (simp add: locked_def)
  ultimately show False by (cases "sh_mutex s l") (auto split: if_splits)
qed

lemma conc_inv_exclusive:
  assumes inv: "conc_inv rel hs (s, ths)" and ij: "i < length ths" "j < length ths" "i \<noteq> j"
    and p: "ths ! i = Busy q p" "touches p = Some (l, w)" and p': "ths ! j = Busy q' p'" "touches p' = Some (l, w')"
  shows "\<not> w"
proof
  assume w
  from conc_inv_thread_ok [OF inv ij(1)] conc_inv_thread_ok [OF inv ij(2)] p(1) p'(1)
  have l: "i < length hs" "j < length hs" and ok: "ok p rel (mode_of q) (hs ! i)" "ok p' rel (mode_of q') (hs ! j)"
    by auto
  from ok_touches [OF ok(1) p(2)] ok_touches [OF ok(2) p'(2)] \<open>w\<close> obtain x where
    "hd_mutex (hs ! i) = Some (l, True)" "hd_mutex (hs ! j) = Some (l, x)" by auto
  then have "{#(l, True)#} + {#(l, x)#} \<subseteq># summed lock_of hs"
    using summed_two [OF l ij(3), of lock_of] by simp
  moreover have "locked (summed lock_of hs) s" using inv by (simp add: conc_inv_def consistent_def)
  ultimately show False using locked_exclusive by blast
qed

lemma map_fds_ran: "finite (dom m) \<Longrightarrow> v \<in> ran m \<Longrightarrow> f v \<in># map_fds f m"
  by (force simp: map_fds_def ran_def)

lemma knows_usable:
  assumes "usable m h fd" "knows rel h s" "consistent L R F s" "hd_refs h \<subseteq># R" "hd_fds h \<subseteq># F"
    and "m = Pinned \<or> m = Lent \<and> \<not> rel"
  shows "fd \<in># opened {#} (sh_log s)"
proof -
  have o: "opened {#} (sh_log s) = sh_held s + F" and fin: "finite (dom (sh_objs s))" "finite (dom (sh_files s))" "finite (dom (sh_dirs s))"
    using assms(3) by (simp_all add: consistent_def accounted_def)
  from assms(1,6) consider "fd \<in># hd_fds h" | r where "r \<in># hd_refs h" "hd_path h r = Some fd"
    | "fd \<in> hd_lent h" "\<not> rel" by (auto simp: usable_def)
  then show ?thesis
  proof cases
    case 1
    then show ?thesis using mset_subset_eqD [OF assms(5)] o by simp
  next
    case (2 r)
    then obtain i where "sh_objs s r = Some i" "in_path_fd i = fd" using assms(2) by (auto simp: knows_def)
    then have "fd \<in># map_fds in_path_fd (sh_objs s)" using map_fds_ran [OF fin(1), of i in_path_fd] ranI by metis
    then show ?thesis using o by (simp add: sh_held_def)
  next
    case 3
    then have "fd \<in> ran (sh_files s) \<union> ran (sh_dirs s)" using assms(2) by (auto simp: knows_def)
    then have "fd \<in># map_fds id (sh_files s) + map_fds id (sh_dirs s)"
      using map_fds_ran [OF fin(2), of fd id] map_fds_ran [OF fin(3), of fd id] by auto
    then show ?thesis using o by (simp add: sh_held_def)
  qed
qed

lemma conc_inv_open:
  assumes inv: "conc_inv rel hs (s, ths)" and i: "i < length ths" "ths ! i = Busy q (Sys c k)"
    and m: "mode_of q = Pinned \<or> mode_of q = Lent \<and> \<not> rel" and fd: "fd \<in> set (uses c)"
  shows "fd \<in># opened {#} (sh_log s)"
proof -
  from conc_inv_thread_ok [OF inv i(1)] i(2)
  have l: "i < length hs" and ok: "ok (Sys c k) rel (mode_of q) (hs ! i)" and kn: "knows rel (hs ! i) s" by auto
  from ok fd have "usable (mode_of q) (hs ! i) fd" by simp
  then show ?thesis
    by (rule knows_usable [OF _ kn _ _ _ m]) (use inv l in \<open>auto simp: conc_inv_def intro!: summed_member\<close>)
qed

lemma exec_Waits: "exec os p s = Waits \<Longrightarrow> (\<exists>x. p = Ret x) \<or> (\<exists>l x p'. p = Acquire l x p' \<and> sh_mutex s l \<noteq> Readers 0)"
  by (cases p) (auto simp: Let_def exec_unref_def exec_forget_def exec_insert_def
      split: option.splits mutex_state.splits if_splits)

lemma conc_inv_progress:
  assumes inv: "conc_inv rel hs (s, ths)" and t: "\<exists>t \<in> set ths. t \<noteq> Idle"
  shows "\<exists>i < length ths. conc_do os (Act i) (s, ths) \<noteq> None \<or> conc_do os (Finish i) (s, ths) \<noteq> None"
proof (rule ccontr)
  assume stuck: "\<not> ?thesis"
  have waits: "(\<exists>l x p'. p = Acquire l x p' \<and> sh_mutex s l \<noteq> Readers 0)"
    if "i < length ths" "ths ! i = Busy q p" for i q p
  proof -
    have "conc_do os (Act i) (s, ths) = None" "conc_do os (Finish i) (s, ths) = None" using stuck that(1) by blast+
    then have a: "conc_act os i q p (s, ths) = None" and f: "\<forall>x. p \<noteq> Ret x"
      using that by (auto simp: thread_at_def)
    from a have "exec os p s = Waits" by (auto simp: conc_act_def split: stepped.splits)
    with exec_Waits f show ?thesis by blast
  qed
  have "hd_mutex (hs ! i) = None" if i: "i < length ths" for i
  proof (cases "ths ! i")
    case (Busy q p)
    with waits [OF i] obtain l x p' where "p = Acquire l x p'" by blast
    with conc_inv_thread_ok [OF inv i] Busy show ?thesis by simp
  qed (use conc_inv_thread_ok [OF inv i] in auto)
  moreover have "length ths = length hs" using inv by (auto simp: conc_inv_def dest: list_all2_lengthD)
  ultimately have "lock_of h = {#}" if "h \<in> set hs" for h
    using that by (auto simp: in_set_conv_nth)
  then have "summed lock_of hs = {#}" by (simp add: summed_def cong: map_cong)
  then have "locked {#} s" using inv by (simp add: conc_inv_def consistent_def)
  then have free: "sh_mutex s l = Readers 0" for l
    by (cases "sh_mutex s l") (auto simp: locked_def dest!: spec [of _ l])
  from t obtain i where "i < length ths" "ths ! i \<noteq> Idle" by (auto simp: in_set_conv_nth)
  moreover from this conc_inv_thread_ok [OF inv, of i] have "ths ! i \<noteq> Crashed" by auto
  ultimately show False using waits free by (metis thread.exhaust)
qed

text \<open>Every action brings its thread closer to the end of its callback.\<close>

inductive closer :: "thread \<Rightarrow> thread \<Rightarrow> bool" where
  "closer Idle (Busy q p)"
| "closer Crashed (Busy q p)"
| "sub_prog p' p \<Longrightarrow> closer (Busy q p') (Busy q p)"

lemma wf_closer: "wf {(t', t). closer t' t}"
proof -
  have acc_none: "t \<in> Wellfounded.acc {(t', t). closer t' t}" if "t = Idle \<or> t = Crashed" for t
    by (rule acc.accI) (use that in \<open>auto elim: closer.cases\<close>)
  have "Busy q p \<in> Wellfounded.acc {(t', t). closer t' t}" for q p
  proof (induction p rule: wfp_induct_rule [OF wfp_sub_prog])
    case (1 p)
    show ?case by (rule acc.accI) (use 1 acc_none in \<open>auto elim!: closer.cases\<close>)
  qed
  then have "\<forall>t. t \<in> Wellfounded.acc {(t', t). closer t' t}" using acc_none by (metis thread.exhaust)
  then show ?thesis by (rule acc_wfI)
qed

fun works :: "event \<Rightarrow> bool" where
  "works (Start i q) = False"
| "works _ = True"

lemma wf_works: "wf {(c', c). \<exists>e. works e \<and> conc_do os e c = Some c'}"
proof (rule wf_subset)
  show "wf (inv_image (listrel1 {(t', t). closer t' t}) snd)"
    by (intro wf_inv_image) (simp add: wf_closer)
  show "{(c', c). \<exists>e. works e \<and> conc_do os e c = Some c'} \<subseteq> inv_image (listrel1 {(t', t). closer t' t}) snd"
  proof (clarsimp simp: in_inv_image)
    fix s' ths' s ths e
    assume e: "works e" "conc_do os e (s, ths) = Some (s', ths')"
    have upd: "(ths[i := t'], ths) \<in> listrel1 {(t', t). closer t' t}" if "thread_at ths i = t" "closer t' t" "t \<noteq> Crashed" for i t t'
      using that by (auto simp: listrel1_iff_update thread_at_def split: if_splits intro!: exI [of _ i] exI [of _ t])
    show "(ths', ths) \<in> listrel1 {(t', t). closer t' t}"
    proof (cases e)
      case (Act i)
      with e(2) obtain q p where p: "thread_at ths i = Busy q p" and a: "conc_act os i q p (s, ths) = Some (s', ths')"
        by (auto split: thread.splits)
      from a obtain t' where "ths' = ths[i := t']" "closer t' (Busy q p)"
        by (auto simp: conc_act_def split: stepped.splits intro: closer.intros dest: exec_sub)
      with upd [OF p] show ?thesis by simp
    next
      case (Finish i)
      with e(2) obtain q x where p: "thread_at ths i = Busy q (Ret x)" and "ths' = ths[i := Idle]"
        by (auto split: thread.splits prog.splits)
      with upd [OF p closer.intros(1)] show ?thesis by simp
    qed (use e(1) in simp)
  qed
qed

subsection \<open>One request at a time\<close>

text \<open>A callback that nobody interrupts takes the steps of its program to the end.\<close>

lemma run_conc:
  assumes "run_prog os p s = Some (x, s')" "i < length ths" "ths ! i = Busy q p"
  shows "\<exists>n. conc_run os (replicate n (Act i)) (s, ths) = Some (s', ths[i := Busy q (Ret x)])"
  using assms
proof (induction p arbitrary: s ths rule: wfp_induct_rule [OF wfp_sub_prog])
  case (1 p)
  show ?case
  proof (cases "result_of p")
    case None
    with "1.prems"(1) obtain p1 s1 where e: "exec os p s = Stepped p1 s1" and r: "run_prog os p1 s1 = Some (x, s')"
      by (subst (asm) run_prog.simps) (auto split: stepped.splits)
    obtain n where "conc_run os (replicate n (Act i)) (s1, ths[i := Busy q p1]) = Some (s', ths[i := Busy q (Ret x)])"
      using "1.IH" [OF exec_sub [OF e] r, of "ths[i := Busy q p1]"] "1.prems"(2) by auto
    moreover have "conc_do os (Act i) (s, ths) = Some (s1, ths[i := Busy q p1])"
      using e "1.prems"(2,3) by (simp add: thread_at_def conc_act_def)
    ultimately have "conc_run os (replicate (Suc n) (Act i)) (s, ths) = Some (s', ths[i := Busy q (Ret x)])" by simp
    then show ?thesis ..
  next
    case (Some y)
    then have "p = Ret y" by (cases p) simp_all
    with "1.prems" have "conc_run os (replicate 0 (Act i)) (s, ths) = Some (s', ths[i := Busy q (Ret x)])"
      by auto (metis list_update_id)
    then show ?thesis ..
  qed
qed

lemma idle_alone: "consistent {#} {#} {#} s \<Longrightarrow> alone [] s (flat s)"
proof -
  assume c: "consistent {#} {#} {#} s"
  have "sh_mutex s l = Readers 0" for l
    using c by (cases "sh_mutex s l") (auto simp: consistent_def locked_def dest!: spec [of _ l])
  with c show ?thesis by (simp add: alone_def consistent_def)
qed

lemma callback_alone:
  assumes "consistent {#} {#} {#} s" "\<forall>n fh off out. q = Q_readdir n fh off out \<longrightarrow> dw_ok out"
  shows "\<exists>s'. run_prog os (callback os q) s = Some (fst (call_pt os q ctx (flat s)), s') \<and>
    flat s' = snd (call_pt os q ctx (flat s))"
proof -
  have "pt_readdir os (flat s) ctx n fh off out \<noteq> None" if "q = Q_readdir n fh off out" for n fh off out
    using assms(2) that readdir_loop_reach [of out] by (auto simp: pt_readdir_def split: option.split) (metis option.distinct(1))
  then have "sim os (callback os q) [] (flat s) (call_pt os q ctx (flat s))" by (rule sim_callback)
  with idle_alone [OF assms(1)] show ?thesis unfolding sim_def alone_def by blast
qed

subsection \<open>What holds under every interleaving\<close>

text \<open>
  C8. Typing of the callbacks: the program of every callback follows the ownership discipline,
  whatever the system calls return. It locks before it touches a table and never holds two
  mutexes, uses an inode only through a \<open>shared_ptr\<close> it holds, closes or hands over only
  descriptors it owns, and on every path ends with no mutex, no \<open>shared_ptr\<close> and no descriptor
  left; only \<open>release\<close> and \<open>releasedir\<close> take handles out of the tables.
\<close>

theorem callback_discipline: "ok (callback os q) (releases q) (mode_of q) nothing"
  by (rule callback_ok) simp


text \<open>
  C7. No use after close: at any moment of any interleaving, the descriptors that the next system
  call of a callback names, itself or through \<open>/proc/self/fd\<close>, are open. This holds of every
  callback that works on inodes, however they are forgotten meanwhile, except \<open>setstatx\<close>;
  and of reads, writes and \<open>readdir\<close> on a handle as long as no handle is released.
\<close>

theorem concurrent_calls_open:
  assumes "reached os backing es (s, ths)" "i < length ths" "ths ! i = Busy q (Sys c k)" "fd \<in> set (uses c)"
    and "mode_of q = Pinned \<or> mode_of q = Lent \<and> no_release es"
  shows "fd \<in># opened {#} (sh_log s)"
proof (cases "mode_of q = Pinned")
  case True
  obtain hs where "conc_inv True hs (s, ths)" using reached_inv assms(1) by blast
  then show ?thesis by (rule conc_inv_open [OF _ assms(2,3) _ assms(4)]) (simp add: True)
next
  case False
  then obtain hs where "conc_inv False hs (s, ths)" using reached_inv [OF assms(1), of False] assms(5) by blast
  then show ?thesis by (rule conc_inv_open [OF _ assms(2,3) _ assms(4)]) (use False assms(5) in simp)
qed

text \<open>
  C11. No data race: two threads are never about to access the same table (inodes, open files or
  open directories) with one of the accesses a write.
\<close>

theorem concurrent_tables:
  assumes "reached os backing es (s, ths)" "i < length ths" "j < length ths" "i \<noteq> j"
    and "ths ! i = Busy q p" "touches p = Some (l, w)" "ths ! j = Busy q' p'" "touches p' = Some (l, w')"
  shows "\<not> w \<and> \<not> w'"
  using reached_inv [OF assms(1), of True] conc_inv_exclusive assms by metis

text \<open>
  C10. No deadlock and no livelock: whenever a request is being served, some thread can take its
  next step or return; and from no state are there infinitely many steps without a new
  request. So every request in flight is eventually answered.
\<close>

theorem concurrent_progress:
  assumes "reached os backing es (s, ths)" "\<exists>t \<in> set ths. t \<noteq> Idle"
  shows "(\<exists>i < length ths. conc_do os (Act i) (s, ths) \<noteq> None \<or> conc_do os (Finish i) (s, ths) \<noteq> None) \<and>
    wf {(c', c). \<exists>e. works e \<and> conc_do os e c = Some c'}"
  using reached_inv [OF assms(1), of True] conc_inv_progress [OF _ assms(2)] wf_works by blast

text \<open>
  C9. The threaded callbacks refine the sequential ones: in any state that an interleaving has
  reached, with no other request in flight, a thread that is given a request and left alone
  comes to the end of its callback, with the result and the state of the callback's
  definition as one step on the tables.
\<close>

theorem concurrent_refines:
  assumes "reached os backing es (s, ths)" "\<forall>t \<in> set ths. t = Idle" "i < length ths"
    and "\<forall>n fh off out. q = Q_readdir n fh off out \<longrightarrow> dw_ok out"
  shows "\<exists>n s'. conc_run os (Start i q # replicate n (Act i)) (s, ths) =
      Some (s', ths[i := Busy q (Ret (fst (call_pt os q ctx (flat s))))]) \<and>
    flat s' = snd (call_pt os q ctx (flat s))"
proof -
  obtain hs where inv: "conc_inv True hs (s, ths)" using reached_inv assms(1) by blast
  from callback_alone [OF conc_inv_idle [OF inv assms(2)] assms(4)] obtain s' where
    r: "run_prog os (callback os q) s = Some (fst (call_pt os q ctx (flat s)), s')"
    and f: "flat s' = snd (call_pt os q ctx (flat s))" by blast
  have "conc_do os (Start i q) (s, ths) = Some (s, ths[i := Busy q (callback os q)])"
    using assms(2,3) by (auto simp: thread_at_def split: thread.split) (metis nth_mem thread.distinct)+
  with run_conc [OF r, of i "ths[i := Busy q (callback os q)]" q] assms(3) f show ?thesis by auto
qed

subsection \<open>Runs\<close>

text \<open>
  A machine to run it on: it hands out descriptor 4 for every name, so again after it was
  closed, and the files found are 7, 8 and so on. One thread looks up a file; another one is
  in the middle of a \<open>chmod\<close> of it when it is forgotten and the next file is looked up.
\<close>

definition race_os :: os where
  "race_os = (sample_os 0)
     \<lparr>os_call := (\<lambda>log c. Inr (case c of Openat fd nm fl m \<Rightarrow> 4 | _ \<Rightarrow> 0)),
      os_stat := (\<lambda>log c. sample_stat (6 + of_nat (length (filter (\<lambda>x. opened_by x \<noteq> None) (tl log)))))\<rparr>"

definition race_chmod :: pt_request where
  "race_chmod = Q_setstatx 7 0 (SetStatxIn_zero\<lparr>si_mask := statx_mask_mode, si_mode := 0x1ff\<rparr>)"

definition race_schedule :: "event list" where
  "race_schedule =
     Start 1 (Q_lookupx NodeId_root [97]) # replicate 10 (Act 1) @
     [Finish 1, Start 0 race_chmod] @ replicate 5 (Act 0) @
     [Start 1 (Q_forget 7 1)] @ replicate 3 (Act 1) @
     [Finish 1, Start 1 (Q_lookupx NodeId_root [98])] @ replicate 10 (Act 1) @ [Finish 1]"

definition race_start :: "shared \<times> thread list" where
  "race_start = conc_init 2 (Path [47]) 0 3"

lemma race_reached:
  assumes "conc_run race_os es race_start = Some cfg" "length (sh_log (fst cfg)) < 2 ^ 64"
  shows "reached race_os 3 es cfg"
proof -
  have "os_ok race_os" by (auto simp: os_ok_def race_os_def split: call.splits)
  with assms show ?thesis unfolding reached_def race_start_def by auto
qed


text \<open>What the threads of a run are about to do.\<close>

fun idle :: "thread \<Rightarrow> bool" where
  "idle Idle = True"
| "idle _ = False"

fun next_call :: "thread \<Rightarrow> (pt_request \<times> call) option" where
  "next_call (Busy q (Sys c k)) = Some (q, c)"
| "next_call _ = None"

fun next_touch :: "thread \<Rightarrow> (mutex \<times> bool) option" where
  "next_touch (Busy q p) = touches p"
| "next_touch _ = None"

lemma idle_iff [simp]: "idle t \<longleftrightarrow> t = Idle"
  by (cases t) simp_all

lemma next_call_Some: "next_call t = Some (q, c) \<Longrightarrow> \<exists>k. t = Busy q (Sys c k)"
  by (cases t rule: next_call.cases) simp_all

lemma next_touch_Some: "next_touch t = Some x \<Longrightarrow> \<exists>q p. t = Busy q p \<and> touches p = Some x"
  by (cases t) simp_all

definition run_view :: "(thread \<Rightarrow> 'a) \<Rightarrow> event list \<Rightarrow> (nat \<times> 'a list) option" where
  "run_view f es = map_option (\<lambda>(s, ths). (length (sh_log s), map f ths)) (conc_run race_os es race_start)"

lemma run_viewE:
  assumes "run_view f es = Some (n, xs)" "n < 2 ^ 64"
  obtains s ths where "conc_run race_os es race_start = Some (s, ths)" "reached race_os 3 es (s, ths)" "map f ths = xs"
  using assms race_reached by (auto simp: run_view_def)

text \<open>The first lookup, when it is done; just before its system call; and two threads at a time.\<close>

definition two_schedule :: "event list" where
  "two_schedule = [Start 0 (Q_statx NodeId_root), Start 1 (Q_statx NodeId_root), Act 0, Act 1]"

lemma view_done: "run_view idle (take 12 race_schedule) = Some (3, [True, True])"
  by code_simp

lemma view_call: "run_view next_call (take 5 race_schedule) =
    Some (1, [None, Some (Q_lookupx NodeId_root [97], Openat 3 [97] (O_PATH OR O_NOFOLLOW OR O_CLOEXEC) 0)])"
  by code_simp

lemma view_two: "run_view next_touch two_schedule = Some (1, [Some (Mu, False), Some (Mu, False)])"
  by code_simp


theorem concurrent_calls_open_witness:
  "\<exists>s ths. conc_run race_os (take 5 race_schedule) race_start = Some (s, ths) \<and> 3 \<in># opened {#} (sh_log s)"
proof -
  let ?c = "Openat 3 [97] (O_PATH OR O_NOFOLLOW OR O_CLOEXEC) 0"
  obtain s ths where s: "conc_run race_os (take 5 race_schedule) race_start = Some (s, ths)"
    "reached race_os 3 (take 5 race_schedule) (s, ths)" "map next_call ths = [None, Some (Q_lookupx NodeId_root [97], ?c)]"
    by (rule run_viewE [OF view_call]) simp_all
  from s(3) obtain t k where "ths = [t, Busy (Q_lookupx NodeId_root [97]) (Sys ?c k)]" by (auto dest!: next_call_Some)
  then have "3 \<in># opened {#} (sh_log s)"
    by (intro concurrent_calls_open [OF s(2), of 1 "Q_lookupx NodeId_root [97]" ?c k]) simp_all
  with s(1) show ?thesis by blast
qed

theorem concurrent_tables_witness:
  "\<exists>s ths w w'. conc_run race_os two_schedule race_start = Some (s, ths) \<and>
     map next_touch ths = [Some (Mu, w), Some (Mu, w')] \<and> \<not> w \<and> \<not> w'"
proof -
  obtain s ths where s: "conc_run race_os two_schedule race_start = Some (s, ths)"
    "reached race_os 3 two_schedule (s, ths)" "map next_touch ths = [Some (Mu, False), Some (Mu, False)]"
    by (rule run_viewE [OF view_two]) simp_all
  obtain w w' where m: "map next_touch ths = [Some (Mu, w), Some (Mu, w')]" by (rule that) (rule s(3))
  then obtain q p q' p' where ths: "ths = [Busy q p, Busy q' p']" "touches p = Some (Mu, w)" "touches p' = Some (Mu, w')"
    by (auto dest!: next_touch_Some)
  have "\<not> w \<and> \<not> w'"
    by (rule concurrent_tables [OF s(2), of 0 1 q p Mu w q' p' w']) (simp_all add: ths)
  with s(1) m show ?thesis
    by (intro exI [of _ s] exI [of _ ths] exI [of _ w] exI [of _ w'] conjI) simp_all
qed

theorem concurrent_progress_witness:
  "\<exists>s ths. conc_run race_os two_schedule race_start = Some (s, ths) \<and>
     (\<exists>i < length ths. conc_do race_os (Act i) (s, ths) \<noteq> None \<or> conc_do race_os (Finish i) (s, ths) \<noteq> None)"
proof -
  obtain s ths where s: "conc_run race_os two_schedule race_start = Some (s, ths)"
    "reached race_os 3 two_schedule (s, ths)" "map next_touch ths = [Some (Mu, False), Some (Mu, False)]"
    by (rule run_viewE [OF view_two]) simp_all
  have "\<exists>t \<in> set ths. t \<noteq> Idle" using s(3) by (auto simp: map_eq_Cons_conv)
  from concurrent_progress [OF s(2) this] s(1) show ?thesis by blast
qed

theorem concurrent_refines_witness:
  "\<exists>s n s' x. conc_run race_os (take 12 race_schedule) race_start = Some (s, [Idle, Idle]) \<and>
     conc_run race_os (Start 0 (Q_statx 7) # replicate n (Act 0)) (s, [Idle, Idle]) = Some (s', [Busy (Q_statx 7) (Ret x), Idle]) \<and>
     (x, flat s') = call_pt race_os (Q_statx 7) Context_default (flat s)"
proof -
  obtain s ths where s: "conc_run race_os (take 12 race_schedule) race_start = Some (s, ths)"
    "reached race_os 3 (take 12 race_schedule) (s, ths)" "map idle ths = [True, True]"
    by (rule run_viewE [OF view_done]) simp_all
  from s(3) have ths: "ths = [Idle, Idle]" by auto
  from concurrent_refines [OF s(2) [unfolded ths], of 0 "Q_statx 7" Context_default]
  obtain n s' where "conc_run race_os (Start 0 (Q_statx 7) # replicate n (Act 0)) (s, [Idle, Idle]) =
      Some (s', [Busy (Q_statx 7) (Ret (fst (call_pt race_os (Q_statx 7) Context_default (flat s)))), Idle])"
    "flat s' = snd (call_pt race_os (Q_statx 7) Context_default (flat s))" by auto
  with s(1) ths show ?thesis by (metis prod.collapse)
qed

end
