(* ===== verification/Spec2Isabelle.thy ===== *)
theory Spec2Isabelle
  imports Fuse_Layout Unique_Fd Daemon_Safe Passthrough_Races
begin

text \<open>
  \<^bold>\<open>libfex\<close> is a C++ library for file-system daemons over the fusex kernel module. The kernel
  lays a request out in a slot of an io_uring queue; a worker thread of that queue
  reassembles it, dispatches it by opcode to a callback of the daemon, writes the reply back
  into the slot and hands the slot back to the kernel. A session opens the device, mounts,
  runs one worker per queue, and takes everything down again. The repository's daemon mirrors
  a backing directory.

  \<^bold>\<open>Theories\<close>, bottom up, with the files under \<open>src/\<close> they model:

  \<^item> \<open>Fex_Prelude\<close>: bytes, machine words, little-endian codecs, and checked memory accesses
    (\<^const>\<open>load\<close>, \<^const>\<open>slice\<close>, \<^const>\<open>store\<close>), with the locale \<open>wire_struct\<close> of an
    encoder and a decoder that are inverse to each other.
  \<^item> \<open>Fuse_Abi\<close> (\<open>include/fex/fuse_uapi.h\<close>): opcodes, constants and the 31 structures the
    library reads or writes, each with an interpretation of \<open>wire_struct\<close>. \<open>Fuse_Header\<close>: every
    structure, enumeration, flag and constant of the header as a declaration, with the layout
    rules of the C ABI; \<open>Fuse_Layout\<close>: what the declarations promise, and that the encoders of
    \<open>Fuse_Abi\<close> produce the declared images.
  \<^item> \<open>Fex_Types\<close> (\<open>include/fex/types.hpp\<close>): the public value types.
  \<^item> \<open>Reply\<close> (\<open>src/session_impl.hpp\<close>, \<open>src/reply.cpp\<close>): the \<open>Replier\<close>, the \<open>DirentWriter\<close>.
  \<^item> \<open>Filesystem\<close> (\<open>include/fex/filesystem.hpp\<close>): the callbacks as a record of functions over
    the daemon's state, and the locale \<open>filesystem_contract\<close> of what the C++ types promise
    the dispatcher.
  \<^item> \<open>Session_Impl\<close>, \<open>Handlers\<close>, \<open>Dispatch\<close> (\<open>src/session_impl.hpp\<close>, \<open>src/handlers.cpp\<close>): the
    session state, one definition per handler, the compound handler and the switch.
    \<open>Handlers_Safe\<close> and \<open>Dispatch\<close> prove that none of them leaves its buffers.
  \<^item> \<open>Requests\<close>, \<open>Compound\<close>: the specification, that is requests as data, their encoding, and
    what performing them means; the dispatcher refines it.
  \<^item> \<open>Protocol\<close>: the properties of the protocol layer.
  \<^item> \<open>Uring_Worker\<close> (\<open>src/uring_worker.hpp\<close>, \<open>src/uring_worker.cpp\<close>): set-up, \<open>handle_one\<close>, the
    loop and teardown of a worker, and its properties.
  \<^item> \<open>Mount\<close> (\<open>src/mount.cpp\<close>, \<open>UniqueFd\<close> and \<open>open_fex_device\<close> of \<open>src/session.cpp\<close>): the two mount
    phases as traces of system calls, and a small logic of descriptor ownership on traces.
    \<open>Unique_Fd\<close>: \<open>UniqueFd\<close> and the example's \<open>Fd\<close> as objects that can be moved, with aliasing.
  \<^item> \<open>Session\<close> (\<open>src/session.cpp\<close>): \<open>run\<close>, \<open>stop\<close>, the destructor and the interleaving of the
    workers; \<open>Session_Exit\<close>: how a session ends.
  \<^item> \<open>Fs_Steps\<close>: the callbacks as a step relation; all layers up to \<open>Session::run\<close> move the
    daemon's state along it.
  \<^item> \<open>Passthrough\<close> (\<open>examples/passthrough.cpp\<close>): the inode table, the handle tables and every
    callback of \<open>PassthroughFs\<close>; \<open>Passthrough_Fds\<close>: its descriptor invariant;
    \<open>Passthrough_Safe\<close>: its interpretation of \<open>filesystem_contract\<close> and its properties.
  \<^item> \<open>Passthrough_Threads\<close>: the same callbacks as programs of the actions between which other
    threads may run (locking, a table access, a system call, a use of a \<open>shared_ptr\<close>);
    \<open>Passthrough_Alone\<close>: a program that runs alone does what the callback's definition says;
    \<open>Passthrough_Discipline\<close>: every program follows an ownership discipline;
    \<open>Passthrough_Shared\<close>: an action that follows it keeps the shared state consistent;
    \<open>Passthrough_Races\<close>: all interleavings of any number of threads, and their properties.
  \<^item> \<open>Daemon\<close> (\<open>examples/passthrough.cpp\<close>): the command line, the signal handlers, the watchdog and
    \<open>main\<close> with both processes of the mount helper, as traces of events with an exit status;
    \<open>Daemon_Safe\<close>: its properties.

  \<^bold>\<open>Conventions.\<close> Memory is a list of bytes; an access out of bounds is \<^term>\<open>None\<close>, so that a
  theorem that a function returns \<^term>\<open>Some x\<close> includes memory safety. Fixed-width integers
  are words and wrap around; \<open>size_t\<close> is a natural number, with the one subtraction that
  can wrap written out (\<^const>\<open>size_sub\<close>). \<open>std::expected\<close> is a sum, an error code is its error
  number. State is passed explicitly. Kernel, liburing, C library and threads are inputs:
  what they answer is an argument of the definitions (\<open>start_env\<close>, \<open>run_env\<close>, \<open>mount_env\<close>,
  \<open>session_env\<close>, \<open>os\<close>, and the schedule of the workers), what the program asks of them is a
  log or a trace in the result. What a theorem needs of them is a named hypothesis
  (\<^const>\<open>env_ok\<close>, \<^const>\<open>session_env_ok\<close>, \<^const>\<open>os_ok\<close>).

  \<^bold>\<open>What is shown.\<close>

  \<^item> Wire format: the encoders agree with the C layout of the header, which is the same for both
    alignments of 64-bit integers in use and has no padding; the sizes kept for older
    kernels and the areas of fixed size are what the header says they are.
  \<^item> Protocol: dispatching the encoding of a request performs exactly that request and answers
    it; a compound is the sequence of its parts with node ids threaded through; malformed
    requests are refused without a callback; replies decode to what the daemon returned;
    nothing leaves its buffer, with the exceptions below.
  \<^item> Transport: the same end to end for a request laid out in a ring entry; every fetched
    request is answered once, in order and under its commit id, also with all workers
    interleaved; start arms every slot, teardown unmaps every buffer once.
  \<^item> Session: all descriptors are closed exactly once on every path; the device is closed
    before the mount is dropped, and the mount never outlives \<open>run\<close>; the first failure is the
    error returned; \<open>run\<close> returns once the workers are told to stop.
  \<^item> Passthrough: at any time of any session the open descriptors are those in the tables; the
    inode table is a reference count; batched forgetting is the default; \<open>readdir\<close> ends and
    packs the stream.
  \<^item> Program: the mount helper's exit status tells whether the mount came up; a process that
    returns from \<open>main\<close> has closed its pipe and what its session opened; a terminating signal
    stops the session from the installation of the handlers to its destruction; the standard
    streams of the daemon are \<open>/dev/null\<close>. The wrappers of descriptors never close one twice
    or lose one, and the two classes are interchangeable.
  \<^item> Threads of the passthrough daemon, under any interleaving: no undefined behaviour, no
    data race on the tables, no descriptor leaked, closed twice or used after it was closed,
    no deadlock and no endless run; a request served alone gets the sequential result.
  \<^item> Defects, each proved of the definitions: the over-reads of \<open>removexattr\<close> and of the payload
    copy, the slot lost after an interrupted fetch, the undelivered early \<open>stop\<close>, extended
    attributes that miss the backing object, inode number 1, extensions taken as names, a
    page count beyond the payload, \<open>setstatx\<close> racing with a forget, a signal that reaches the
    destroyed session, descriptors replaced when the program starts with a standard
    stream closed, and directory streams that outlive the file system.

  \<^bold>\<open>Termination and bounds.\<close> There is no fuel. The loops over compounds and directory entries
  have a measure (the bytes left of the body, the room left in the writer), the watchdog has
  its own bound of 600. The worker's loop, the session and the waiting parent run over the
  completions, schedule or results supplied, and their results say whether they have ended
  or still wait. The descriptor invariant of the passthrough daemon is for fewer than
  \<open>2 ^ 64\<close> system calls, the lookup counts for fewer than \<open>2 ^ 64\<close> references, so that no
  64-bit counter wraps around; ring sizes are below \<open>2 ^ 32\<close> as their types are.

  \<^bold>\<open>Not modelled.\<close> Log output (\<open>FEX_DEBUG\<close>, messages on errors), which has no effect on the
  results. Interleavings inside a turn of a worker, other than those of the passthrough
  callbacks: beyond the daemon the workers share the stop flag, which is atomic, and the flag
  that \<open>INIT\<close> sets. The C++ memory model: actions of the callbacks are sequentially
  consistent, which data-race freedom justifies. Signals inside a turn of a worker: a
  signal is a call of \<open>stop\<close> in the schedule of the session, or comes between two
  events of \<open>main\<close>. Type conversions of the public headers that are the identity here.
  \<open>include/fex/abi.h\<close> and \<open>include/fex/fex.hpp\<close>, which only include other headers.
\<close>

end
